theory Spec2Isabelle
  imports Complex_Main
begin

section \<open>The data model of the task graph editor\<close>

text \<open>
  The editor keeps its whole model in the DOM: a task is a \<open>div\<close> of class \<open>task\<close> under
  \<open>itemsContainer\<close>, a dependency is an SVG \<open>path\<close> under \<open>arrows\<close>, and the two kinds of
  element point at each other through the properties \<open>from\<close> and \<open>to\<close>. Elements are
  objects with identity, so the embedding uses an explicit store: an element is an address
  (a natural number), the store maps addresses to the element's properties, and the two
  containers are the lists of their children in document order. JavaScript numbers are
  modelled as reals.
\<close>

type_synonym tid = nat
type_synonym did = nat

record point =
  p_x :: real
  p_y :: real

record box =
  b_left :: real
  b_top :: real
  b_right :: real
  b_bottom :: real

datatype status = Todo | Completed

text \<open>The serialised form: \<open>interface Task\<close>, \<open>Dependency\<close> and \<open>Graph\<close>.\<close>

record task =
  name :: string
  status :: status
  pos :: point

record dependency =
  predecessor :: string
  successor :: string

record graph =
  tasks :: "task list"
  dependencies :: "dependency list"

text \<open>\<open>interface AddTask extends Partial<Task>\<close>: only the name is mandatory.\<close>

record addTaskArg =
  a_name :: string
  a_status :: "status option"
  a_pos :: "point option"

text \<open>
  \<open>HTMLTaskElement\<close>: the properties of a task element that the program reads or writes.
  \<open>style_left\<close> and \<open>style_top\<close> are the numbers written to \<open>style.left\<close> and \<open>style.top\<close>
  (the suffix \<open>px\<close> is left out); \<open>t_from\<close> and \<open>t_to\<close> are the arrays \<open>from\<close> (outgoing
  dependencies) and \<open>to\<close> (incoming dependencies).
\<close>

record htmlTask =
  textContent :: string
  classList :: "string set"
  style_left :: real
  style_top :: real
  offsetWidth :: real
  offsetHeight :: real
  t_from :: "did list"
  t_to :: "did list"

text \<open>
  \<open>HTMLDependencyElement\<close>: \<open>d_to\<close> is \<open>None\<close> while the property \<open>to\<close> is still undefined
  (the provisional path of a link gesture). \<open>d_attr\<close> is the attribute \<open>d\<close>: \<open>Some (a, b)\<close>
  stands for the string \<open>M a.x,a.y L b.x,b.y\<close> and \<open>None\<close> for the empty string.
\<close>

record htmlDependency =
  d_from :: tid
  d_to :: "tid option"
  d_attr :: "(point \<times> point) option"

record panzoomT =
  pan :: point
  zoom :: real

text \<open>The custom events dispatched on \<open>graphContainer\<close>, with their \<open>detail\<close>.\<close>

datatype customEvent =
  Selectionchanged "tid list"
| Taskmoved tid
| Newdependency

text \<open>What a JavaScript exception of the program can be.\<close>

datatype error = NotFoundError | TypeError

text \<open>
  The state of the page. \<open>nextId\<close> is the next unused address; \<open>graphBox\<close> is the offset
  box of \<open>graphContainer\<close>; \<open>layout\<close> is the browser's layout, giving the rendered width and
  height of a task element from its text; \<open>dispatched\<close> is the log of the custom events
  dispatched so far and \<open>console\<close> the log of the calls of \<open>console.error\<close>;
  \<open>linkModeChecked\<close> is the state of the check box \<open>#linkModeCheckbox input\<close>.
\<close>

record state =
  taskObj :: "tid \<Rightarrow> htmlTask"
  depObj :: "did \<Rightarrow> htmlDependency"
  nextId :: nat
  itemsContainer :: "tid list"
  arrows :: "did list"
  panzoom :: panzoomT
  graphBox :: box
  layout :: "string \<Rightarrow> real \<times> real"
  dispatched :: "customEvent list"
  console :: "(string \<times> dependency) list"
  linkModeChecked :: bool

section \<open>Helpers of \<open>misc.js\<close> and \<open>geometry.js\<close>\<close>

text \<open>
  \<open>misc.js\<close> and \<open>geometry.js\<close> are not among the sources. The JavaScript version of the
  graph module, which is, defines \<open>removeFromArray\<close> and \<open>snap\<close> itself; they are taken
  from there.

  \<open>removeFromArray\<close>, as the JavaScript version of the module defines it:
  \<open>array.splice(array.indexOf(element), 1)\<close>. When the element is absent \<open>indexOf\<close> is
  \<open>-1\<close>, and \<open>splice(-1, 1)\<close> removes the last element of the array.
\<close>

definition removeFromArray :: "'a list \<Rightarrow> 'a \<Rightarrow> 'a list" where
  "removeFromArray array element =
     (if element \<in> set array then remove1 element array else butlast array)"

text \<open>
  \<open>snap\<close>, as the JavaScript version of the module defines it: snaps \<open>value\<close> to \<open>target\<close>
  if close to \<open>target\<close> by less than \<open>offset\<close>.
\<close>

definition snap :: "real \<Rightarrow> real \<Rightarrow> real \<Rightarrow> real" where
  "snap target offset value =
     (if value > target - offset \<and> value < target + offset then target else value)"

text \<open>
  Modelled from the spec: \<open>squaredDistance\<close> of \<open>geometry.js\<close>, which is not among the
  sources: the sum of the squared coordinate differences.
\<close>

definition squaredDistance :: "point \<Rightarrow> point \<Rightarrow> real" where
  "squaredDistance p q = (p_x p - p_x q) * (p_x p - p_x q) + (p_y p - p_y q) * (p_y p - p_y q)"

text \<open>
  Modelled from the spec: \<open>getBoxCenter\<close> of \<open>geometry.js\<close>, the centre of a box.
\<close>

definition getBoxCenter :: "box \<Rightarrow> point" where
  "getBoxCenter b = \<lparr>p_x = (b_left b + b_right b) / 2, p_y = (b_top b + b_bottom b) / 2\<rparr>"

text \<open>
  Modelled from the spec: \<open>getExpandedBox\<close> of \<open>geometry.js\<close>, which grows a box by a
  margin on all four sides.
\<close>

definition getExpandedBox :: "box \<Rightarrow> real \<Rightarrow> box" where
  "getExpandedBox b margin =
     \<lparr>b_left = b_left b - margin, b_top = b_top b - margin,
      b_right = b_right b + margin, b_bottom = b_bottom b + margin\<rparr>"

text \<open>
  Modelled from the spec: \<open>getOffsetBox\<close> of \<open>geometry.js\<close>, the box of an element in the
  untransformed frame of its container. For a task element its top-left corner is the
  position written to \<open>style.left\<close> and \<open>style.top\<close> and its extent is the rendered size.
\<close>

definition getOffsetBox :: "htmlTask \<Rightarrow> box" where
  "getOffsetBox e =
     \<lparr>b_left = style_left e, b_top = style_top e,
      b_right = style_left e + offsetWidth e, b_bottom = style_top e + offsetHeight e\<rparr>"

text \<open>
  \<open>intersectLineBox\<close> of \<open>geometry.js\<close> is not among the sources either; every function
  that renders a path takes it as the parameter \<open>ilb\<close>.
\<close>

type_synonym intersectLineBox = "point \<Rightarrow> point \<Rightarrow> box \<Rightarrow> point option"

section \<open>Pan and zoom\<close>

text \<open>
  The handler of \<open>wheel\<close> installed by \<open>setupZoom\<close>, in its three steps: the factor chosen
  from \<open>event.deltaY\<close>, the new zoom \<open>snap(1)(0.1)(panzoom.zoom * factor)\<close>, and the
  assignment to \<open>panzoom.zoom\<close>.
\<close>

definition wheelFactor :: "real \<Rightarrow> real" where
  "wheelFactor deltaY = (if deltaY < 0 then 1.1 else 0.9)"

definition applyZoomFactor :: "real \<Rightarrow> real \<Rightarrow> real" where
  "applyZoomFactor z factor = snap 1 0.1 (z * factor)"

definition onwheel :: "real \<Rightarrow> state \<Rightarrow> state" where
  "onwheel deltaY st =
     st\<lparr>panzoom := (panzoom st)\<lparr>zoom := applyZoomFactor (zoom (panzoom st)) (wheelFactor deltaY)\<rparr>\<rparr>"

section \<open>Entity model\<close>

text \<open>A \<open>forEach\<close> whose callback can throw: the first exception ends the loop.\<close>

fun forEachE :: "('a \<Rightarrow> 's \<Rightarrow> error + 's) \<Rightarrow> 'a list \<Rightarrow> 's \<Rightarrow> error + 's" where
  "forEachE f [] s = Inr s"
| "forEachE f (a # as) s = (case f a s of Inl e \<Rightarrow> Inl e | Inr s' \<Rightarrow> forEachE f as s')"

text \<open>A \<open>map\<close> whose callback can throw.\<close>

fun mapE :: "('a \<Rightarrow> error + 'b) \<Rightarrow> 'a list \<Rightarrow> error + 'b list" where
  "mapE f [] = Inr []"
| "mapE f (a # as) =
     (case f a of Inl e \<Rightarrow> Inl e
      | Inr b \<Rightarrow> (case mapE f as of Inl e \<Rightarrow> Inl e | Inr bs \<Rightarrow> Inr (b # bs)))"

text \<open>\<open>parent.removeChild(child)\<close> throws \<open>NotFoundError\<close> when \<open>child\<close> is not a child.\<close>

definition removeChild :: "nat list \<Rightarrow> nat \<Rightarrow> error + nat list" where
  "removeChild children child =
     (if child \<in> set children then Inr (remove1 child children) else Inl NotFoundError)"

definition getTasks :: "state \<Rightarrow> tid list" where
  "getTasks st = filter (\<lambda>e. ''task'' \<in> classList (taskObj st e)) (itemsContainer st)"

text \<open>Every child of \<open>arrows\<close> that the model tracks is a \<open>path\<close> element.\<close>

definition getDependencies :: "state \<Rightarrow> did list" where
  "getDependencies st = arrows st"

text \<open>
  \<open>removeElement\<close> of \<open>clearGraph\<close>, once for each container: the parent of a listed
  element is the container it was listed from.
\<close>

definition removeTaskElement :: "tid \<Rightarrow> state \<Rightarrow> state" where
  "removeTaskElement e st = st\<lparr>itemsContainer := remove1 e (itemsContainer st)\<rparr>"

definition removeDependencyElement :: "did \<Rightarrow> state \<Rightarrow> state" where
  "removeDependencyElement e st = st\<lparr>arrows := remove1 e (arrows st)\<rparr>"

definition clearGraph :: "state \<Rightarrow> state" where
  "clearGraph st =
     (let st1 = fold removeTaskElement (getTasks st) st
      in fold removeDependencyElement (getDependencies st1) st1)"

definition getViewCenter :: "state \<Rightarrow> point" where
  "getViewCenter st =
     (let viewCenter = getBoxCenter (graphBox st)
      in \<lparr>p_x = p_x viewCenter - p_x (pan (panzoom st)),
          p_y = p_y viewCenter - p_y (pan (panzoom st))\<rparr>)"

definition computeCenteredPos :: "state \<Rightarrow> htmlTask \<Rightarrow> point" where
  "computeCenteredPos st element =
     (let viewCenter = getViewCenter st;
          width = offsetWidth element;
          height = offsetHeight element
      in \<lparr>p_x = p_x viewCenter - width / 2, p_y = p_y viewCenter - height / 2\<rparr>)"

text \<open>
  \<open>addTask\<close> returns the new element with the new state. The element gets the next unused
  address, and its rendered size once it is appended to \<open>itemsContainer\<close>.
\<close>

definition addTask :: "addTaskArg \<Rightarrow> state \<Rightarrow> tid \<times> state" where
  "addTask a st =
     (let htmlTask = nextId st;
          created = \<lparr>textContent = a_name a,
                     classList = (if a_status a = Some Completed
                                  then {''task'', ''completed''} else {''task''}),
                     style_left = 0, style_top = 0,
                     offsetWidth = fst (layout st (a_name a)),
                     offsetHeight = snd (layout st (a_name a)),
                     t_from = [], t_to = []\<rparr>;
          st1 = st\<lparr>taskObj := (taskObj st)(htmlTask := created),
                   nextId := Suc (nextId st),
                   itemsContainer := itemsContainer st @ [htmlTask]\<rparr>;
          p = (case a_pos a of Some q \<Rightarrow> q
               | None \<Rightarrow> computeCenteredPos st1 (taskObj st1 htmlTask));
          st2 = st1\<lparr>taskObj := (taskObj st1)
                   (htmlTask := (taskObj st1 htmlTask)\<lparr>style_left := p_x p, style_top := p_y p\<rparr>)\<rparr>
      in (htmlTask, st2))"

text \<open>
  The value that \<open>updatePath\<close> writes to the attribute \<open>d\<close> of a path. Without \<open>dest\<close> it
  reads the box of \<open>path.to\<close>, which throws when \<open>to\<close> is undefined.
\<close>

definition updatePath_d ::
  "intersectLineBox \<Rightarrow> did \<Rightarrow> point option \<Rightarrow> state \<Rightarrow> error + (point \<times> point) option" where
  "updatePath_d ilb path dest st =
     (let nodeABox = getOffsetBox (taskObj st (d_from (depObj st path)));
          centerA = getBoxCenter nodeABox;
          offset = 8
      in case dest of
           Some dst \<Rightarrow>
             (case ilb centerA dst (getExpandedBox nodeABox offset) of
                Some pathPointA \<Rightarrow> Inr (Some (pathPointA, dst))
              | None \<Rightarrow> Inr None)
         | None \<Rightarrow>
             (case d_to (depObj st path) of
                None \<Rightarrow> Inl TypeError
              | Some b \<Rightarrow>
                  (let nodeBBox = getOffsetBox (taskObj st b);
                       centerB = getBoxCenter nodeBBox
                   in case ilb centerA centerB (getExpandedBox nodeABox offset) of
                        None \<Rightarrow> Inr None
                      | Some pathPointA \<Rightarrow>
                          (case ilb centerA centerB (getExpandedBox nodeBBox offset) of
                             None \<Rightarrow> Inr None
                           | Some pathPointB \<Rightarrow> Inr (Some (pathPointA, pathPointB))))))"

definition updatePath :: "intersectLineBox \<Rightarrow> did \<Rightarrow> point option \<Rightarrow> state \<Rightarrow> error + state" where
  "updatePath ilb path dest st =
     (case updatePath_d ilb path dest st of
        Inl e \<Rightarrow> Inl e
      | Inr a \<Rightarrow> Inr (st\<lparr>depObj := (depObj st)(path := (depObj st path)\<lparr>d_attr := a\<rparr>)\<rparr>))"

text \<open>
  \<open>addDependency\<close>. The path element it creates first is modelled where it becomes
  reachable: when an endpoint is missing the function returns before the element is linked
  anywhere, and only the call of \<open>console.error\<close> remains.
\<close>

definition addDependency :: "intersectLineBox \<Rightarrow> dependency \<Rightarrow> state \<Rightarrow> error + state" where
  "addDependency ilb dep st =
     (let tasks = getTasks st
      in case find (\<lambda>t. textContent (taskObj st t) = predecessor dep) tasks of
           None \<Rightarrow>
             Inr (st\<lparr>console := console st
                       @ [(''Could not add dependency: predecessor not found'', dep)]\<rparr>)
         | Some pre \<Rightarrow>
             (case find (\<lambda>t. textContent (taskObj st t) = successor dep) tasks of
                None \<Rightarrow>
                  Inr (st\<lparr>console := console st
                            @ [(''Could not add dependency: successor not found.'', dep)]\<rparr>)
              | Some suc \<Rightarrow>
                  (let dependencyHtml = nextId st;
                       st1 = st\<lparr>depObj := (depObj st)
                                  (dependencyHtml := \<lparr>d_from = pre, d_to = Some suc, d_attr = None\<rparr>),
                                nextId := Suc (nextId st)\<rparr>;
                       st2 = st1\<lparr>taskObj := (taskObj st1)
                                  (pre := (taskObj st1 pre)
                                     \<lparr>t_from := t_from (taskObj st1 pre) @ [dependencyHtml]\<rparr>)\<rparr>;
                       st3 = st2\<lparr>taskObj := (taskObj st2)
                                  (suc := (taskObj st2 suc)
                                     \<lparr>t_to := t_to (taskObj st2 suc) @ [dependencyHtml]\<rparr>)\<rparr>;
                       st4 = st3\<lparr>arrows := arrows st3 @ [dependencyHtml]\<rparr>
                   in updatePath ilb dependencyHtml None st4)))"

definition deleteDependency :: "did \<Rightarrow> state \<Rightarrow> error + state" where
  "deleteDependency dep st =
     (let pre = d_from (depObj st dep);
          st1 = st\<lparr>taskObj := (taskObj st)
                     (pre := (taskObj st pre)
                        \<lparr>t_from := removeFromArray (t_from (taskObj st pre)) dep\<rparr>)\<rparr>
      in case d_to (depObj st1 dep) of
           None \<Rightarrow> Inl TypeError
         | Some suc \<Rightarrow>
             (let st2 = st1\<lparr>taskObj := (taskObj st1)
                              (suc := (taskObj st1 suc)
                                 \<lparr>t_to := removeFromArray (t_to (taskObj st1 suc)) dep\<rparr>)\<rparr>
              in case removeChild (arrows st2) dep of
                   Inl e \<Rightarrow> Inl e
                 | Inr children \<Rightarrow> Inr (st2\<lparr>arrows := children\<rparr>)))"

definition deleteTask :: "tid \<Rightarrow> state \<Rightarrow> error + state" where
  "deleteTask t st =
     (case forEachE deleteDependency (t_from (taskObj st t)) st of
        Inl e \<Rightarrow> Inl e
      | Inr st1 \<Rightarrow>
          (case forEachE deleteDependency (t_to (taskObj st1 t)) st1 of
             Inl e \<Rightarrow> Inl e
           | Inr st2 \<Rightarrow>
               (case removeChild (itemsContainer st2) t of
                  Inl e \<Rightarrow> Inl e
                | Inr children \<Rightarrow> Inr (st2\<lparr>itemsContainer := children\<rparr>))))"

section \<open>Selection\<close>

definition setClassList :: "tid \<Rightarrow> string set \<Rightarrow> state \<Rightarrow> state" where
  "setClassList t cs st = st\<lparr>taskObj := (taskObj st)(t := (taskObj st t)\<lparr>classList := cs\<rparr>)\<rparr>"

definition classList_add :: "string \<Rightarrow> tid \<Rightarrow> state \<Rightarrow> state" where
  "classList_add c t st = setClassList t (insert c (classList (taskObj st t))) st"

definition classList_remove :: "string \<Rightarrow> tid \<Rightarrow> state \<Rightarrow> state" where
  "classList_remove c t st = setClassList t (classList (taskObj st t) - {c}) st"

definition classList_toggle :: "string \<Rightarrow> tid \<Rightarrow> state \<Rightarrow> state" where
  "classList_toggle c t st =
     (if c \<in> classList (taskObj st t) then classList_remove c t st else classList_add c t st)"

definition getSelected :: "state \<Rightarrow> tid list" where
  "getSelected st = filter (\<lambda>e. ''selected'' \<in> classList (taskObj st e)) (getTasks st)"

text \<open>\<open>sendSelectionChanged\<close>: an array, also an empty one, is truthy and is passed through.\<close>

definition sendSelectionChanged :: "tid list option \<Rightarrow> state \<Rightarrow> state" where
  "sendSelectionChanged selection st =
     st\<lparr>dispatched := dispatched st
          @ [Selectionchanged (case selection of Some sel \<Rightarrow> sel | None \<Rightarrow> getSelected st)]\<rparr>"

definition resetSelected :: "state \<Rightarrow> state" where
  "resetSelected st = fold (classList_remove ''selected'') (getSelected st) st"

definition selectAll :: "state \<Rightarrow> state" where
  "selectAll st =
     (let tasks = getTasks st
      in sendSelectionChanged (Some tasks) (fold (classList_add ''selected'') tasks st))"

definition deleteSelected :: "state \<Rightarrow> error + state" where
  "deleteSelected st =
     (case forEachE deleteTask (getSelected st) st of
        Inl e \<Rightarrow> Inl e
      | Inr st1 \<Rightarrow> Inr (sendSelectionChanged (Some []) st1))"

definition completeSelected :: "state \<Rightarrow> state" where
  "completeSelected st = fold (classList_toggle ''completed'') (getSelected st) st"

text \<open>\<open>onTaskClicked\<close> reads only \<open>shiftKey\<close> of the event.\<close>

definition onTaskClicked :: "tid \<Rightarrow> bool \<Rightarrow> state \<Rightarrow> state" where
  "onTaskClicked t shift st =
     (if shift then sendSelectionChanged None (classList_toggle ''selected'' t st)
      else sendSelectionChanged (Some [t]) (classList_add ''selected'' t (resetSelected st)))"

section \<open>Serialisation\<close>

definition taskArg :: "task \<Rightarrow> addTaskArg" where
  "taskArg t = \<lparr>a_name = name t, a_status = Some (status t), a_pos = Some (pos t)\<rparr>"

definition loadGraph :: "intersectLineBox \<Rightarrow> graph \<Rightarrow> state \<Rightarrow> error + state" where
  "loadGraph ilb g st =
     (let st1 = clearGraph st;
          st2 = fold (\<lambda>t s. snd (addTask (taskArg t) s)) (tasks g) st1
      in forEachE (addDependency ilb) (dependencies g) st2)"

definition getGraph_task :: "state \<Rightarrow> tid \<Rightarrow> task" where
  "getGraph_task st e =
     (let bb = getOffsetBox (taskObj st e)
      in \<lparr>name = textContent (taskObj st e),
          status = (if ''completed'' \<in> classList (taskObj st e) then Completed else Todo),
          pos = \<lparr>p_x = b_left bb, p_y = b_top bb\<rparr>\<rparr>)"

text \<open>Reading \<open>e.to.textContent\<close> throws when \<open>to\<close> is undefined.\<close>

definition getGraph_dependency :: "state \<Rightarrow> did \<Rightarrow> error + dependency" where
  "getGraph_dependency st e =
     (case d_to (depObj st e) of
        None \<Rightarrow> Inl TypeError
      | Some suc \<Rightarrow>
          Inr \<lparr>predecessor = textContent (taskObj st (d_from (depObj st e))),
               successor = textContent (taskObj st suc)\<rparr>)"

definition getGraph :: "state \<Rightarrow> error + graph" where
  "getGraph st =
     (let tasksHtml = getTasks st;
          ts = map (getGraph_task st) tasksHtml;
          dependenciesHtml = getDependencies st
      in case mapE (getGraph_dependency st) dependenciesHtml of
           Inl e \<Rightarrow> Inl e
         | Inr ds \<Rightarrow> Inr \<lparr>tasks = ts, dependencies = ds\<rparr>)"

definition moveTask :: "intersectLineBox \<Rightarrow> tid \<Rightarrow> point \<Rightarrow> state \<Rightarrow> error + state" where
  "moveTask ilb t p st =
     (let st1 = st\<lparr>taskObj := (taskObj st)
                     (t := (taskObj st t)\<lparr>style_left := p_x p, style_top := p_y p\<rparr>)\<rparr>
      in forEachE (\<lambda>path. updatePath ilb path None)
           (t_from (taskObj st1 t) @ t_to (taskObj st1 t)) st1)"

section \<open>Pointer gestures\<close>

text \<open>
  What an event target or \<open>document.elementFromPoint\<close> can be: a task element, or any
  other element of the page.
\<close>

datatype element = TaskElement tid | OtherElement

text \<open>
  The fields of a \<open>PointerEvent\<close> that the handlers read. \<open>elementFromPoint\<close> is the
  result of \<open>document.elementFromPoint(event.pageX, event.pageY)\<close> when the event is
  handled; it depends on the rendering, which is outside the model.
\<close>

record pointerEvent =
  pointerId :: nat
  clientX :: real
  clientY :: real
  offsetX :: real
  offsetY :: real
  pageX :: real
  pageY :: real
  shiftKey :: bool
  target :: "element option"
  elementFromPoint :: "element option"

text \<open>
  The test \<open>!target || !target.classList.contains("task")\<close>: the element as a task, when
  it is an element of class \<open>task\<close>.
\<close>

definition asTask :: "state \<Rightarrow> element option \<Rightarrow> tid option" where
  "asTask st el =
     (case el of
        Some (TaskElement t) \<Rightarrow> if ''task'' \<in> classList (taskObj st t) then Some t else None
      | _ \<Rightarrow> None)"

text \<open>
  The listeners that a \<open>pointerdown\<close> registers on \<open>itemsContainer\<close> are closures; a
  gesture is such a pair of closures with the variables it captured:
  \<open>Pan previousPosition\<close>, \<open>Link task pointerId path moved\<close> and
  \<open>Drag task pointerId initialPosition offsetX offsetY moved\<close>.
\<close>

datatype gesture =
  Pan point
| Link tid nat did bool
| Drag tid nat point real real bool

datatype eventType = Pointermove | Pointerup | Pointercancel

definition onGraphDragStart :: "pointerEvent \<Rightarrow> gesture" where
  "onGraphDragStart ev = Pan \<lparr>p_x = clientX ev, p_y = clientY ev\<rparr>"

definition pan_onPointerMove :: "point \<Rightarrow> pointerEvent \<Rightarrow> state \<Rightarrow> gesture \<times> state" where
  "pan_onPointerMove previousPosition ev st =
     (let pz = panzoom st;
          newPan = \<lparr>p_x = p_x (pan pz) + (clientX ev - p_x previousPosition),
                    p_y = p_y (pan pz) + (clientY ev - p_y previousPosition)\<rparr>
      in (Pan \<lparr>p_x = clientX ev, p_y = clientY ev\<rparr>, st\<lparr>panzoom := pz\<lparr>pan := newPan\<rparr>\<rparr>))"

text \<open>The handler \<open>graphContainer.onpointerdown\<close> of \<open>initGraph\<close>.\<close>

definition onpointerdown :: "pointerEvent \<Rightarrow> state \<Rightarrow> gesture \<times> state" where
  "onpointerdown ev st =
     (case asTask st (target ev) of
        None \<Rightarrow> (onGraphDragStart ev, sendSelectionChanged (Some []) (resetSelected st))
      | Some t \<Rightarrow>
          (if shiftKey ev \<or> linkModeChecked st
           then (let path = nextId st
                 in (Link t (pointerId ev) path False,
                     st\<lparr>depObj := (depObj st)(path := \<lparr>d_from = t, d_to = None, d_attr = None\<rparr>),
                        nextId := Suc (nextId st),
                        arrows := arrows st @ [path]\<rparr>))
           else (Drag t (pointerId ev) \<lparr>p_x = clientX ev, p_y = clientY ev\<rparr>
                   (offsetX ev) (offsetY ev) False,
                 classList_add ''dragged'' t st)))"

text \<open>The two closures of the link branch.\<close>

definition link_onPointerMove ::
  "intersectLineBox \<Rightarrow> tid \<Rightarrow> nat \<Rightarrow> did \<Rightarrow> bool \<Rightarrow> pointerEvent \<Rightarrow> state
     \<Rightarrow> error + (gesture option \<times> state)" where
  "link_onPointerMove ilb t pid path moved ev st =
     (if pointerId ev \<noteq> pid then Inr (Some (Link t pid path moved), st)
      else case updatePath ilb path (Some \<lparr>p_x = offsetX ev, p_y = offsetY ev\<rparr>) st of
             Inl e \<Rightarrow> Inl e
           | Inr st1 \<Rightarrow> Inr (Some (Link t pid path True), st1))"

definition link_onPointerEnd ::
  "intersectLineBox \<Rightarrow> tid \<Rightarrow> nat \<Rightarrow> did \<Rightarrow> bool \<Rightarrow> pointerEvent \<Rightarrow> state
     \<Rightarrow> error + (gesture option \<times> state)" where
  "link_onPointerEnd ilb t pid path moved ev st =
     (if pointerId ev \<noteq> pid then Inr (Some (Link t pid path moved), st)
      else
        (let st1 = (if \<not> moved then onTaskClicked t (shiftKey ev) st else st)
         in case asTask st1 (elementFromPoint ev) of
              None \<Rightarrow>
                (case removeChild (arrows st1) path of
                   Inl e \<Rightarrow> Inl e
                 | Inr children \<Rightarrow> Inr (None, st1\<lparr>arrows := children\<rparr>))
            | Some targetTask \<Rightarrow>
                (let st2 = st1\<lparr>depObj := (depObj st1)
                                 (path := (depObj st1 path)\<lparr>d_to := Some targetTask\<rparr>)\<rparr>;
                     st3 = st2\<lparr>taskObj := (taskObj st2)
                                 (t := (taskObj st2 t)\<lparr>t_from := t_from (taskObj st2 t) @ [path]\<rparr>)\<rparr>;
                     st4 = st3\<lparr>taskObj := (taskObj st3)
                                 (targetTask := (taskObj st3 targetTask)
                                    \<lparr>t_to := t_to (taskObj st3 targetTask) @ [path]\<rparr>)\<rparr>
                 in case updatePath ilb path None st4 of
                      Inl e \<Rightarrow> Inl e
                    | Inr st5 \<Rightarrow>
                        Inr (None, st5\<lparr>dispatched := dispatched st5 @ [Newdependency]\<rparr>))))"

text \<open>The two closures of the drag branch.\<close>

definition drag_onPointerMove ::
  "intersectLineBox \<Rightarrow> tid \<Rightarrow> nat \<Rightarrow> point \<Rightarrow> real \<Rightarrow> real \<Rightarrow> bool \<Rightarrow> pointerEvent \<Rightarrow> state
     \<Rightarrow> error + (gesture option \<times> state)" where
  "drag_onPointerMove ilb t pid initialPosition offX offY moved ev st =
     (if pointerId ev \<noteq> pid then Inr (Some (Drag t pid initialPosition offX offY moved), st)
      else
        (let currentPosition = \<lparr>p_x = clientX ev, p_y = clientY ev\<rparr>;
             movedThreshold = 5;
             squaredMovedThreshold = movedThreshold * movedThreshold;
             moved1 = (if squaredDistance initialPosition currentPosition > squaredMovedThreshold
                       then True else moved)
         in case moveTask ilb t \<lparr>p_x = offsetX ev - offX, p_y = offsetY ev - offY\<rparr> st of
              Inl e \<Rightarrow> Inl e
            | Inr st1 \<Rightarrow> Inr (Some (Drag t pid initialPosition offX offY moved1), st1)))"

definition drag_onPointerEnd ::
  "tid \<Rightarrow> nat \<Rightarrow> point \<Rightarrow> real \<Rightarrow> real \<Rightarrow> bool \<Rightarrow> pointerEvent \<Rightarrow> state
     \<Rightarrow> error + (gesture option \<times> state)" where
  "drag_onPointerEnd t pid initialPosition offX offY moved ev st =
     (if pointerId ev \<noteq> pid then Inr (Some (Drag t pid initialPosition offX offY moved), st)
      else
        (let st1 = classList_remove ''dragged'' t st
         in if moved then Inr (None, st1\<lparr>dispatched := dispatched st1 @ [Taskmoved t]\<rparr>)
            else Inr (None, onTaskClicked t (shiftKey ev) st1)))"

text \<open>
  One pointer event delivered to the listeners of a gesture. The result is the gesture that
  still listens afterwards (\<open>None\<close> once the listeners are removed) and the new state. A
  pan gesture registers no listener for \<open>pointercancel\<close>.
\<close>

definition handleEvent ::
  "intersectLineBox \<Rightarrow> eventType \<Rightarrow> pointerEvent \<Rightarrow> gesture \<Rightarrow> state
     \<Rightarrow> error + (gesture option \<times> state)" where
  "handleEvent ilb ty ev g st =
     (case g of
        Pan previousPosition \<Rightarrow>
          (case ty of
             Pointermove \<Rightarrow>
               (let (g1, st1) = pan_onPointerMove previousPosition ev st in Inr (Some g1, st1))
           | Pointerup \<Rightarrow> Inr (None, st)
           | Pointercancel \<Rightarrow> Inr (Some g, st))
      | Link t pid path moved \<Rightarrow>
          (case ty of
             Pointermove \<Rightarrow> link_onPointerMove ilb t pid path moved ev st
           | _ \<Rightarrow> link_onPointerEnd ilb t pid path moved ev st)
      | Drag t pid initialPosition offX offY moved \<Rightarrow>
          (case ty of
             Pointermove \<Rightarrow> drag_onPointerMove ilb t pid initialPosition offX offY moved ev st
           | _ \<Rightarrow> drag_onPointerEnd t pid initialPosition offX offY moved ev st))"

text \<open>A stream of pointer events; without listeners an event changes nothing.\<close>

fun handleEvents ::
  "intersectLineBox \<Rightarrow> (eventType \<times> pointerEvent) list \<Rightarrow> gesture option \<Rightarrow> state
     \<Rightarrow> error + (gesture option \<times> state)" where
  "handleEvents ilb [] g st = Inr (g, st)"
| "handleEvents ilb (e # es) None st = handleEvents ilb es None st"
| "handleEvents ilb (e # es) (Some g) st =
     (case handleEvent ilb (fst e) (snd e) g st of
        Inl err \<Rightarrow> Inl err
      | Inr (g1, st1) \<Rightarrow> handleEvents ilb es g1 st1)"

text \<open>
  A whole gesture: a \<open>pointerdown\<close> in a state, then the events that follow it.
\<close>

definition gesture ::
  "intersectLineBox \<Rightarrow> pointerEvent \<Rightarrow> (eventType \<times> pointerEvent) list \<Rightarrow> state
     \<Rightarrow> error + (gesture option \<times> state)" where
  "gesture ilb down es st =
     (let (g, st1) = onpointerdown down st in handleEvents ilb es (Some g) st1)"

section \<open>The page as loaded, and the invariants of the model\<close>

text \<open>
  The page before any operation: no task, no dependency, \<open>panzoom\<close> as its initialiser in
  the source gives it.
\<close>

definition initialState :: "box \<Rightarrow> (string \<Rightarrow> real \<times> real) \<Rightarrow> state" where
  "initialState gb lay =
     \<lparr>taskObj = (\<lambda>_. \<lparr>textContent = [], classList = {}, style_left = 0, style_top = 0,
                      offsetWidth = 0, offsetHeight = 0, t_from = [], t_to = []\<rparr>),
      depObj = (\<lambda>_. \<lparr>d_from = 0, d_to = None, d_attr = None\<rparr>),
      nextId = 0,
      itemsContainer = [],
      arrows = [],
      panzoom = \<lparr>pan = \<lparr>p_x = 0, p_y = 0\<rparr>, zoom = 1\<rparr>,
      graphBox = gb,
      layout = lay,
      dispatched = [],
      console = [],
      linkModeChecked = False\<rparr>"

text \<open>
  Referential integrity of the live model: the children of a container are distinct, every
  dependency under \<open>arrows\<close> has both endpoints among the tasks under \<open>itemsContainer\<close>, and
  the array \<open>from\<close> (\<open>to\<close>) of a task holds, once each, exactly the dependencies under
  \<open>arrows\<close> of which the task is the predecessor (the successor).
\<close>

definition wf :: "state \<Rightarrow> bool" where
  "wf st \<longleftrightarrow>
     distinct (itemsContainer st) \<and> distinct (arrows st) \<and>
     (\<forall>d \<in> set (arrows st).
        d_from (depObj st d) \<in> set (itemsContainer st) \<and>
        (\<exists>b \<in> set (itemsContainer st). d_to (depObj st d) = Some b)) \<and>
     (\<forall>t \<in> set (itemsContainer st).
        distinct (t_from (taskObj st t)) \<and>
        set (t_from (taskObj st t)) = set (filter (\<lambda>d. d_from (depObj st d) = t) (arrows st)) \<and>
        distinct (t_to (taskObj st t)) \<and>
        set (t_to (taskObj st t)) = set (filter (\<lambda>d. d_to (depObj st d) = Some t) (arrows st)))"

text \<open>Every element in a container has an address below the next unused one.\<close>

definition allocated :: "state \<Rightarrow> bool" where
  "allocated st \<longleftrightarrow>
     (\<forall>t \<in> set (itemsContainer st). t < nextId st) \<and> (\<forall>d \<in> set (arrows st). d < nextId st)"

text \<open>Every dependency in the arrays of a task has its property \<open>to\<close> defined.\<close>

definition incidentLinked :: "state \<Rightarrow> tid \<Rightarrow> bool" where
  "incidentLinked st t \<longleftrightarrow>
     (\<forall>p \<in> set (t_from (taskObj st t) @ t_to (taskObj st t)). d_to (depObj st p) \<noteq> None)"

text \<open>
  The transform that \<open>updatePanzoom\<close> writes to the item layer,
  \<open>translate(pan.x px, pan.y px) scale(zoom)\<close>, as a function on points: relative to the
  transform origin a point is scaled by \<open>zoom\<close> and then translated by \<open>pan\<close>. The origin
  is set by the style sheet, which is not among the sources, and is a parameter.
\<close>

definition updatePanzoom_transform :: "point \<Rightarrow> panzoomT \<Rightarrow> point \<Rightarrow> point" where
  "updatePanzoom_transform origin pz p =
     \<lparr>p_x = p_x origin + p_x (pan pz) + zoom pz * (p_x p - p_x origin),
      p_y = p_y origin + p_y (pan pz) + zoom pz * (p_y p - p_y origin)\<rparr>"

text \<open>The position of a task element, as \<open>getGraph\<close> reads it.\<close>

definition taskPos :: "htmlTask \<Rightarrow> point" where
  "taskPos e = \<lparr>p_x = b_left (getOffsetBox e), p_y = b_top (getOffsetBox e)\<rparr>"

section \<open>Notions used to state the properties\<close>

text \<open>The task that a name resolves to: \<open>tasks.find\<close> of \<open>addDependency\<close>.\<close>

definition findTask :: "state \<Rightarrow> string \<Rightarrow> tid option" where
  "findTask st nm = find (\<lambda>t. textContent (taskObj st t) = nm) (getTasks st)"

text \<open>A state after one more call of \<open>console.error\<close> and nothing else.\<close>

definition loggedError :: "string \<Rightarrow> dependency \<Rightarrow> state \<Rightarrow> state" where
  "loggedError msg dep st = st\<lparr>console := console st @ [(msg, dep)]\<rparr>"

definition notFoundMessage :: "state \<Rightarrow> dependency \<Rightarrow> string" where
  "notFoundMessage st dep =
     (if findTask st (predecessor dep) = None
      then ''Could not add dependency: predecessor not found''
      else ''Could not add dependency: successor not found.'')"

text \<open>Loading a document and serialising the page again.\<close>

definition roundTrip :: "intersectLineBox \<Rightarrow> graph \<Rightarrow> state \<Rightarrow> error + graph" where
  "roundTrip ilb d st = (case loadGraph ilb d st of Inl e \<Rightarrow> Inl e | Inr st' \<Rightarrow> getGraph st')"

text \<open>The task records that \<open>getGraph\<close> produces.\<close>

definition docTasks :: "state \<Rightarrow> task list" where
  "docTasks st = map (getGraph_task st) (getTasks st)"

text \<open>
  Some move event of the pointer \<open>pid\<close> is farther from the initial position than the
  threshold of the drag branch: the squared distance exceeds 25.
\<close>

definition exceededThreshold :: "point \<Rightarrow> nat \<Rightarrow> pointerEvent list \<Rightarrow> bool" where
  "exceededThreshold initialPosition pid moves \<longleftrightarrow>
     (\<exists>m \<in> set moves. pointerId m = pid
        \<and> squaredDistance initialPosition \<lparr>p_x = clientX m, p_y = clientY m\<rparr> > 25)"

section \<open>Example pages and events\<close>

text \<open>The page as loaded, with a viewport of 800 by 600 and a layout that renders every task
  100 wide and 40 high.\<close>

definition page0 :: state where
  "page0 = initialState \<lparr>b_left = 0, b_top = 0, b_right = 800, b_bottom = 600\<rparr> (\<lambda>_. (100, 40))"

text \<open>An \<open>intersectLineBox\<close> that never finds a crossing, for the examples.\<close>

definition ilb0 :: intersectLineBox where
  "ilb0 a b bx = None"

text \<open>A document with three tasks and four dependencies, one of them from a task to itself.\<close>

definition exampleDoc :: graph where
  "exampleDoc =
     \<lparr>tasks = [\<lparr>name = ''A'', status = Todo, pos = \<lparr>p_x = 10, p_y = 20\<rparr>\<rparr>,
               \<lparr>name = ''B'', status = Completed, pos = \<lparr>p_x = 200, p_y = 20\<rparr>\<rparr>,
               \<lparr>name = ''C'', status = Todo, pos = \<lparr>p_x = 400, p_y = 20\<rparr>\<rparr>],
      dependencies = [\<lparr>predecessor = ''A'', successor = ''B''\<rparr>,
                      \<lparr>predecessor = ''B'', successor = ''A''\<rparr>,
                      \<lparr>predecessor = ''A'', successor = ''A''\<rparr>,
                      \<lparr>predecessor = ''B'', successor = ''C''\<rparr>]\<rparr>"

text \<open>The page after \<open>loadGraph\<close> has added the tasks of the example document.\<close>

definition exampleTasksPage :: state where
  "exampleTasksPage = fold (\<lambda>t s. snd (addTask (taskArg t) s)) (tasks exampleDoc) page0"

text \<open>The page after \<open>loadGraph\<close> has added its dependencies too: the tasks are the elements
  0, 1 and 2, the dependencies the elements 3 to 6.\<close>

definition examplePage :: state where
  "examplePage = (case forEachE (addDependency ilb0) (dependencies exampleDoc) exampleTasksPage of
                    Inr s \<Rightarrow> s | Inl e \<Rightarrow> page0)"

text \<open>
  A \<open>pointerdown\<close> of pointer 1 on task A of the example page, whose box has its corner at
  (10, 20): the press point is \<open>ox\<close> to the right of the corner and \<open>oy\<close> below it. The page
  is not scrolled, so client and page coordinates agree.
\<close>

definition pressA :: "real \<Rightarrow> real \<Rightarrow> bool \<Rightarrow> pointerEvent" where
  "pressA ox oy shift =
     \<lparr>pointerId = 1, clientX = 10 + ox, clientY = 20 + oy, offsetX = ox, offsetY = oy,
      pageX = 10 + ox, pageY = 20 + oy,
      shiftKey = shift, target = Some (TaskElement 0), elementFromPoint = Some (TaskElement 0)\<rparr>"

text \<open>A later event of pointer 1, delivered to the capturing layer, whose offset coordinates
  are those of the page; \<open>el\<close> is the element under the pointer.\<close>

definition pointerAt :: "real \<Rightarrow> real \<Rightarrow> bool \<Rightarrow> element option \<Rightarrow> pointerEvent" where
  "pointerAt px py shift el =
     \<lparr>pointerId = 1, clientX = px, clientY = py, offsetX = px, offsetY = py, pageX = px, pageY = py,
      shiftKey = shift, target = Some OtherElement, elementFromPoint = el\<rparr>"

text \<open>A document whose dependency names a task that is not in it.\<close>

definition danglingDoc :: graph where
  "danglingDoc = \<lparr>tasks = [\<lparr>name = ''A'', status = Todo, pos = \<lparr>p_x = 10, p_y = 20\<rparr>\<rparr>],
                  dependencies = [\<lparr>predecessor = ''A'', successor = ''Z''\<rparr>]\<rparr>"

text \<open>A dependency whose successor names no task of the example page.\<close>

definition unknownSuccessor :: dependency where
  "unknownSuccessor = \<lparr>predecessor = ''A'', successor = ''Z''\<rparr>"

text \<open>A new task without a position.\<close>

definition unplaced :: addTaskArg where
  "unplaced = \<lparr>a_name = ''N'', a_status = None, a_pos = None\<rparr>"

text \<open>A new task with a position.\<close>

definition placed :: addTaskArg where
  "placed = \<lparr>a_name = ''P'', a_status = None, a_pos = Some \<lparr>p_x = 7, p_y = 8\<rparr>\<rparr>"

text \<open>A press on the empty canvas.\<close>

definition panPress :: pointerEvent where
  "panPress = pointerAt 0 0 False (Some OtherElement)"

text \<open>The empty page after one wheel step that zooms in and a pan of 10 units to the right.\<close>

definition zoomedPanned :: state where
  "zoomedPanned =
     (case gesture ilb0 panPress
             [(Pointermove, pointerAt 10 0 False (Some OtherElement)),
              (Pointerup, pointerAt 10 0 False (Some OtherElement))]
             (onwheel (- 1) page0)
      of Inr (g, s) \<Rightarrow> s | Inl e \<Rightarrow> page0)"

text \<open>The example page while task A is dragged, after one move of 3 units.\<close>

definition dragNearState :: state where
  "dragNearState =
     (case gesture ilb0 (pressA 5 5 False) [(Pointermove, pointerAt 18 25 False (Some (TaskElement 0)))]
             examplePage
      of Inr (g, s) \<Rightarrow> s | Inl e \<Rightarrow> examplePage)"

text \<open>
  The example page after a link gesture that starts on task A, 1 unit inside its left
  edge, moves 3 units to the left and ends there, over the empty canvas.
\<close>

definition linkNearState :: state where
  "linkNearState =
     (case gesture ilb0 (pressA 1 5 True)
             [(Pointermove, pointerAt 8 25 True (Some OtherElement)),
              (Pointerup, pointerAt 8 25 True (Some OtherElement))]
             examplePage
      of Inr (g, s) \<Rightarrow> s | Inl e \<Rightarrow> examplePage)"

text \<open>The example page after a link gesture that starts on task A, moves, and ends over
  task A itself.\<close>

definition linkSelfState :: state where
  "linkSelfState =
     (case gesture ilb0 (pressA 5 5 True)
             [(Pointermove, pointerAt 40 30 True (Some (TaskElement 0))),
              (Pointerup, pointerAt 40 30 True (Some (TaskElement 0)))]
             examplePage
      of Inr (g, s) \<Rightarrow> s | Inl e \<Rightarrow> examplePage)"

text \<open>The example page after a plain click on task B, which selects it.\<close>

definition selectedBPage :: state where
  "selectedBPage = onTaskClicked (Suc 0) False examplePage"

text \<open>The example page after a link gesture that starts on task A and ends at the same
  point, over task A, with no move event in between.\<close>

definition linkClickState :: state where
  "linkClickState =
     (case gesture ilb0 (pressA 5 5 True) [(Pointerup, pointerAt 15 25 True (Some (TaskElement 0)))]
             examplePage
      of Inr (g, s) \<Rightarrow> s | Inl e \<Rightarrow> examplePage)"

section \<open>Zoom snapping\<close>

text \<open>
  Claim C8. Applying a zoom factor multiplies the current zoom by the factor and snaps the
  product: when the product is closer to 1 than the tolerance 0.1 the zoom becomes exactly
  1, otherwise it is the product. In particular 1.0 times 1.02 snaps to exactly 1, and 1.3
  times 0.9, which is 1.17, does not snap. The wheel handler applies exactly this
  operation with the factor 1.1 or 0.9.
\<close>

theorem applyZoomFactor_snaps:
  "applyZoomFactor z f = (if \<bar>z * f - 1\<bar> < 0.1 then 1 else z * f)
   \<and> applyZoomFactor 1.0 1.02 = 1
   \<and> applyZoomFactor 1.3 0.9 = 1.17
   \<and> zoom (panzoom (onwheel dy st)) = applyZoomFactor (zoom (panzoom st)) (wheelFactor dy)"
  by (auto simp: applyZoomFactor_def snap_def onwheel_def abs_if)

section \<open>Completing the selection\<close>

lemma classList_toggle_fields:
  "itemsContainer (classList_toggle c t st) = itemsContainer st"
  "arrows (classList_toggle c t st) = arrows st"
  "depObj (classList_toggle c t st) = depObj st"
  "dispatched (classList_toggle c t st) = dispatched st"
  "console (classList_toggle c t st) = console st"
  "panzoom (classList_toggle c t st) = panzoom st"
  "nextId (classList_toggle c t st) = nextId st"
  by (simp_all add: classList_toggle_def classList_add_def classList_remove_def setClassList_def)

lemma classList_toggle_taskObj:
  "taskObj (classList_toggle c t st) u =
     (if u = t then (taskObj st t)\<lparr>classList :=
          (if c \<in> classList (taskObj st t) then classList (taskObj st t) - {c}
           else insert c (classList (taskObj st t)))\<rparr>
      else taskObj st u)"
  by (simp add: classList_toggle_def classList_add_def classList_remove_def setClassList_def)

lemma fold_toggle_fields:
  "itemsContainer (fold (classList_toggle c) ts st) = itemsContainer st
   \<and> arrows (fold (classList_toggle c) ts st) = arrows st
   \<and> depObj (fold (classList_toggle c) ts st) = depObj st
   \<and> dispatched (fold (classList_toggle c) ts st) = dispatched st"
  by (induction ts arbitrary: st) (simp_all add: classList_toggle_fields)

lemma fold_toggle_taskObj:
  "distinct ts \<Longrightarrow>
   taskObj (fold (classList_toggle c) ts st) u =
     (if u \<in> set ts then (taskObj st u)\<lparr>classList :=
          (if c \<in> classList (taskObj st u) then classList (taskObj st u) - {c}
           else insert c (classList (taskObj st u)))\<rparr>
      else taskObj st u)"
proof (induction ts arbitrary: st)
  case Nil
  then show ?case by simp
next
  case (Cons a ts)
  then show ?case by (simp add: classList_toggle_taskObj)
qed

lemma getSelected_distinct: "distinct (itemsContainer st) \<Longrightarrow> distinct (getSelected st)"
  by (simp add: getSelected_def getTasks_def)

text \<open>
  Claim C10. \<open>completeSelected\<close> toggles the class \<open>completed\<close> of every selected task: a
  selected task that is todo becomes completed and one that is completed becomes todo.
  Tasks that are not selected, the selection, the dependencies and the log of dispatched
  events are unchanged (no \<open>selectionchanged\<close> is emitted). The children of
  \<open>itemsContainer\<close> are distinct, as the children of a DOM node are.
\<close>

theorem completeSelected_toggles:
  assumes "distinct (itemsContainer st)"
  shows "(\<forall>t \<in> set (getSelected st).
            taskObj (completeSelected st) t = (taskObj st t)\<lparr>classList :=
               (if ''completed'' \<in> classList (taskObj st t)
                then classList (taskObj st t) - {''completed''}
                else insert ''completed'' (classList (taskObj st t)))\<rparr>
            \<and> status (getGraph_task (completeSelected st) t)
                = (if status (getGraph_task st t) = Todo then Completed else Todo))
         \<and> (\<forall>t. t \<notin> set (getSelected st) \<longrightarrow> taskObj (completeSelected st) t = taskObj st t)
         \<and> getSelected (completeSelected st) = getSelected st
         \<and> getTasks (completeSelected st) = getTasks st
         \<and> arrows (completeSelected st) = arrows st
         \<and> depObj (completeSelected st) = depObj st
         \<and> dispatched (completeSelected st) = dispatched st"
proof -
  let ?st' = "completeSelected st"
  have d: "distinct (getSelected st)" using assms by (rule getSelected_distinct)
  have obj: "\<And>u. taskObj ?st' u =
     (if u \<in> set (getSelected st) then (taskObj st u)\<lparr>classList :=
          (if ''completed'' \<in> classList (taskObj st u) then classList (taskObj st u) - {''completed''}
           else insert ''completed'' (classList (taskObj st u)))\<rparr>
      else taskObj st u)"
    unfolding completeSelected_def using d by (rule fold_toggle_taskObj)
  have fields: "itemsContainer ?st' = itemsContainer st" "arrows ?st' = arrows st"
    "depObj ?st' = depObj st" "dispatched ?st' = dispatched st"
    unfolding completeSelected_def by (simp_all add: fold_toggle_fields)
  have cls: "\<And>u c. c \<noteq> ''completed'' \<Longrightarrow> (c \<in> classList (taskObj ?st' u)) = (c \<in> classList (taskObj st u))"
    by (simp add: obj)
  have tasks: "getTasks ?st' = getTasks st"
    unfolding getTasks_def by (simp add: fields cls)
  have sel: "getSelected ?st' = getSelected st"
    unfolding getSelected_def by (simp add: tasks cls)
  show ?thesis
    by (simp add: obj fields tasks sel getGraph_task_def Let_def)
qed


section \<open>A dependency whose endpoint is missing\<close>

text \<open>
  Claim C7. When the predecessor name or the successor name of a dependency resolves to no
  task, \<open>addDependency\<close> returns normally (no exception), the only change of the state is
  one more entry in the log of \<open>console.error\<close> (no array \<open>from\<close> or \<open>to\<close> and no child of
  \<open>arrows\<close> is touched), and a loop over a list of dependencies, as in \<open>loadGraph\<close>, goes
  on with the remaining entries from that state.
\<close>

theorem addDependency_endpoint_not_found:
  assumes "findTask st (predecessor dep) = None \<or> findTask st (successor dep) = None"
  shows "addDependency ilb dep st = Inr (loggedError (notFoundMessage st dep) dep st)
         \<and> forEachE (addDependency ilb) (dep # deps) st
               = forEachE (addDependency ilb) deps (loggedError (notFoundMessage st dep) dep st)"
proof -
  have "addDependency ilb dep st = Inr (loggedError (notFoundMessage st dep) dep st)"
  proof (cases "findTask st (predecessor dep)")
    case None
    then show ?thesis
      by (simp add: addDependency_def findTask_def loggedError_def notFoundMessage_def)
  next
    case (Some pre)
    with assms have "findTask st (successor dep) = None" by simp
    with Some show ?thesis
      by (simp add: addDependency_def findTask_def loggedError_def notFoundMessage_def)
  qed
  then show ?thesis by simp
qed

section \<open>The position of a new task\<close>

text \<open>
  Claim C9, as amended. A task added with an explicit position gets exactly that position.
  A task added without one is placed so that the centre of its box is the centre of the
  box of \<open>graphContainer\<close> minus the pan; the zoom is not used. That point is the one the
  pan and zoom transform maps to the centre of the viewport when the zoom is 1.
\<close>

theorem addTask_position:
  "(a_pos a = Some p \<longrightarrow> taskPos (taskObj (snd (addTask a st)) (fst (addTask a st))) = p)
   \<and> (a_pos a = None \<longrightarrow>
        getBoxCenter (getOffsetBox (taskObj (snd (addTask a st)) (fst (addTask a st))))
          = \<lparr>p_x = p_x (getBoxCenter (graphBox st)) - p_x (pan (panzoom st)),
             p_y = p_y (getBoxCenter (graphBox st)) - p_y (pan (panzoom st))\<rparr>
        \<and> (zoom (panzoom st) = 1 \<longrightarrow>
             updatePanzoom_transform origin (panzoom st)
               (getBoxCenter (getOffsetBox (taskObj (snd (addTask a st)) (fst (addTask a st)))))
             = getBoxCenter (graphBox st)))"
  by (simp add: addTask_def Let_def taskPos_def getOffsetBox_def getBoxCenter_def
      computeCenteredPos_def getViewCenter_def updatePanzoom_transform_def field_simps)

section \<open>Deleting a task\<close>

lemma removeFromArray_distinct:
  "distinct xs \<Longrightarrow> x \<in> set xs \<Longrightarrow> removeFromArray xs x = filter (\<lambda>e. e \<noteq> x) xs"
  by (simp add: removeFromArray_def distinct_remove1_removeAll removeAll_filter_not_eq) metis

lemma filter_neq_absent: "x \<notin> set xs \<Longrightarrow> filter (\<lambda>e. e \<noteq> x) xs = xs"
  by (induction xs) auto

text \<open>What one deleteDependency does to the fields, when it does not throw.\<close>

lemma deleteDependency_fields:
  assumes "d_to (depObj st d) = Some b" and "d \<in> set (arrows st)"
  shows "\<exists>st'. deleteDependency d st = Inr st'
           \<and> arrows st' = remove1 d (arrows st)
           \<and> itemsContainer st' = itemsContainer st
           \<and> depObj st' = depObj st
           \<and> (\<forall>u. t_from (taskObj st' u) =
                 (if u = d_from (depObj st d) then removeFromArray (t_from (taskObj st u)) d
                  else t_from (taskObj st u)))
           \<and> (\<forall>u. t_to (taskObj st' u) =
                 (if u = b then removeFromArray (t_to (taskObj st u)) d
                  else t_to (taskObj st u)))"
  using assms by (simp add: deleteDependency_def Let_def removeChild_def)

lemma deleteDependency_wf:
  assumes "wf st" and "d \<in> set (arrows st)"
  shows "\<exists>st'. deleteDependency d st = Inr st' \<and> wf st'
           \<and> arrows st' = filter (\<lambda>e. e \<noteq> d) (arrows st)
           \<and> itemsContainer st' = itemsContainer st
           \<and> depObj st' = depObj st
           \<and> (\<forall>u \<in> set (itemsContainer st).
                 t_from (taskObj st' u) = filter (\<lambda>e. e \<noteq> d) (t_from (taskObj st u))
               \<and> t_to (taskObj st' u) = filter (\<lambda>e. e \<noteq> d) (t_to (taskObj st u)))"
proof -
  let ?a = "d_from (depObj st d)"
  from assms have a_live: "?a \<in> set (itemsContainer st)" by (simp add: wf_def)
  from assms obtain b where b: "d_to (depObj st d) = Some b" and b_live: "b \<in> set (itemsContainer st)"
    by (auto simp: wf_def)
  from deleteDependency_fields [OF b assms(2)] obtain st' where
    res: "deleteDependency d st = Inr st'"
    and arr: "arrows st' = remove1 d (arrows st)"
    and items: "itemsContainer st' = itemsContainer st"
    and deps: "depObj st' = depObj st"
    and frm: "\<And>u. t_from (taskObj st' u) =
                 (if u = ?a then removeFromArray (t_from (taskObj st u)) d
                  else t_from (taskObj st u))"
    and tto: "\<And>u. t_to (taskObj st' u) =
                 (if u = b then removeFromArray (t_to (taskObj st u)) d
                  else t_to (taskObj st u))"
    by blast
  have dist: "distinct (arrows st)" using assms(1) by (simp add: wf_def)
  have arr': "arrows st' = filter (\<lambda>e. e \<noteq> d) (arrows st)"
    using dist by (simp add: arr distinct_remove1_removeAll removeAll_filter_not_eq) metis
  have frm': "t_from (taskObj st' u) = filter (\<lambda>e. e \<noteq> d) (t_from (taskObj st u))"
    if u: "u \<in> set (itemsContainer st)" for u
  proof (cases "u = ?a")
    case True
    have "distinct (t_from (taskObj st u))" and "d \<in> set (t_from (taskObj st u))"
      using assms u True by (auto simp: wf_def)
    then show ?thesis using True by (simp add: frm removeFromArray_distinct)
  next
    case False
    have "d \<notin> set (t_from (taskObj st u))" using assms u False by (auto simp: wf_def)
    then show ?thesis using False by (simp add: frm filter_neq_absent)
  qed
  have tto': "t_to (taskObj st' u) = filter (\<lambda>e. e \<noteq> d) (t_to (taskObj st u))"
    if u: "u \<in> set (itemsContainer st)" for u
  proof (cases "u = b")
    case True
    have "distinct (t_to (taskObj st u))" and "d \<in> set (t_to (taskObj st u))"
      using assms u True b by (auto simp: wf_def)
    then show ?thesis using True by (simp add: tto removeFromArray_distinct)
  next
    case False
    have "d \<notin> set (t_to (taskObj st u))" using assms u False b by (auto simp: wf_def)
    then show ?thesis using False by (simp add: tto filter_neq_absent)
  qed
  have "wf st'"
    using assms(1) unfolding wf_def
    by (simp add: arr' items deps frm' tto') blast
  with res arr' items deps frm' tto' show ?thesis by blast
qed

lemma forEachE_deleteDependency_wf:
  "wf st \<Longrightarrow> distinct ds \<Longrightarrow> set ds \<subseteq> set (arrows st) \<Longrightarrow>
   \<exists>st'. forEachE deleteDependency ds st = Inr st' \<and> wf st'
           \<and> arrows st' = filter (\<lambda>e. e \<notin> set ds) (arrows st)
           \<and> itemsContainer st' = itemsContainer st
           \<and> depObj st' = depObj st
           \<and> (\<forall>u \<in> set (itemsContainer st).
                 t_from (taskObj st' u) = filter (\<lambda>e. e \<notin> set ds) (t_from (taskObj st u))
               \<and> t_to (taskObj st' u) = filter (\<lambda>e. e \<notin> set ds) (t_to (taskObj st u)))"
proof (induction ds arbitrary: st)
  case Nil
  then show ?case by simp
next
  case (Cons d ds)
  from Cons.prems have d_in: "d \<in> set (arrows st)" by simp
  from deleteDependency_wf [OF Cons.prems(1) d_in] obtain st1 where
    r1: "deleteDependency d st = Inr st1" and wf1: "wf st1"
    and arr1: "arrows st1 = filter (\<lambda>e. e \<noteq> d) (arrows st)"
    and items1: "itemsContainer st1 = itemsContainer st"
    and deps1: "depObj st1 = depObj st"
    and adj1: "\<forall>u \<in> set (itemsContainer st).
                 t_from (taskObj st1 u) = filter (\<lambda>e. e \<noteq> d) (t_from (taskObj st u))
               \<and> t_to (taskObj st1 u) = filter (\<lambda>e. e \<noteq> d) (t_to (taskObj st u))"
    by blast
  from Cons.prems have "distinct ds" and sub: "set ds \<subseteq> set (arrows st1)"
    by (auto simp: arr1)
  from Cons.IH [OF wf1 this] obtain st' where
    r2: "forEachE deleteDependency ds st1 = Inr st'" and wf2: "wf st'"
    and arr2: "arrows st' = filter (\<lambda>e. e \<notin> set ds) (arrows st1)"
    and items2: "itemsContainer st' = itemsContainer st1"
    and deps2: "depObj st' = depObj st1"
    and adj2: "\<forall>u \<in> set (itemsContainer st1).
                 t_from (taskObj st' u) = filter (\<lambda>e. e \<notin> set ds) (t_from (taskObj st1 u))
               \<and> t_to (taskObj st' u) = filter (\<lambda>e. e \<notin> set ds) (t_to (taskObj st1 u))"
    by blast
  have conj_eq: "\<And>xs. filter (\<lambda>e. e \<notin> set ds) (filter (\<lambda>e. e \<noteq> d) xs)
                    = filter (\<lambda>e. e \<notin> set (d # ds)) xs"
    by (auto intro: filter_cong)
  have "forEachE deleteDependency (d # ds) st = Inr st'" by (simp add: r1 r2)
  moreover have "arrows st' = filter (\<lambda>e. e \<notin> set (d # ds)) (arrows st)"
    by (simp only: arr2 arr1 conj_eq)
  moreover have "\<forall>u \<in> set (itemsContainer st).
                 t_from (taskObj st' u) = filter (\<lambda>e. e \<notin> set (d # ds)) (t_from (taskObj st u))
               \<and> t_to (taskObj st' u) = filter (\<lambda>e. e \<notin> set (d # ds)) (t_to (taskObj st u))"
    using adj1 adj2 by (simp only: items1 conj_eq [symmetric]) simp
  ultimately show ?case using wf2 items1 items2 deps1 deps2 by simp
qed

text \<open>
  Claim C1. In a model with referential integrity, deleting a live task \<open>t\<close> succeeds. It
  first deletes the dependencies in \<open>t.from\<close>, then those left in \<open>t.to\<close>, each with
  \<open>deleteDependency\<close>, and then removes \<open>t\<close> from \<open>itemsContainer\<close>. Afterwards the
  children of \<open>arrows\<close> are those that were not incident to \<open>t\<close>, none of them references
  \<open>t\<close>, the arrays \<open>from\<close> and \<open>to\<close> of every remaining task hold exactly their former
  members that are still under \<open>arrows\<close>, and referential integrity holds again.
\<close>

theorem deleteTask_severs:
  assumes "wf st" and "t \<in> set (itemsContainer st)"
  shows "\<exists>st'. deleteTask t st = Inr st'
           \<and> itemsContainer st' = remove1 t (itemsContainer st)
           \<and> t \<notin> set (itemsContainer st')
           \<and> depObj st' = depObj st
           \<and> arrows st' = filter (\<lambda>d. d_from (depObj st d) \<noteq> t \<and> d_to (depObj st d) \<noteq> Some t)
                             (arrows st)
           \<and> (\<forall>d \<in> set (arrows st'). d_from (depObj st' d) \<noteq> t \<and> d_to (depObj st' d) \<noteq> Some t)
           \<and> (\<forall>u \<in> set (itemsContainer st').
                 t_from (taskObj st' u) = filter (\<lambda>d. d \<in> set (arrows st')) (t_from (taskObj st u))
               \<and> t_to (taskObj st' u) = filter (\<lambda>d. d \<in> set (arrows st')) (t_to (taskObj st u)))
           \<and> wf st'"
proof -
  let ?out = "t_from (taskObj st t)"
  have out_d: "distinct ?out" and out_set: "set ?out = set (filter (\<lambda>d. d_from (depObj st d) = t) (arrows st))"
    using assms by (auto simp: wf_def)
  have in_d: "distinct (t_to (taskObj st t))"
    and in_set: "set (t_to (taskObj st t)) = set (filter (\<lambda>d. d_to (depObj st d) = Some t) (arrows st))"
    using assms by (auto simp: wf_def)
  have out_sub: "set ?out \<subseteq> set (arrows st)" using out_set by auto
  from forEachE_deleteDependency_wf [OF assms(1) out_d out_sub] obtain st1 where
    r1: "forEachE deleteDependency ?out st = Inr st1" and wf1: "wf st1"
    and arr1: "arrows st1 = filter (\<lambda>e. e \<notin> set ?out) (arrows st)"
    and items1: "itemsContainer st1 = itemsContainer st"
    and deps1: "depObj st1 = depObj st"
    and adj1: "\<forall>u \<in> set (itemsContainer st).
                 t_from (taskObj st1 u) = filter (\<lambda>e. e \<notin> set ?out) (t_from (taskObj st u))
               \<and> t_to (taskObj st1 u) = filter (\<lambda>e. e \<notin> set ?out) (t_to (taskObj st u))"
    by blast
  let ?inc = "t_to (taskObj st1 t)"
  have inc_eq: "?inc = filter (\<lambda>e. e \<notin> set ?out) (t_to (taskObj st t))"
    using adj1 assms(2) by simp
  have inc_d: "distinct ?inc" using in_d by (simp add: inc_eq)
  have inc_sub: "set ?inc \<subseteq> set (arrows st1)"
    using in_set by (auto simp: inc_eq arr1)
  from forEachE_deleteDependency_wf [OF wf1 inc_d inc_sub] obtain st2 where
    r2: "forEachE deleteDependency ?inc st1 = Inr st2" and wf2: "wf st2"
    and arr2: "arrows st2 = filter (\<lambda>e. e \<notin> set ?inc) (arrows st1)"
    and items2: "itemsContainer st2 = itemsContainer st1"
    and deps2: "depObj st2 = depObj st1"
    and adj2: "\<forall>u \<in> set (itemsContainer st1).
                 t_from (taskObj st2 u) = filter (\<lambda>e. e \<notin> set ?inc) (t_from (taskObj st1 u))
               \<and> t_to (taskObj st2 u) = filter (\<lambda>e. e \<notin> set ?inc) (t_to (taskObj st1 u))"
    by blast
  let ?st' = "st2\<lparr>itemsContainer := remove1 t (itemsContainer st2)\<rparr>"
  have res: "deleteTask t st = Inr ?st'"
    using assms(2) by (simp add: deleteTask_def r1 r2 removeChild_def items1 items2)
  have arr: "arrows ?st' = filter (\<lambda>d. d_from (depObj st d) \<noteq> t \<and> d_to (depObj st d) \<noteq> Some t) (arrows st)"
    using out_set in_set by (auto simp: arr2 arr1 inc_eq intro!: filter_cong)
  have dist_items: "distinct (itemsContainer st)" using assms(1) by (simp add: wf_def)
  have items: "itemsContainer ?st' = remove1 t (itemsContainer st)" by (simp add: items1 items2)
  have gone: "t \<notin> set (itemsContainer ?st')" using dist_items by (simp add: items)
  have deps: "depObj ?st' = depObj st" by (simp add: deps1 deps2)
  have noref: "\<forall>d \<in> set (arrows ?st'). d_from (depObj ?st' d) \<noteq> t \<and> d_to (depObj ?st' d) \<noteq> Some t"
    by (simp only: arr deps) simp
  have mem: "\<And>d. d \<in> set (arrows st2) \<longleftrightarrow> d \<in> set (arrows st) \<and> d \<notin> set ?out \<and> d \<notin> set ?inc"
    by (auto simp: arr2 arr1)
  have adj: "t_from (taskObj ?st' u) = filter (\<lambda>d. d \<in> set (arrows ?st')) (t_from (taskObj st u))
           \<and> t_to (taskObj ?st' u) = filter (\<lambda>d. d \<in> set (arrows ?st')) (t_to (taskObj st u))"
    if u: "u \<in> set (itemsContainer st)" for u
  proof -
    have f: "set (t_from (taskObj st u)) \<subseteq> set (arrows st)"
      and g: "set (t_to (taskObj st u)) \<subseteq> set (arrows st)"
      using assms(1) u by (auto simp: wf_def)
    have "t_from (taskObj ?st' u) = filter (\<lambda>e. e \<notin> set ?inc) (filter (\<lambda>e. e \<notin> set ?out) (t_from (taskObj st u)))"
      using adj1 adj2 u by (simp add: items1)
    also have "\<dots> = filter (\<lambda>d. d \<in> set (arrows ?st')) (t_from (taskObj st u))"
      using f by (auto simp: mem intro!: filter_cong)
    finally have 1: "t_from (taskObj ?st' u) = filter (\<lambda>d. d \<in> set (arrows ?st')) (t_from (taskObj st u))" .
    have "t_to (taskObj ?st' u) = filter (\<lambda>e. e \<notin> set ?inc) (filter (\<lambda>e. e \<notin> set ?out) (t_to (taskObj st u)))"
      using adj1 adj2 u by (simp add: items1)
    also have "\<dots> = filter (\<lambda>d. d \<in> set (arrows ?st')) (t_to (taskObj st u))"
      using g by (auto simp: mem intro!: filter_cong)
    finally have 2: "t_to (taskObj ?st' u) = filter (\<lambda>d. d \<in> set (arrows ?st')) (t_to (taskObj st u))" .
    from 1 2 show ?thesis ..
  qed
  have adj': "\<forall>u \<in> set (itemsContainer ?st').
                 t_from (taskObj ?st' u) = filter (\<lambda>d. d \<in> set (arrows ?st')) (t_from (taskObj st u))
               \<and> t_to (taskObj ?st' u) = filter (\<lambda>d. d \<in> set (arrows ?st')) (t_to (taskObj st u))"
  proof
    fix u assume "u \<in> set (itemsContainer ?st')"
    then have "u \<in> set (itemsContainer st)" using dist_items by (simp add: items)
    then show "t_from (taskObj ?st' u) = filter (\<lambda>d. d \<in> set (arrows ?st')) (t_from (taskObj st u))
               \<and> t_to (taskObj ?st' u) = filter (\<lambda>d. d \<in> set (arrows ?st')) (t_to (taskObj st u))"
      by (rule adj)
  qed
  have wf': "wf ?st'"
  proof -
    have a: "arrows ?st' = arrows st2" "depObj ?st' = depObj st2" "taskObj ?st' = taskObj st2" by simp_all
    have ends: "\<forall>d \<in> set (arrows st2). d_from (depObj st2 d) \<noteq> t \<and> d_to (depObj st2 d) \<noteq> Some t"
      using noref by simp
    have set_items: "set (remove1 t (itemsContainer st2)) = set (itemsContainer st2) - {t}"
      using wf2 by (simp add: wf_def)
    show ?thesis
      using wf2 ends unfolding wf_def
      by (simp add: set_items) blast
  qed
  from res items gone deps arr noref adj' wf' show ?thesis by blast
qed


section \<open>Loading and serialising\<close>

subsection \<open>clearGraph\<close>

lemma fold_remove1_Cons_absent:
  "y \<notin> set xs \<Longrightarrow> fold remove1 xs (y # zs) = y # fold remove1 xs zs"
  by (induction xs arbitrary: zs) auto

lemma fold_remove1_filter:
  "fold remove1 (filter P ys) ys = filter (\<lambda>y. \<not> P y) ys"
  by (induction ys) (auto simp: fold_remove1_Cons_absent)

lemma fold_removeTaskElement:
  "fold removeTaskElement xs st = st\<lparr>itemsContainer := fold remove1 xs (itemsContainer st)\<rparr>"
  by (induction xs arbitrary: st) (simp_all add: removeTaskElement_def)

lemma fold_removeDependencyElement:
  "fold removeDependencyElement xs st = st\<lparr>arrows := fold remove1 xs (arrows st)\<rparr>"
  by (induction xs arbitrary: st) (simp_all add: removeDependencyElement_def)

lemma fold_remove1_self: "fold remove1 ys ys = []"
  using fold_remove1_filter [of "\<lambda>_. True" ys] by simp

lemma clearGraph_eq:
  "clearGraph st = st\<lparr>itemsContainer := filter (\<lambda>e. ''task'' \<notin> classList (taskObj st e)) (itemsContainer st),
                      arrows := []\<rparr>"
  by (simp add: clearGraph_def Let_def fold_removeTaskElement fold_removeDependencyElement
      getDependencies_def getTasks_def fold_remove1_filter fold_remove1_self)

lemma clearGraph_empty:
  "getTasks (clearGraph st) = []" "arrows (clearGraph st) = []"
  by (simp_all add: clearGraph_eq getTasks_def)

lemma clearGraph_allocated: "allocated st \<Longrightarrow> allocated (clearGraph st)"
  by (simp add: clearGraph_eq allocated_def)

subsection \<open>addTask\<close>

lemma addTask_doc:
  assumes "allocated st"
  shows "docTasks (snd (addTask (taskArg t) st)) = docTasks st @ [t]"
    and "arrows (snd (addTask (taskArg t) st)) = arrows st"
    and "allocated (snd (addTask (taskArg t) st))"
proof -
  let ?n = "nextId st"
  let ?st' = "snd (addTask (taskArg t) st)"
  have fresh: "?n \<notin> set (itemsContainer st)" using assms by (auto simp: allocated_def)
  have old: "\<And>e. e \<in> set (itemsContainer st) \<Longrightarrow> taskObj ?st' e = taskObj st e"
    using fresh by (auto simp: addTask_def Let_def)
  have items: "itemsContainer ?st' = itemsContainer st @ [?n]"
    by (simp add: addTask_def Let_def)
  have new: "getGraph_task ?st' ?n = t" "''task'' \<in> classList (taskObj ?st' ?n)"
    by (cases "status t"; simp add: addTask_def Let_def taskArg_def getGraph_task_def getOffsetBox_def)+
  have "getTasks ?st' = getTasks st @ [?n]"
    unfolding getTasks_def items using old new(2) by (auto intro: filter_cong)
  moreover have "map (getGraph_task ?st') (getTasks st) = map (getGraph_task st) (getTasks st)"
    using old by (auto simp: getTasks_def getGraph_task_def)
  ultimately show "docTasks ?st' = docTasks st @ [t]"
    by (simp add: docTasks_def new(1))
  show "arrows ?st' = arrows st" by (simp add: addTask_def Let_def)
  show "allocated ?st'" using assms by (auto simp: allocated_def addTask_def Let_def less_Suc_eq)
qed

lemma fold_addTask_doc:
  "allocated st \<Longrightarrow>
   docTasks (fold (\<lambda>t s. snd (addTask (taskArg t) s)) ts st) = docTasks st @ ts
   \<and> arrows (fold (\<lambda>t s. snd (addTask (taskArg t) s)) ts st) = arrows st
   \<and> allocated (fold (\<lambda>t s. snd (addTask (taskArg t) s)) ts st)"
  by (induction ts arbitrary: st) (simp_all add: addTask_doc)

subsection \<open>addDependency\<close>

lemma find_textContent:
  "find (\<lambda>t. textContent (taskObj st t) = nm) (getTasks st) = Some p \<Longrightarrow>
   textContent (taskObj st p) = nm \<and> p \<in> set (itemsContainer st)"
  by (auto simp: find_Some_iff getTasks_def dest: nth_mem)

lemma mapE_snoc:
  "mapE f (xs @ [x]) =
     (case mapE f xs of Inl e \<Rightarrow> Inl e
      | Inr ys \<Rightarrow> (case f x of Inl e \<Rightarrow> Inl e | Inr y \<Rightarrow> Inr (ys @ [y])))"
  by (induction xs) (auto split: sum.splits)

lemma mapE_cong: "(\<And>x. x \<in> set xs \<Longrightarrow> f x = g x) \<Longrightarrow> mapE f xs = mapE g xs"
  by (induction xs) (auto split: sum.splits)

lemma findTask_names:
  "findTask st nm \<noteq> None \<longleftrightarrow> nm \<in> name ` set (docTasks st)"
  by (auto simp: findTask_def find_None_iff docTasks_def getGraph_task_def image_iff Let_def)

lemma updatePath_d_linked:
  "d_to (depObj st p) = Some b \<Longrightarrow> \<exists>a. updatePath_d ilb p None st = Inr a"
  by (simp add: updatePath_d_def Let_def split: option.splits)

lemma updatePath_d_dest: "\<exists>a. updatePath_d ilb p (Some q) st = Inr a"
  by (simp add: updatePath_d_def Let_def split: option.splits)

lemma updatePath_Inr:
  "updatePath_d ilb p dest st = Inr a \<Longrightarrow>
   updatePath ilb p dest st = Inr (st\<lparr>depObj := (depObj st)(p := (depObj st p)\<lparr>d_attr := a\<rparr>)\<rparr>)"
  by (simp add: updatePath_def)

lemma addDependency_doc:
  assumes al: "allocated st"
    and pre: "findTask st (predecessor dep) \<noteq> None"
    and suc: "findTask st (successor dep) \<noteq> None"
    and ds: "mapE (getGraph_dependency st) (arrows st) = Inr ds"
  shows "\<exists>st'. addDependency ilb dep st = Inr st'
           \<and> docTasks st' = docTasks st
           \<and> mapE (getGraph_dependency st') (arrows st') = Inr (ds @ [dep])
           \<and> allocated st'"
proof -
  from pre obtain p where p: "find (\<lambda>t. textContent (taskObj st t) = predecessor dep) (getTasks st) = Some p"
    by (auto simp: findTask_def)
  from suc obtain s where s: "find (\<lambda>t. textContent (taskObj st t) = successor dep) (getTasks st) = Some s"
    by (auto simp: findTask_def)
  note pn = find_textContent [OF p] and sn = find_textContent [OF s]
  let ?n = "nextId st"
  define st4 where "st4 = st\<lparr>depObj := (depObj st)(?n := \<lparr>d_from = p, d_to = Some s, d_attr = None\<rparr>),
       nextId := Suc ?n,
       taskObj := ((taskObj st)(p := (taskObj st p)\<lparr>t_from := t_from (taskObj st p) @ [?n]\<rparr>))
          (s := (((taskObj st)(p := (taskObj st p)\<lparr>t_from := t_from (taskObj st p) @ [?n]\<rparr>)) s)
                 \<lparr>t_to := t_to (((taskObj st)(p := (taskObj st p)\<lparr>t_from := t_from (taskObj st p) @ [?n]\<rparr>)) s) @ [?n]\<rparr>),
       arrows := arrows st @ [?n]\<rparr>"
  have step: "addDependency ilb dep st = updatePath ilb ?n None st4"
    by (simp add: addDependency_def p s Let_def st4_def)
  have to4: "d_to (depObj st4 ?n) = Some s" by (simp add: st4_def)
  from updatePath_d_linked [OF to4] obtain a where "updatePath_d ilb ?n None st4 = Inr a" ..
  then have upd: "updatePath ilb ?n None st4 = Inr (st4\<lparr>depObj := (depObj st4)(?n := (depObj st4 ?n)\<lparr>d_attr := a\<rparr>)\<rparr>)"
    by (rule updatePath_Inr)
  let ?st' = "st4\<lparr>depObj := (depObj st4)(?n := (depObj st4 ?n)\<lparr>d_attr := a\<rparr>)\<rparr>"
  have cls: "\<And>e. classList (taskObj st4 e) = classList (taskObj st e)"
    and txc: "\<And>e. textContent (taskObj st4 e) = textContent (taskObj st e)"
    and lft: "\<And>e. style_left (taskObj st4 e) = style_left (taskObj st e)"
    and tp: "\<And>e. style_top (taskObj st4 e) = style_top (taskObj st e)"
    by (simp_all add: st4_def)
  have items: "itemsContainer ?st' = itemsContainer st" by (simp add: st4_def)
  have tasks: "getTasks ?st' = getTasks st" by (simp add: getTasks_def cls items)
  have gt: "\<And>e. getGraph_task ?st' e = getGraph_task st e"
    by (simp add: getGraph_task_def cls txc lft tp getOffsetBox_def Let_def)
  have doc: "docTasks ?st' = docTasks st" by (simp add: docTasks_def tasks gt)
  have fresh: "?n \<notin> set (arrows st)" using al by (auto simp: allocated_def)
  have dep4: "\<And>d. d \<noteq> ?n \<Longrightarrow> depObj st4 d = depObj st d"
    and depn: "d_from (depObj st4 ?n) = p" "d_to (depObj st4 ?n) = Some s"
    by (simp_all add: st4_def)
  have old: "getGraph_dependency ?st' d = getGraph_dependency st d" if "d \<in> set (arrows st)" for d
  proof -
    from that fresh have "d \<noteq> ?n" by auto
    then show ?thesis by (simp add: getGraph_dependency_def txc dep4 split: option.splits)
  qed
  have new: "getGraph_dependency ?st' ?n = Inr dep"
    using pn sn by (simp add: getGraph_dependency_def txc depn)
  have arr: "arrows ?st' = arrows st @ [?n]" by (simp add: st4_def)
  have "mapE (getGraph_dependency ?st') (arrows st) = Inr ds"
    using mapE_cong [of "arrows st" "getGraph_dependency ?st'" "getGraph_dependency st"] old ds by simp
  then have deps: "mapE (getGraph_dependency ?st') (arrows ?st') = Inr (ds @ [dep])"
    by (simp only: arr mapE_snoc new) simp
  have al': "allocated ?st'"
    using al by (auto simp: allocated_def st4_def less_Suc_eq)
  from step upd doc deps al' show ?thesis by simp
qed

lemma forEachE_addDependency_doc:
  "allocated st \<Longrightarrow>
   \<forall>dep \<in> set deps. predecessor dep \<in> name ` set (docTasks st) \<and> successor dep \<in> name ` set (docTasks st) \<Longrightarrow>
   mapE (getGraph_dependency st) (arrows st) = Inr ds \<Longrightarrow>
   \<exists>st'. forEachE (addDependency ilb) deps st = Inr st'
           \<and> docTasks st' = docTasks st
           \<and> mapE (getGraph_dependency st') (arrows st') = Inr (ds @ deps)"
proof (induction deps arbitrary: st ds)
  case Nil
  then show ?case by simp
next
  case (Cons dep deps)
  from Cons.prems(2) have pr: "predecessor dep \<in> name ` set (docTasks st)"
    and su: "successor dep \<in> name ` set (docTasks st)"
    by simp_all
  have fp: "findTask st (predecessor dep) \<noteq> None" using pr by (rule findTask_names [THEN iffD2])
  have fs: "findTask st (successor dep) \<noteq> None" using su by (rule findTask_names [THEN iffD2])
  from addDependency_doc [OF Cons.prems(1) fp fs Cons.prems(3)] obtain st1 where
    r1: "addDependency ilb dep st = Inr st1" and d1: "docTasks st1 = docTasks st"
    and m1: "mapE (getGraph_dependency st1) (arrows st1) = Inr (ds @ [dep])" and a1: "allocated st1"
    by blast
  from Cons.prems(2) have "\<forall>dep \<in> set deps. predecessor dep \<in> name ` set (docTasks st1) \<and> successor dep \<in> name ` set (docTasks st1)"
    by (simp add: d1)
  from Cons.IH [OF a1 this m1] obtain st' where
    "forEachE (addDependency ilb) deps st1 = Inr st'" "docTasks st' = docTasks st1"
    "mapE (getGraph_dependency st') (arrows st') = Inr ((ds @ [dep]) @ deps)"
    by blast
  with r1 d1 show ?case by simp
qed

text \<open>
  Claim C2, as amended. For every document whose task names are unique and whose
  dependencies all name tasks of the document, loading the document and serialising the
  page again gives a document with the same set of tasks (name, position and status) and
  the same set of edges; the order of both arrays is kept as well. The names need not be
  unique for this.
\<close>

theorem loadGraph_getGraph_roundtrip:
  assumes "allocated st"
    and "distinct (map name (tasks d))"
    and "predecessor ` set (dependencies d) \<subseteq> name ` set (tasks d)"
    and "successor ` set (dependencies d) \<subseteq> name ` set (tasks d)"
  shows "\<exists>g. roundTrip ilb d st = Inr g
           \<and> set (tasks g) = set (tasks d) \<and> set (dependencies g) = set (dependencies d)
           \<and> tasks g = tasks d \<and> dependencies g = dependencies d"
proof -
  let ?st1 = "clearGraph st"
  let ?st2 = "fold (\<lambda>t s. snd (addTask (taskArg t) s)) (tasks d) ?st1"
  have a1: "allocated ?st1" using assms(1) by (rule clearGraph_allocated)
  have d1: "docTasks ?st1 = []" by (simp add: docTasks_def clearGraph_empty)
  from fold_addTask_doc [OF a1, of "tasks d"]
  have d2: "docTasks ?st2 = tasks d" and arr2: "arrows ?st2 = []" and a2: "allocated ?st2"
    by (simp_all add: d1 clearGraph_empty)
  have m2: "mapE (getGraph_dependency ?st2) (arrows ?st2) = Inr []" by (simp add: arr2)
  from assms(3,4) have res: "\<forall>dep \<in> set (dependencies d).
      predecessor dep \<in> name ` set (docTasks ?st2) \<and> successor dep \<in> name ` set (docTasks ?st2)"
    by (auto simp: d2)
  from forEachE_addDependency_doc [OF a2 res m2] obtain st' where
    r: "forEachE (addDependency ilb) (dependencies d) ?st2 = Inr st'"
    and dt: "docTasks st' = tasks d"
    and dd: "mapE (getGraph_dependency st') (arrows st') = Inr (dependencies d)"
    by (auto simp: d2)
  have "loadGraph ilb d st = Inr st'" by (simp add: loadGraph_def Let_def r)
  moreover have "getGraph st' = Inr \<lparr>tasks = tasks d, dependencies = dependencies d\<rparr>"
    using dt dd by (simp add: getGraph_def Let_def getDependencies_def docTasks_def)
  ultimately show ?thesis by (simp add: roundTrip_def)
qed


section \<open>Rendering paths and moving a task\<close>

lemma updatePath_d_cong:
  "taskObj st' = taskObj st \<Longrightarrow> d_from (depObj st' p) = d_from (depObj st p) \<Longrightarrow>
   d_to (depObj st' p) = d_to (depObj st p) \<Longrightarrow>
   updatePath_d ilb p dest st' = updatePath_d ilb p dest st"
  by (simp add: updatePath_d_def Let_def cong: option.case_cong)

text \<open>Rendering a list of linked paths only writes their attribute d.\<close>

lemma forEachE_updatePath:
  "\<forall>p \<in> set ps. d_to (depObj st p) \<noteq> None \<Longrightarrow>
   \<exists>st'. forEachE (\<lambda>path. updatePath ilb path None) ps st = Inr st'
         \<and> st' = st\<lparr>depObj := depObj st'\<rparr>
         \<and> (\<forall>q. d_from (depObj st' q) = d_from (depObj st q) \<and> d_to (depObj st' q) = d_to (depObj st q))
         \<and> (\<forall>q. q \<notin> set ps \<longrightarrow> depObj st' q = depObj st q)
         \<and> (\<forall>p \<in> set ps. updatePath_d ilb p None st = Inr (d_attr (depObj st' p)))"
proof (induction ps arbitrary: st)
  case Nil
  then show ?case by simp
next
  case (Cons p ps)
  from Cons.prems obtain b where "d_to (depObj st p) = Some b" by auto
  from updatePath_d_linked [OF this] obtain a where a: "updatePath_d ilb p None st = Inr a" ..
  let ?st1 = "st\<lparr>depObj := (depObj st)(p := (depObj st p)\<lparr>d_attr := a\<rparr>)\<rparr>"
  have r1: "updatePath ilb p None st = Inr ?st1" using a by (rule updatePath_Inr)
  have ends1: "\<And>q. d_from (depObj ?st1 q) = d_from (depObj st q) \<and> d_to (depObj ?st1 q) = d_to (depObj st q)"
    by simp
  have same1: "\<And>q dest. updatePath_d ilb q dest ?st1 = updatePath_d ilb q dest st"
    by (rule updatePath_d_cong) (simp_all add: ends1)
  from Cons.prems have "\<forall>q \<in> set ps. d_to (depObj ?st1 q) \<noteq> None" by simp
  from Cons.IH [OF this] obtain st' where
    r2: "forEachE (\<lambda>path. updatePath ilb path None) ps ?st1 = Inr st'"
    and only: "st' = ?st1\<lparr>depObj := depObj st'\<rparr>"
    and ends2: "\<forall>q. d_from (depObj st' q) = d_from (depObj ?st1 q) \<and> d_to (depObj st' q) = d_to (depObj ?st1 q)"
    and other2: "\<forall>q. q \<notin> set ps \<longrightarrow> depObj st' q = depObj ?st1 q"
    and attr2: "\<forall>q \<in> set ps. updatePath_d ilb q None ?st1 = Inr (d_attr (depObj st' q))"
    by blast
  have "forEachE (\<lambda>path. updatePath ilb path None) (p # ps) st = Inr st'" by (simp add: r1 r2)
  moreover have "st' = st\<lparr>depObj := depObj st'\<rparr>" by (subst only) simp
  moreover have "\<forall>q. d_from (depObj st' q) = d_from (depObj st q) \<and> d_to (depObj st' q) = d_to (depObj st q)"
    using ends2 ends1 by simp
  moreover have "\<forall>q. q \<notin> set (p # ps) \<longrightarrow> depObj st' q = depObj st q"
    using other2 by simp
  moreover have "\<forall>q \<in> set (p # ps). updatePath_d ilb q None st = Inr (d_attr (depObj st' q))"
  proof
    fix q assume q: "q \<in> set (p # ps)"
    show "updatePath_d ilb q None st = Inr (d_attr (depObj st' q))"
    proof (cases "q \<in> set ps")
      case True
      with attr2 same1 show ?thesis by simp
    next
      case False
      with q have "q = p" by simp
      with False other2 a show ?thesis by simp
    qed
  qed
  ultimately show ?case by blast
qed

lemma moveTask_linked:
  assumes "incidentLinked st t"
  shows "\<exists>st'. moveTask ilb t p st = Inr st'
         \<and> taskObj st' = (taskObj st)(t := (taskObj st t)\<lparr>style_left := p_x p, style_top := p_y p\<rparr>)
         \<and> st' = st\<lparr>taskObj := taskObj st', depObj := depObj st'\<rparr>
         \<and> (\<forall>q. d_from (depObj st' q) = d_from (depObj st q) \<and> d_to (depObj st' q) = d_to (depObj st q))
         \<and> (\<forall>q. q \<notin> set (t_from (taskObj st t) @ t_to (taskObj st t)) \<longrightarrow> depObj st' q = depObj st q)
         \<and> (\<forall>q \<in> set (t_from (taskObj st t) @ t_to (taskObj st t)).
               updatePath_d ilb q None st' = Inr (d_attr (depObj st' q)))
         \<and> incidentLinked st' t"
proof -
  let ?st1 = "st\<lparr>taskObj := (taskObj st)(t := (taskObj st t)\<lparr>style_left := p_x p, style_top := p_y p\<rparr>)\<rparr>"
  let ?ps = "t_from (taskObj st t) @ t_to (taskObj st t)"
  have ps: "t_from (taskObj ?st1 t) @ t_to (taskObj ?st1 t) = ?ps" by simp
  have "\<forall>q \<in> set ?ps. d_to (depObj ?st1 q) \<noteq> None"
    using assms by (simp add: incidentLinked_def)
  from forEachE_updatePath [OF this] obtain st' where
    r: "forEachE (\<lambda>path. updatePath ilb path None) ?ps ?st1 = Inr st'"
    and only: "st' = ?st1\<lparr>depObj := depObj st'\<rparr>"
    and ends: "\<forall>q. d_from (depObj st' q) = d_from (depObj ?st1 q) \<and> d_to (depObj st' q) = d_to (depObj ?st1 q)"
    and other: "\<forall>q. q \<notin> set ?ps \<longrightarrow> depObj st' q = depObj ?st1 q"
    and attr: "\<forall>q \<in> set ?ps. updatePath_d ilb q None ?st1 = Inr (d_attr (depObj st' q))"
    by blast
  have res: "moveTask ilb t p st = Inr st'"
    unfolding moveTask_def Let_def ps using r .
  have tobj: "taskObj st' = (taskObj st)(t := (taskObj st t)\<lparr>style_left := p_x p, style_top := p_y p\<rparr>)"
    by (subst only) simp
  have only': "st' = st\<lparr>taskObj := taskObj st', depObj := depObj st'\<rparr>"
    by (subst only) (simp add: tobj)
  have ends': "\<forall>q. d_from (depObj st' q) = d_from (depObj st q) \<and> d_to (depObj st' q) = d_to (depObj st q)"
    using ends by simp
  have other': "\<forall>q. q \<notin> set ?ps \<longrightarrow> depObj st' q = depObj st q" using other by simp
  have same: "\<And>q. updatePath_d ilb q None st' = updatePath_d ilb q None ?st1"
    by (rule updatePath_d_cong) (simp_all add: tobj ends)
  have attr': "\<forall>q \<in> set ?ps. updatePath_d ilb q None st' = Inr (d_attr (depObj st' q))"
    using attr same by simp
  have linked: "incidentLinked st' t"
    using assms ends' by (simp add: incidentLinked_def tobj)
  from res tobj only' ends' other' attr' linked show ?thesis by blast
qed


section \<open>The drag gesture\<close>

text \<open>
  Claim C6, as amended. During a task-drag gesture every move event of the gesture's
  pointer repositions the task, whether or not the threshold has been exceeded: the new
  position is the pointer offset of the event minus the offset of the press point, and the
  attribute \<open>d\<close> of every incident path is what \<open>updatePath\<close> computes from the new
  position. The threshold only sets the flag \<open>moved\<close>, once the squared distance from the
  initial position exceeds 25.
\<close>

theorem drag_onPointerMove_repositions:
  assumes "incidentLinked st t" and "pointerId ev = pid"
  shows "\<exists>st'. drag_onPointerMove ilb t pid init offX offY moved ev st
            = Inr (Some (Drag t pid init offX offY
                 (moved \<or> squaredDistance init \<lparr>p_x = clientX ev, p_y = clientY ev\<rparr> > 25)), st')
         \<and> taskPos (taskObj st' t) = \<lparr>p_x = offsetX ev - offX, p_y = offsetY ev - offY\<rparr>
         \<and> (\<forall>q \<in> set (t_from (taskObj st t) @ t_to (taskObj st t)).
               updatePath_d ilb q None st' = Inr (d_attr (depObj st' q)))"
proof -
  from moveTask_linked [OF assms(1), of ilb "\<lparr>p_x = offsetX ev - offX, p_y = offsetY ev - offY\<rparr>"]
  obtain st' where
    r: "moveTask ilb t \<lparr>p_x = offsetX ev - offX, p_y = offsetY ev - offY\<rparr> st = Inr st'"
    and tobj: "taskObj st' = (taskObj st)(t := (taskObj st t)\<lparr>style_left := p_x \<lparr>p_x = offsetX ev - offX, p_y = offsetY ev - offY\<rparr>,
          style_top := p_y \<lparr>p_x = offsetX ev - offX, p_y = offsetY ev - offY\<rparr>\<rparr>)"
    and attr: "\<forall>q \<in> set (t_from (taskObj st t) @ t_to (taskObj st t)).
               updatePath_d ilb q None st' = Inr (d_attr (depObj st' q))"
    by blast
  have "drag_onPointerMove ilb t pid init offX offY moved ev st
            = Inr (Some (Drag t pid init offX offY
                 (moved \<or> squaredDistance init \<lparr>p_x = clientX ev, p_y = clientY ev\<rparr> > 25)), st')"
    using assms(2) r by (simp add: drag_onPointerMove_def Let_def)
  moreover have "taskPos (taskObj st' t) = \<lparr>p_x = offsetX ev - offX, p_y = offsetY ev - offY\<rparr>"
    by (simp add: tobj taskPos_def getOffsetBox_def)
  ultimately show ?thesis using attr by blast
qed

lemma drag_moves:
  "incidentLinked s t \<Longrightarrow>
   \<exists>s'. handleEvents ilb (map (Pair Pointermove) moves @ rest) (Some (Drag t pid init ox oy m)) s
          = handleEvents ilb rest (Some (Drag t pid init ox oy (m \<or> exceededThreshold init pid moves))) s'
       \<and> dispatched s' = dispatched s \<and> incidentLinked s' t
       \<and> itemsContainer s' = itemsContainer s \<and> arrows s' = arrows s
       \<and> (\<forall>u. classList (taskObj s' u) = classList (taskObj s u))"
proof (induction moves arbitrary: s m)
  case Nil
  then show ?case by (auto simp: exceededThreshold_def intro: exI [of _ s])
next
  case (Cons mv moves)
  show ?case
  proof (cases "pointerId mv = pid")
    case False
    then have step: "handleEvent ilb Pointermove mv (Drag t pid init ox oy m) s
                 = Inr (Some (Drag t pid init ox oy m), s)"
      by (simp add: handleEvent_def drag_onPointerMove_def)
    from Cons.IH [OF Cons.prems, of m] obtain s' where
      "handleEvents ilb (map (Pair Pointermove) moves @ rest) (Some (Drag t pid init ox oy m)) s
          = handleEvents ilb rest (Some (Drag t pid init ox oy (m \<or> exceededThreshold init pid moves))) s'"
      "dispatched s' = dispatched s" "incidentLinked s' t"
      "itemsContainer s' = itemsContainer s" "arrows s' = arrows s"
      "\<forall>u. classList (taskObj s' u) = classList (taskObj s u)"
      by blast
    moreover have "exceededThreshold init pid (mv # moves) = exceededThreshold init pid moves"
      using False by (simp add: exceededThreshold_def)
    ultimately show ?thesis using step by auto
  next
    case True
    let ?m1 = "m \<or> squaredDistance init \<lparr>p_x = clientX mv, p_y = clientY mv\<rparr> > 25"
    from moveTask_linked [OF Cons.prems, of ilb "\<lparr>p_x = offsetX mv - ox, p_y = offsetY mv - oy\<rparr>"]
    obtain s1 where
      r: "moveTask ilb t \<lparr>p_x = offsetX mv - ox, p_y = offsetY mv - oy\<rparr> s = Inr s1"
      and tobj: "taskObj s1 = (taskObj s)(t := (taskObj s t)
            \<lparr>style_left := p_x \<lparr>p_x = offsetX mv - ox, p_y = offsetY mv - oy\<rparr>,
               style_top := p_y \<lparr>p_x = offsetX mv - ox, p_y = offsetY mv - oy\<rparr>\<rparr>)"
      and only: "s1 = s\<lparr>taskObj := taskObj s1, depObj := depObj s1\<rparr>"
      and l1: "incidentLinked s1 t"
      by blast
    have d1: "dispatched s1 = dispatched s" by (subst only) simp
    have i1: "itemsContainer s1 = itemsContainer s" by (subst only) simp
    have a1: "arrows s1 = arrows s" by (subst only) simp
    have c1: "\<forall>u. classList (taskObj s1 u) = classList (taskObj s u)" by (simp add: tobj)
    have step: "handleEvent ilb Pointermove mv (Drag t pid init ox oy m) s
                 = Inr (Some (Drag t pid init ox oy ?m1), s1)"
      using True r by (simp add: handleEvent_def drag_onPointerMove_def Let_def)
    from Cons.IH [OF l1, of ?m1] obtain s' where
      "handleEvents ilb (map (Pair Pointermove) moves @ rest) (Some (Drag t pid init ox oy ?m1)) s1
          = handleEvents ilb rest (Some (Drag t pid init ox oy (?m1 \<or> exceededThreshold init pid moves))) s'"
      "dispatched s' = dispatched s1" "incidentLinked s' t"
      "itemsContainer s' = itemsContainer s1" "arrows s' = arrows s1"
      "\<forall>u. classList (taskObj s' u) = classList (taskObj s1 u)"
      by blast
    moreover have "(?m1 \<or> exceededThreshold init pid moves) = (m \<or> exceededThreshold init pid (mv # moves))"
      using True by (auto simp: exceededThreshold_def)
    ultimately show ?thesis using step d1 i1 a1 c1 by auto
  qed
qed

text \<open>The click rules touch only the class selected and the event log.\<close>

lemma fold_classList_remove_class:
  "(c \<in> classList (taskObj (fold (classList_remove c) us s) u))
     = (c \<in> classList (taskObj s u) \<and> u \<notin> set us)"
  by (induction us arbitrary: s) (auto simp: classList_remove_def setClassList_def)

lemma fold_classList_remove_other:
  "c \<noteq> c' \<Longrightarrow>
   (c \<in> classList (taskObj (fold (classList_remove c') us s) u)) = (c \<in> classList (taskObj s u))"
  by (induction us arbitrary: s) (auto simp: classList_remove_def setClassList_def)

lemma onTaskClicked_other_class:
  "c \<noteq> ''selected'' \<Longrightarrow>
   (c \<in> classList (taskObj (onTaskClicked t sh s) u)) = (c \<in> classList (taskObj s u))"
  by (auto simp: onTaskClicked_def sendSelectionChanged_def classList_toggle_def classList_add_def
      classList_remove_def setClassList_def resetSelected_def fold_classList_remove_other)

lemma onTaskClicked_fields:
  "itemsContainer (onTaskClicked t sh s) = itemsContainer s"
  "arrows (onTaskClicked t sh s) = arrows s"
  "depObj (onTaskClicked t sh s) = depObj s"
  "nextId (onTaskClicked t sh s) = nextId s"
proof -
  have f: "\<And>c us s. itemsContainer (fold (classList_remove c) us s) = itemsContainer s
       \<and> arrows (fold (classList_remove c) us s) = arrows s
       \<and> depObj (fold (classList_remove c) us s) = depObj s
       \<and> nextId (fold (classList_remove c) us s) = nextId s"
  proof -
    fix c us s
    show "itemsContainer (fold (classList_remove c) us s) = itemsContainer s
       \<and> arrows (fold (classList_remove c) us s) = arrows s
       \<and> depObj (fold (classList_remove c) us s) = depObj s
       \<and> nextId (fold (classList_remove c) us s) = nextId s"
      by (induction us arbitrary: s) (simp_all add: classList_remove_def setClassList_def)
  qed
  show "itemsContainer (onTaskClicked t sh s) = itemsContainer s"
    "arrows (onTaskClicked t sh s) = arrows s"
    "depObj (onTaskClicked t sh s) = depObj s"
    "nextId (onTaskClicked t sh s) = nextId s"
    by (simp_all add: onTaskClicked_def sendSelectionChanged_def classList_toggle_def classList_add_def
      classList_remove_def setClassList_def resetSelected_def f)
qed

lemma onTaskClicked_selected:
  "(''selected'' \<in> classList (taskObj (onTaskClicked t sh s) u))
     = (if sh then (if u = t then ''selected'' \<notin> classList (taskObj s t)
                    else ''selected'' \<in> classList (taskObj s u))
        else (u = t \<or> (''selected'' \<in> classList (taskObj s u) \<and> u \<notin> set (getTasks s))))"
  by (auto simp: onTaskClicked_def sendSelectionChanged_def classList_toggle_def classList_add_def
      classList_remove_def setClassList_def resetSelected_def fold_classList_remove_class
      getSelected_def)

lemma getTasks_cong:
  "itemsContainer a = itemsContainer b
   \<Longrightarrow> (\<And>u. (''task'' \<in> classList (taskObj a u)) = (''task'' \<in> classList (taskObj b u)))
   \<Longrightarrow> getTasks a = getTasks b"
  by (simp add: getTasks_def)

lemma getSelected_cong:
  "itemsContainer a = itemsContainer b
   \<Longrightarrow> (\<And>u. (''task'' \<in> classList (taskObj a u)) = (''task'' \<in> classList (taskObj b u)))
   \<Longrightarrow> (\<And>u. (''selected'' \<in> classList (taskObj a u)) = (''selected'' \<in> classList (taskObj b u)))
   \<Longrightarrow> getSelected a = getSelected b"
  by (simp add: getSelected_def getTasks_def)

lemma onTaskClicked_event:
  "dispatched (onTaskClicked t sh s)
     = dispatched s @ [Selectionchanged (if sh then getSelected (onTaskClicked t sh s) else [t])]"
proof -
  have a: "\<And>c u s. dispatched (classList_toggle c u s) = dispatched s"
    by (simp add: classList_toggle_def classList_add_def classList_remove_def setClassList_def)
  have b: "\<And>c u s. dispatched (classList_add c u s) = dispatched s"
    by (simp add: classList_add_def setClassList_def)
  have c: "\<And>c us s. dispatched (fold (classList_remove c) us s) = dispatched s"
  proof -
    fix c us s show "dispatched (fold (classList_remove c) us s) = dispatched s"
      by (induction us arbitrary: s) (simp_all add: classList_remove_def setClassList_def)
  qed
  have d: "\<And>sel s. getSelected (sendSelectionChanged sel s) = getSelected s"
    by (simp add: getSelected_def getTasks_def sendSelectionChanged_def)
  show ?thesis
    by (simp add: onTaskClicked_def d a b c resetSelected_def)
       (simp add: sendSelectionChanged_def a b c)
qed

text \<open>
  Claim C5. A task-drag gesture is a press on a task without link mode, move events, and a
  release (\<open>pointerup\<close> or \<open>pointercancel\<close>) of the same pointer. The gesture leaves the
  children of both containers and every class other than \<open>selected\<close> and \<open>dragged\<close> as
  they were. If at some move event of that pointer the squared distance from the initial
  position exceeded 25, the release dispatches exactly one event, a \<open>taskmoved\<close> for the
  task, and the selection is unchanged. Otherwise it dispatches no \<open>taskmoved\<close>: the
  release is a click on the task. A plain click leaves the pressed task as the only
  selected task and dispatches \<open>selectionchanged\<close> with that task; a click with the shift
  key flips the class \<open>selected\<close> of the pressed task, leaves the others, and dispatches
  \<open>selectionchanged\<close> with the new selection. Selection and event log are those that
  \<open>onTaskClicked\<close> gives on the state before the gesture.
\<close>

theorem drag_gesture_taskmoved:
  assumes "asTask st (target down) = Some t"
    and "\<not> shiftKey down" and "\<not> linkModeChecked st"
    and "incidentLinked st t"
    and "pointerId up = pointerId down"
    and "ty \<noteq> Pointermove"
  shows "\<exists>st'. gesture ilb down (map (Pair Pointermove) moves @ [(ty, up)]) st = Inr (None, st')
     \<and> itemsContainer st' = itemsContainer st \<and> arrows st' = arrows st
     \<and> (\<forall>u c. c \<noteq> ''selected'' \<and> c \<noteq> ''dragged''
            \<longrightarrow> (c \<in> classList (taskObj st' u)) = (c \<in> classList (taskObj st u)))
     \<and> (if exceededThreshold \<lparr>p_x = clientX down, p_y = clientY down\<rparr> (pointerId down) moves
        then dispatched st' = dispatched st @ [Taskmoved t]
           \<and> (\<forall>u. (''selected'' \<in> classList (taskObj st' u)) = (''selected'' \<in> classList (taskObj st u)))
        else dispatched st'
               = dispatched st @ [Selectionchanged (if shiftKey up then getSelected st' else [t])]
           \<and> (\<forall>u. (''selected'' \<in> classList (taskObj st' u))
                  = (if shiftKey up
                     then (if u = t then ''selected'' \<notin> classList (taskObj st t)
                           else ''selected'' \<in> classList (taskObj st u))
                     else (u = t \<or> (''selected'' \<in> classList (taskObj st u) \<and> u \<notin> set (getTasks st)))))
           \<and> getSelected st' = getSelected (onTaskClicked t (shiftKey up) st)
           \<and> dispatched st' = dispatched (onTaskClicked t (shiftKey up) st))"
proof -
  let ?init = "\<lparr>p_x = clientX down, p_y = clientY down\<rparr>"
  let ?pid = "pointerId down"
  let ?s0 = "classList_add ''dragged'' t st"
  let ?ex = "exceededThreshold ?init ?pid moves"
  have down: "onpointerdown down st = (Drag t ?pid ?init (offsetX down) (offsetY down) False, ?s0)"
    using assms(1-3) by (simp add: onpointerdown_def)
  have l0: "incidentLinked ?s0 t" and d0: "dispatched ?s0 = dispatched st"
    and i0: "itemsContainer ?s0 = itemsContainer st" and a0: "arrows ?s0 = arrows st"
    using assms(4) by (simp_all add: incidentLinked_def classList_add_def setClassList_def)
  from drag_moves [OF l0, of ilb moves "[(ty, up)]" ?pid ?init "offsetX down" "offsetY down" False]
  obtain s' where
    run: "handleEvents ilb (map (Pair Pointermove) moves @ [(ty, up)])
            (Some (Drag t ?pid ?init (offsetX down) (offsetY down) False)) ?s0
          = handleEvents ilb [(ty, up)] (Some (Drag t ?pid ?init (offsetX down) (offsetY down) ?ex)) s'"
    and d': "dispatched s' = dispatched ?s0"
    and i': "itemsContainer s' = itemsContainer ?s0"
    and a': "arrows s' = arrows ?s0"
    and c': "\<forall>u. classList (taskObj s' u) = classList (taskObj ?s0 u)"
    by auto
  define s1 where "s1 = classList_remove ''dragged'' t s'"
  have d1: "dispatched s1 = dispatched st"
    by (simp add: s1_def classList_remove_def setClassList_def d' d0)
  have i1: "itemsContainer s1 = itemsContainer st"
    by (simp add: s1_def classList_remove_def setClassList_def i' i0)
  have a1: "arrows s1 = arrows st"
    by (simp add: s1_def classList_remove_def setClassList_def a' a0)
  have c1: "(c \<in> classList (taskObj s1 u)) = (c \<in> classList (taskObj st u))" if "c \<noteq> ''dragged''" for c u
    using that c' by (auto simp: s1_def classList_remove_def classList_add_def setClassList_def)
  have t1: "getTasks s1 = getTasks st"
    by (rule getTasks_cong) (simp_all add: i1 c1)
  have ending: "handleEvent ilb ty up (Drag t ?pid ?init (offsetX down) (offsetY down) mvd) s'
      = (if mvd then Inr (None, s1\<lparr>dispatched := dispatched s1 @ [Taskmoved t]\<rparr>)
         else Inr (None, onTaskClicked t (shiftKey up) s1))" for mvd
    using assms(5,6) by (cases ty) (simp_all add: handleEvent_def drag_onPointerEnd_def Let_def s1_def)
  show ?thesis
  proof (cases ?ex)
    case True
    define st' where "st' = s1\<lparr>dispatched := dispatched s1 @ [Taskmoved t]\<rparr>"
    have g: "gesture ilb down (map (Pair Pointermove) moves @ [(ty, up)]) st = Inr (None, st')"
      using True by (simp add: gesture_def down run ending st'_def)
    have "itemsContainer st' = itemsContainer st" "arrows st' = arrows st"
      "dispatched st' = dispatched st @ [Taskmoved t]"
      by (simp_all add: st'_def i1 a1 d1)
    moreover have "\<forall>u c. c \<noteq> ''selected'' \<and> c \<noteq> ''dragged''
            \<longrightarrow> (c \<in> classList (taskObj st' u)) = (c \<in> classList (taskObj st u))"
      by (simp add: st'_def c1)
    moreover have "\<forall>u. (''selected'' \<in> classList (taskObj st' u)) = (''selected'' \<in> classList (taskObj st u))"
      by (simp add: st'_def c1)
    ultimately show ?thesis using g True by (intro exI [of _ st']) simp
  next
    case False
    define st' where "st' = onTaskClicked t (shiftKey up) s1"
    have g: "gesture ilb down (map (Pair Pointermove) moves @ [(ty, up)]) st = Inr (None, st')"
      using False by (simp add: gesture_def down run ending st'_def)
    have f: "itemsContainer st' = itemsContainer st" "arrows st' = arrows st"
      by (simp_all add: st'_def onTaskClicked_fields i1 a1)
    have o: "\<forall>u c. c \<noteq> ''selected'' \<and> c \<noteq> ''dragged''
            \<longrightarrow> (c \<in> classList (taskObj st' u)) = (c \<in> classList (taskObj st u))"
      by (simp add: st'_def onTaskClicked_other_class c1)
    have ev: "dispatched st'
               = dispatched st @ [Selectionchanged (if shiftKey up then getSelected st' else [t])]"
      unfolding st'_def by (subst onTaskClicked_event) (simp add: d1)
    have sel: "(''selected'' \<in> classList (taskObj st' u))
                  = (if shiftKey up
                     then (if u = t then ''selected'' \<notin> classList (taskObj st t)
                           else ''selected'' \<in> classList (taskObj st u))
                     else (u = t \<or> (''selected'' \<in> classList (taskObj st u) \<and> u \<notin> set (getTasks st))))" for u
      by (simp add: st'_def onTaskClicked_selected c1 t1)
    have gs: "getSelected st' = getSelected (onTaskClicked t (shiftKey up) st)"
    proof (rule getSelected_cong)
      show "itemsContainer st' = itemsContainer (onTaskClicked t (shiftKey up) st)"
        by (simp add: f onTaskClicked_fields)
      show "(''task'' \<in> classList (taskObj st' u))
              = (''task'' \<in> classList (taskObj (onTaskClicked t (shiftKey up) st) u))" for u
        using o by (simp add: onTaskClicked_other_class)
      show "(''selected'' \<in> classList (taskObj st' u))
              = (''selected'' \<in> classList (taskObj (onTaskClicked t (shiftKey up) st) u))" for u
        by (simp only: sel onTaskClicked_selected)
    qed
    have ev2: "dispatched st' = dispatched (onTaskClicked t (shiftKey up) st)"
      by (subst ev, subst onTaskClicked_event) (simp add: gs)
    from g f o ev sel gs ev2 False show ?thesis by (intro exI [of _ st']) simp
  qed
qed


section \<open>The link gesture\<close>

lemma onTaskClicked_asTask: "asTask (onTaskClicked t sh s) el = asTask s el"
  by (simp add: asTask_def onTaskClicked_other_class split: option.splits element.splits)

lemma classList_remove_frame:
  "classList_remove c u (s\<lparr>depObj := D, nextId := N, arrows := A\<rparr>)
     = (classList_remove c u s)\<lparr>depObj := D, nextId := N, arrows := A\<rparr>"
  by (simp add: classList_remove_def setClassList_def)

lemma fold_classList_remove_frame:
  "fold (classList_remove c) us (s\<lparr>depObj := D, nextId := N, arrows := A\<rparr>)
     = (fold (classList_remove c) us s)\<lparr>depObj := D, nextId := N, arrows := A\<rparr>"
proof (induction us arbitrary: s)
  case Nil
  show ?case by simp
next
  case (Cons a us)
  show ?case by (simp only: fold_simps classList_remove_frame Cons.IH)
qed

lemma asTask_frame: "asTask (s\<lparr>depObj := D, nextId := N, arrows := A\<rparr>) el = asTask s el"
  by (simp add: asTask_def split: option.splits element.splits)

lemma onTaskClicked_frame:
  "onTaskClicked t sh (s\<lparr>depObj := D, nextId := N, arrows := A\<rparr>)
     = (onTaskClicked t sh s)\<lparr>depObj := D, nextId := N, arrows := A\<rparr>"
  by (simp add: onTaskClicked_def sendSelectionChanged_def classList_toggle_def classList_add_def
      classList_remove_def setClassList_def resetSelected_def getSelected_def getTasks_def
      fold_classList_remove_frame)

lemma link_moves_ignored:
  "\<forall>m \<in> set moves. pointerId m \<noteq> pid \<Longrightarrow>
   handleEvents ilb (map (Pair Pointermove) moves @ rest) (Some (Link t pid path mvd)) s
     = handleEvents ilb rest (Some (Link t pid path mvd)) s"
  by (induction moves) (simp_all add: handleEvent_def link_onPointerMove_def)

lemma remove1_snoc: "x \<notin> set xs \<Longrightarrow> remove1 x (xs @ [x]) = xs"
  by (induction xs) auto

lemma updatePath_linked_eq:
  "d_to (depObj s p) \<noteq> None \<Longrightarrow>
   updatePath ilb p None s
     = Inr (s\<lparr>depObj := (depObj s)(p := (depObj s p)
              \<lparr>d_attr := (case updatePath_d ilb p None s of Inr a \<Rightarrow> a | Inl e \<Rightarrow> None)\<rparr>)\<rparr>)"
proof -
  assume "d_to (depObj s p) \<noteq> None"
  then obtain b where "d_to (depObj s p) = Some b" by auto
  from updatePath_d_linked [OF this] obtain a where "updatePath_d ilb p None s = Inr a" ..
  then show ?thesis by (simp add: updatePath_def)
qed

text \<open>The release of a link gesture, after the click part, on any state.\<close>

lemma link_release_discard:
  assumes "pointerId ev = pid"
    and "asTask (if \<not> mvd then onTaskClicked t (shiftKey ev) s else s) (elementFromPoint ev) = None"
    and "path \<in> set (arrows (if \<not> mvd then onTaskClicked t (shiftKey ev) s else s))"
  shows "link_onPointerEnd ilb t pid path mvd ev s
     = Inr (None, (if \<not> mvd then onTaskClicked t (shiftKey ev) s else s)
                  \<lparr>arrows := remove1 path (arrows (if \<not> mvd then onTaskClicked t (shiftKey ev) s else s))\<rparr>)"
  using assms by (simp add: link_onPointerEnd_def Let_def removeChild_def)

lemma link_release_commit:
  assumes "pointerId ev = pid"
    and "asTask (if \<not> mvd then onTaskClicked t (shiftKey ev) s else s) (elementFromPoint ev) = Some targetTask"
  shows "\<exists>s'. link_onPointerEnd ilb t pid path mvd ev s = Inr (None, s')
     \<and> (\<forall>u. classList (taskObj s' u)
            = classList (taskObj (if \<not> mvd then onTaskClicked t (shiftKey ev) s else s) u))
     \<and> dispatched s'
          = dispatched (if \<not> mvd then onTaskClicked t (shiftKey ev) s else s) @ [Newdependency]
     \<and> arrows s' = arrows (if \<not> mvd then onTaskClicked t (shiftKey ev) s else s)
     \<and> d_from (depObj s' path) = d_from (depObj (if \<not> mvd then onTaskClicked t (shiftKey ev) s else s) path)
     \<and> d_to (depObj s' path) = Some targetTask"
  using assms by (simp add: link_onPointerEnd_def Let_def updatePath_linked_eq)

text \<open>
  A gesture that starts on a task in link mode and gets no move event of its pointer
  before the release applies the click rules to the pressed task: every task has the
  classes the click gives it, and the events of the click are dispatched first. If moreover
  the element under the release point is not a task, the provisional path is discarded:
  the tasks, the children of \<open>arrows\<close> and the dependencies are those of the click alone,
  and no \<open>newdependency\<close> is dispatched.
\<close>

lemma link_gesture_click:
  assumes al: "allocated st"
    and tgt: "asTask st (target down) = Some t"
    and lm: "shiftKey down \<or> linkModeChecked st"
    and pid: "pointerId up = pointerId down"
    and ty: "ty \<noteq> Pointermove"
    and still: "\<forall>m \<in> set moves. pointerId m \<noteq> pointerId down"
  shows "\<exists>st'. gesture ilb down (map (Pair Pointermove) moves @ [(ty, up)]) st = Inr (None, st')
     \<and> (\<forall>u. classList (taskObj st' u) = classList (taskObj (onTaskClicked t (shiftKey up) st) u))
     \<and> (\<exists>rest. dispatched st' = dispatched (onTaskClicked t (shiftKey up) st) @ rest)
     \<and> (asTask st (elementFromPoint up) = None \<longrightarrow>
          taskObj st' = taskObj (onTaskClicked t (shiftKey up) st)
        \<and> itemsContainer st' = itemsContainer st
        \<and> arrows st' = arrows st
        \<and> (\<forall>d \<in> set (arrows st). depObj st' d = depObj st d)
        \<and> dispatched st' = dispatched (onTaskClicked t (shiftKey up) st))"
proof -
  let ?n = "nextId st"
  let ?D = "(depObj st)(?n := \<lparr>d_from = t, d_to = None, d_attr = None\<rparr>)"
  let ?s0 = "st\<lparr>depObj := ?D, nextId := Suc ?n, arrows := arrows st @ [?n]\<rparr>"
  let ?c = "onTaskClicked t (shiftKey up) st"
  let ?s1 = "?c\<lparr>depObj := ?D, nextId := Suc ?n, arrows := arrows st @ [?n]\<rparr>"
  have fresh: "?n \<notin> set (arrows st)" using al by (auto simp: allocated_def)
  have down: "onpointerdown down st = (Link t (pointerId down) ?n False, ?s0)"
    using tgt lm by (simp add: onpointerdown_def Let_def)
  have run: "gesture ilb down (map (Pair Pointermove) moves @ [(ty, up)]) st
       = handleEvents ilb [(ty, up)] (Some (Link t (pointerId down) ?n False)) ?s0"
    using still by (simp add: gesture_def down link_moves_ignored)
  have clicked: "(if \<not> False then onTaskClicked t (shiftKey up) ?s0 else ?s0) = ?s1"
    by (simp only: onTaskClicked_frame not_False_eq_True if_True)
  have ending: "handleEvent ilb ty up (Link t (pointerId down) ?n False) ?s0
       = link_onPointerEnd ilb t (pointerId down) ?n False up ?s0"
    using ty by (cases ty) (simp_all add: handleEvent_def)
  have hit: "asTask ?s1 (elementFromPoint up) = asTask st (elementFromPoint up)"
    by (simp only: asTask_frame onTaskClicked_asTask)
  have arr1: "arrows ?s1 = arrows st @ [?n]" by simp
  have cls1: "\<And>u. classList (taskObj ?s1 u) = classList (taskObj ?c u)" by simp
  have dis1: "dispatched ?s1 = dispatched ?c" by simp
  show ?thesis
  proof (cases "asTask st (elementFromPoint up)")
    case None
    define st' where "st' = ?s1\<lparr>arrows := remove1 ?n (arrows ?s1)\<rparr>"
    have "link_onPointerEnd ilb t (pointerId down) ?n False up ?s0 = Inr (None, st')"
      using link_release_discard [of up "pointerId down" False t ?s0 ?n ilb]
      unfolding clicked st'_def using pid hit None arr1 by simp
    then have g: "gesture ilb down (map (Pair Pointermove) moves @ [(ty, up)]) st = Inr (None, st')"
      by (simp only: run handleEvents.simps ending fst_conv snd_conv sum.case prod.case)
    have a1: "arrows st' = arrows st" using fresh by (simp add: st'_def remove1_snoc)
    have a2: "\<forall>d \<in> set (arrows st). depObj st' d = depObj st d"
      using fresh by (auto simp: st'_def)
    have a3: "taskObj st' = taskObj ?c" and a4: "itemsContainer st' = itemsContainer st"
      and a5: "dispatched st' = dispatched ?c"
      by (simp_all add: st'_def onTaskClicked_fields)
    have a6: "\<forall>u. classList (taskObj st' u) = classList (taskObj ?c u)" by (simp add: a3)
    have a7: "\<exists>rest. dispatched st' = dispatched ?c @ rest" by (simp add: a5)
    from g a1 a2 a3 a4 a5 a6 a7 show ?thesis by blast
  next
    case (Some targetTask)
    from link_release_commit [of up "pointerId down" False t ?s0 targetTask ilb ?n]
    obtain s' where
      r: "link_onPointerEnd ilb t (pointerId down) ?n False up ?s0 = Inr (None, s')"
      and cls: "\<forall>u. classList (taskObj s' u) = classList (taskObj ?s1 u)"
      and dis: "dispatched s' = dispatched ?s1 @ [Newdependency]"
      unfolding clicked using pid hit Some by auto
    have g: "gesture ilb down (map (Pair Pointermove) moves @ [(ty, up)]) st = Inr (None, s')"
      by (simp only: run handleEvents.simps ending r fst_conv snd_conv sum.case prod.case)
    have "\<forall>u. classList (taskObj s' u) = classList (taskObj ?c u)"
      using cls cls1 by simp
    moreover have "dispatched s' = dispatched ?c @ [Newdependency]"
      using dis dis1 by simp
    ultimately show ?thesis using g Some by auto
  qed
qed

section \<open>Referential integrity is kept by the operations that build the model\<close>

text \<open>
  The page as loaded has referential integrity, and \<open>addTask\<close>, \<open>addDependency\<close> and a
  whole link gesture keep it, as \<open>deleteTask\<close> does.
\<close>

lemma initialState_wf: "wf (initialState gb lay) \<and> allocated (initialState gb lay)"
  by (simp add: wf_def allocated_def initialState_def)

lemma addTask_wf:
  assumes "wf st" and "allocated st"
  shows "wf (snd (addTask a st)) \<and> allocated (snd (addTask a st))"
proof -
  let ?n = "nextId st"
  let ?st' = "snd (addTask a st)"
  have fresh: "?n \<notin> set (itemsContainer st)" using assms(2) by (auto simp: allocated_def)
  have items: "itemsContainer ?st' = itemsContainer st @ [?n]"
    and arr: "arrows ?st' = arrows st" and deps: "depObj ?st' = depObj st"
    and nxt: "nextId ?st' = Suc ?n"
    by (simp_all add: addTask_def Let_def)
  have old: "\<And>u. u \<noteq> ?n \<Longrightarrow> taskObj ?st' u = taskObj st u"
    by (simp add: addTask_def Let_def)
  have new: "t_from (taskObj ?st' ?n) = []" "t_to (taskObj ?st' ?n) = []"
    by (simp_all add: addTask_def Let_def)
  have noref: "\<forall>d \<in> set (arrows st). d_from (depObj st d) \<noteq> ?n \<and> d_to (depObj st d) \<noteq> Some ?n"
    using assms(1) fresh by (auto simp: wf_def)
  have adj: "\<forall>t \<in> set (itemsContainer st @ [?n]).
        distinct (t_from (taskObj ?st' t)) \<and>
        set (t_from (taskObj ?st' t)) = set (filter (\<lambda>d. d_from (depObj st d) = t) (arrows st)) \<and>
        distinct (t_to (taskObj ?st' t)) \<and>
        set (t_to (taskObj ?st' t)) = set (filter (\<lambda>d. d_to (depObj st d) = Some t) (arrows st))"
  proof
    fix t assume t: "t \<in> set (itemsContainer st @ [?n])"
    show "distinct (t_from (taskObj ?st' t)) \<and>
        set (t_from (taskObj ?st' t)) = set (filter (\<lambda>d. d_from (depObj st d) = t) (arrows st)) \<and>
        distinct (t_to (taskObj ?st' t)) \<and>
        set (t_to (taskObj ?st' t)) = set (filter (\<lambda>d. d_to (depObj st d) = Some t) (arrows st))"
    proof (cases "t = ?n")
      case True
      then show ?thesis using new noref by (auto simp: filter_empty_conv)
    next
      case False
      with t have "t \<in> set (itemsContainer st)" by simp
      then show ?thesis using assms(1) False by (simp add: old wf_def)
    qed
  qed
  have ends: "\<forall>d \<in> set (arrows st).
        d_from (depObj st d) \<in> set (itemsContainer st @ [?n]) \<and>
        (\<exists>b \<in> set (itemsContainer st @ [?n]). d_to (depObj st d) = Some b)"
    using assms(1) by (auto simp: wf_def)
  have dist: "distinct (itemsContainer st @ [?n])" "distinct (arrows st)"
    using assms(1) fresh by (simp_all add: wf_def)
  have "wf ?st'"
    unfolding wf_def items arr deps using dist ends adj by blast
  moreover have "allocated ?st'"
    using assms(2) by (auto simp: allocated_def items arr nxt less_Suc_eq)
  ultimately show ?thesis ..
qed


lemma addDependency_fields:
  assumes p: "find (\<lambda>t. textContent (taskObj st t) = predecessor dep) (getTasks st) = Some p"
    and s: "find (\<lambda>t. textContent (taskObj st t) = successor dep) (getTasks st) = Some s"
  shows "\<exists>st'. addDependency ilb dep st = Inr st'
           \<and> itemsContainer st' = itemsContainer st
           \<and> arrows st' = arrows st @ [nextId st]
           \<and> nextId st' = Suc (nextId st)
           \<and> (\<forall>d. d \<noteq> nextId st \<longrightarrow> depObj st' d = depObj st d)
           \<and> d_from (depObj st' (nextId st)) = p
           \<and> d_to (depObj st' (nextId st)) = Some s
           \<and> (\<forall>u. t_from (taskObj st' u)
                 = (if u = p then t_from (taskObj st u) @ [nextId st] else t_from (taskObj st u)))
           \<and> (\<forall>u. t_to (taskObj st' u)
                 = (if u = s then t_to (taskObj st u) @ [nextId st] else t_to (taskObj st u)))"
  by (simp add: addDependency_def p s Let_def updatePath_linked_eq)

lemma addDependency_wf:
  assumes w: "wf st" and al: "allocated st" and r: "addDependency ilb dep st = Inr st'"
  shows "wf st' \<and> allocated st'"
proof (cases "findTask st (predecessor dep) = None \<or> findTask st (successor dep) = None")
  case True
  then have "addDependency ilb dep st = Inr (st\<lparr>console := console st
      @ [(if findTask st (predecessor dep) = None
          then ''Could not add dependency: predecessor not found''
          else ''Could not add dependency: successor not found.'', dep)]\<rparr>)"
    by (auto simp: addDependency_def findTask_def split: option.splits)
  with r have "st' = st\<lparr>console := console st
      @ [(if findTask st (predecessor dep) = None
          then ''Could not add dependency: predecessor not found''
          else ''Could not add dependency: successor not found.'', dep)]\<rparr>"
    by simp
  then show ?thesis using w al by (simp add: wf_def allocated_def)
next
  case False
  then obtain p s where
    p: "find (\<lambda>t. textContent (taskObj st t) = predecessor dep) (getTasks st) = Some p"
    and s: "find (\<lambda>t. textContent (taskObj st t) = successor dep) (getTasks st) = Some s"
    by (auto simp: findTask_def)
  let ?n = "nextId st"
  from addDependency_fields [OF p s, of ilb] r have
    items: "itemsContainer st' = itemsContainer st"
    and arr: "arrows st' = arrows st @ [?n]"
    and nxt: "nextId st' = Suc ?n"
    and old: "\<And>d. d \<noteq> ?n \<Longrightarrow> depObj st' d = depObj st d"
    and nf: "d_from (depObj st' ?n) = p" and nt: "d_to (depObj st' ?n) = Some s"
    and frm: "\<And>u. t_from (taskObj st' u)
                 = (if u = p then t_from (taskObj st u) @ [?n] else t_from (taskObj st u))"
    and tto: "\<And>u. t_to (taskObj st' u)
                 = (if u = s then t_to (taskObj st u) @ [?n] else t_to (taskObj st u))"
    by auto
  have p_live: "p \<in> set (itemsContainer st)" and s_live: "s \<in> set (itemsContainer st)"
    using find_textContent [OF p] find_textContent [OF s] by simp_all
  have fresh: "?n \<notin> set (arrows st)" using al by (auto simp: allocated_def)
  have old': "depObj st' d = depObj st d" if "d \<in> set (arrows st)" for d
  proof -
    from that fresh have "d \<noteq> ?n" by auto
    then show ?thesis by (rule old)
  qed
  have f_eq: "\<And>P. filter (\<lambda>d. P (depObj st' d)) (arrows st) = filter (\<lambda>d. P (depObj st d)) (arrows st)"
    using old' by (auto intro: filter_cong)
  have ends: "\<forall>d \<in> set (arrows st').
        d_from (depObj st' d) \<in> set (itemsContainer st') \<and>
        (\<exists>b \<in> set (itemsContainer st'). d_to (depObj st' d) = Some b)"
    using w p_live s_live by (auto simp: arr items nf nt old' wf_def)
  have adj: "\<forall>t \<in> set (itemsContainer st').
        distinct (t_from (taskObj st' t)) \<and>
        set (t_from (taskObj st' t)) = set (filter (\<lambda>d. d_from (depObj st' d) = t) (arrows st')) \<and>
        distinct (t_to (taskObj st' t)) \<and>
        set (t_to (taskObj st' t)) = set (filter (\<lambda>d. d_to (depObj st' d) = Some t) (arrows st'))"
  proof
    fix t assume "t \<in> set (itemsContainer st')"
    then have t: "t \<in> set (itemsContainer st)" by (simp add: items)
    have o: "distinct (t_from (taskObj st t))"
      "set (t_from (taskObj st t)) = set (filter (\<lambda>d. d_from (depObj st d) = t) (arrows st))"
      "distinct (t_to (taskObj st t))"
      "set (t_to (taskObj st t)) = set (filter (\<lambda>d. d_to (depObj st d) = Some t) (arrows st))"
      using w t by (simp_all add: wf_def)
    have nin: "?n \<notin> set (t_from (taskObj st t))" "?n \<notin> set (t_to (taskObj st t))"
      using o fresh by auto
    have f1: "filter (\<lambda>d. d_from (depObj st' d) = t) (arrows st)
                = filter (\<lambda>d. d_from (depObj st d) = t) (arrows st)"
      using f_eq [of "\<lambda>x. d_from x = t"] .
    have f2: "filter (\<lambda>d. d_to (depObj st' d) = Some t) (arrows st)
                = filter (\<lambda>d. d_to (depObj st d) = Some t) (arrows st)"
      using f_eq [of "\<lambda>x. d_to x = Some t"] .
    show "distinct (t_from (taskObj st' t)) \<and>
        set (t_from (taskObj st' t)) = set (filter (\<lambda>d. d_from (depObj st' d) = t) (arrows st')) \<and>
        distinct (t_to (taskObj st' t)) \<and>
        set (t_to (taskObj st' t)) = set (filter (\<lambda>d. d_to (depObj st' d) = Some t) (arrows st'))"
      using o nin by (auto simp: frm tto arr nf nt f1 f2)
  qed
  have dist: "distinct (itemsContainer st')" "distinct (arrows st')"
    using w fresh by (simp_all add: items arr wf_def)
  have "wf st'" unfolding wf_def using dist ends adj by blast
  moreover have "allocated st'"
    using al by (auto simp: allocated_def items arr nxt less_Suc_eq)
  ultimately show ?thesis ..
qed

subsection \<open>The link gesture as a whole\<close>

lemma updatePath_dest_eq:
  "updatePath ilb p (Some q) s
     = Inr (s\<lparr>depObj := (depObj s)(p := (depObj s p)
              \<lparr>d_attr := (case updatePath_d ilb p (Some q) s of Inr a \<Rightarrow> a | Inl e \<Rightarrow> None)\<rparr>)\<rparr>)"
proof -
  from updatePath_d_dest obtain a where "updatePath_d ilb p (Some q) s = Inr a" ..
  then show ?thesis by (simp add: updatePath_def)
qed

text \<open>The move events of a link gesture only write the attribute d of the provisional path.\<close>

lemma link_moves:
  "\<exists>s'. handleEvents ilb (map (Pair Pointermove) moves @ rest) (Some (Link t pid path m)) s
          = handleEvents ilb rest
              (Some (Link t pid path (m \<or> (\<exists>mv \<in> set moves. pointerId mv = pid)))) s'
       \<and> s' = s\<lparr>depObj := depObj s'\<rparr>
       \<and> (\<forall>d. d \<noteq> path \<longrightarrow> depObj s' d = depObj s d)
       \<and> d_from (depObj s' path) = d_from (depObj s path)
       \<and> d_to (depObj s' path) = d_to (depObj s path)"
proof (induction moves arbitrary: s m)
  case Nil
  show ?case by (rule exI [of _ s]) simp
next
  case (Cons mv moves)
  show ?case
  proof (cases "pointerId mv = pid")
    case False
    then have step: "handleEvent ilb Pointermove mv (Link t pid path m) s
                 = Inr (Some (Link t pid path m), s)"
      by (simp add: handleEvent_def link_onPointerMove_def)
    from Cons.IH [of m s] obtain s' where
      "handleEvents ilb (map (Pair Pointermove) moves @ rest) (Some (Link t pid path m)) s
          = handleEvents ilb rest
              (Some (Link t pid path (m \<or> (\<exists>mv \<in> set moves. pointerId mv = pid)))) s'"
      "s' = s\<lparr>depObj := depObj s'\<rparr>"
      "\<forall>d. d \<noteq> path \<longrightarrow> depObj s' d = depObj s d"
      "d_from (depObj s' path) = d_from (depObj s path)"
      "d_to (depObj s' path) = d_to (depObj s path)"
      by blast
    with False step show ?thesis by auto
  next
    case True
    define s1 where "s1 = s\<lparr>depObj := (depObj s)(path := (depObj s path)
              \<lparr>d_attr := (case updatePath_d ilb path (Some \<lparr>p_x = offsetX mv, p_y = offsetY mv\<rparr>) s
                           of Inr a \<Rightarrow> a | Inl e \<Rightarrow> None)\<rparr>)\<rparr>"
    have step: "handleEvent ilb Pointermove mv (Link t pid path m) s
                 = Inr (Some (Link t pid path True), s1)"
      using True by (simp add: handleEvent_def link_onPointerMove_def updatePath_dest_eq s1_def)
    have s1: "s1 = s\<lparr>depObj := depObj s1\<rparr>" "\<forall>d. d \<noteq> path \<longrightarrow> depObj s1 d = depObj s d"
      "d_from (depObj s1 path) = d_from (depObj s path)"
      "d_to (depObj s1 path) = d_to (depObj s path)"
      by (simp_all add: s1_def)
    from Cons.IH [of True s1] obtain s' where
      r: "handleEvents ilb (map (Pair Pointermove) moves @ rest) (Some (Link t pid path True)) s1
          = handleEvents ilb rest (Some (Link t pid path True)) s'"
      and o: "s' = s1\<lparr>depObj := depObj s'\<rparr>"
      and d: "\<forall>d. d \<noteq> path \<longrightarrow> depObj s' d = depObj s1 d"
      "d_from (depObj s' path) = d_from (depObj s1 path)"
      "d_to (depObj s' path) = d_to (depObj s1 path)"
      by auto
    have o': "s' = s\<lparr>depObj := depObj s'\<rparr>"
      by (subst o, subst s1(1)) simp
    have "handleEvents ilb (map (Pair Pointermove) (mv # moves) @ rest) (Some (Link t pid path m)) s
          = handleEvents ilb rest
              (Some (Link t pid path (m \<or> (\<exists>mv \<in> set (mv # moves). pointerId mv = pid)))) s'"
      using True step r by simp
    with o' d s1 show ?thesis by auto
  qed
qed


lemma onTaskClicked_adjacency:
  "t_from (taskObj (onTaskClicked t sh s) u) = t_from (taskObj s u)"
  "t_to (taskObj (onTaskClicked t sh s) u) = t_to (taskObj s u)"
proof -
  have f: "t_from (taskObj (fold (classList_remove c) us s) u) = t_from (taskObj s u)
         \<and> t_to (taskObj (fold (classList_remove c) us s) u) = t_to (taskObj s u)" for c us s u
    by (induction us arbitrary: s) (simp_all add: classList_remove_def setClassList_def)
  show "t_from (taskObj (onTaskClicked t sh s) u) = t_from (taskObj s u)"
    "t_to (taskObj (onTaskClicked t sh s) u) = t_to (taskObj s u)"
    by (simp_all add: onTaskClicked_def sendSelectionChanged_def classList_toggle_def classList_add_def
      classList_remove_def setClassList_def resetSelected_def f)
qed

lemma link_release_discard_from:
  assumes "pointerId ev = pid"
    and "s1 = (if \<not> mvd then onTaskClicked t (shiftKey ev) s else s)"
    and "asTask s1 (elementFromPoint ev) = None"
    and "path \<in> set (arrows s1)"
  shows "link_onPointerEnd ilb t pid path mvd ev s
           = Inr (None, s1\<lparr>arrows := remove1 path (arrows s1)\<rparr>)"
  using assms by (simp add: link_onPointerEnd_def Let_def removeChild_def)

lemma link_release_commit_from:
  assumes "pointerId ev = pid"
    and "s1 = (if \<not> mvd then onTaskClicked t (shiftKey ev) s else s)"
    and "asTask s1 (elementFromPoint ev) = Some b"
  shows "\<exists>st'. link_onPointerEnd ilb t pid path mvd ev s = Inr (None, st')
       \<and> itemsContainer st' = itemsContainer s1 \<and> nextId st' = nextId s1
       \<and> arrows st' = arrows s1
       \<and> (\<forall>d. d \<noteq> path \<longrightarrow> depObj st' d = depObj s1 d)
       \<and> d_from (depObj st' path) = d_from (depObj s1 path)
       \<and> d_to (depObj st' path) = Some b
       \<and> dispatched st' = dispatched s1 @ [Newdependency]
       \<and> (\<forall>u. t_from (taskObj st' u)
                    = (if u = t then t_from (taskObj s1 u) @ [path] else t_from (taskObj s1 u)))
       \<and> (\<forall>u. t_to (taskObj st' u)
                    = (if u = b then t_to (taskObj s1 u) @ [path] else t_to (taskObj s1 u)))"
  using assms by (simp add: link_onPointerEnd_def Let_def updatePath_linked_eq)

text \<open>
  What a whole link gesture does: the click rules when no move event of its pointer came,
  and then either the provisional path is dropped again, or it is committed as a
  dependency from the pressed task to the task under the release point, whichever task
  that is.
\<close>

lemma link_gesture_outcome:
  assumes al: "allocated st"
    and tgt: "asTask st (target down) = Some t"
    and lm: "shiftKey down \<or> linkModeChecked st"
    and pid: "pointerId up = pointerId down"
    and ty: "ty \<noteq> Pointermove"
  shows "\<exists>st'. gesture ilb down (map (Pair Pointermove) moves @ [(ty, up)]) st = Inr (None, st')
     \<and> itemsContainer st' = itemsContainer st
     \<and> nextId st' = Suc (nextId st)
     \<and> (\<forall>d \<in> set (arrows st). depObj st' d = depObj st d)
     \<and> (case asTask st (elementFromPoint up) of
           None \<Rightarrow>
             arrows st' = arrows st
           \<and> dispatched st'
               = dispatched (if (\<exists>mv \<in> set moves. pointerId mv = pointerId down) then st
                             else onTaskClicked t (shiftKey up) st)
           \<and> (\<forall>u. t_from (taskObj st' u) = t_from (taskObj st u)
                  \<and> t_to (taskObj st' u) = t_to (taskObj st u))
         | Some b \<Rightarrow>
             arrows st' = arrows st @ [nextId st]
           \<and> d_from (depObj st' (nextId st)) = t
           \<and> d_to (depObj st' (nextId st)) = Some b
           \<and> dispatched st'
               = dispatched (if (\<exists>mv \<in> set moves. pointerId mv = pointerId down) then st
                             else onTaskClicked t (shiftKey up) st) @ [Newdependency]
           \<and> (\<forall>u. t_from (taskObj st' u)
                    = (if u = t then t_from (taskObj st u) @ [nextId st] else t_from (taskObj st u)))
           \<and> (\<forall>u. t_to (taskObj st' u)
                    = (if u = b then t_to (taskObj st u) @ [nextId st] else t_to (taskObj st u))))"
proof -
  let ?n = "nextId st"
  let ?pid = "pointerId down"
  let ?mvd = "\<exists>mv \<in> set moves. pointerId mv = ?pid"
  define c where "c = (if ?mvd then st else onTaskClicked t (shiftKey up) st)"
  let ?D = "(depObj st)(?n := \<lparr>d_from = t, d_to = None, d_attr = None\<rparr>)"
  let ?s0 = "st\<lparr>depObj := ?D, nextId := Suc ?n, arrows := arrows st @ [?n]\<rparr>"
  have fresh: "?n \<notin> set (arrows st)" using al by (auto simp: allocated_def)
  have down: "onpointerdown down st = (Link t ?pid ?n False, ?s0)"
    using tgt lm by (simp add: onpointerdown_def Let_def)
  from link_moves [of ilb moves "[(ty, up)]" t ?pid ?n False ?s0]
  obtain s' where
    run: "handleEvents ilb (map (Pair Pointermove) moves @ [(ty, up)]) (Some (Link t ?pid ?n False)) ?s0
          = handleEvents ilb [(ty, up)] (Some (Link t ?pid ?n ?mvd)) s'"
    and only: "s' = ?s0\<lparr>depObj := depObj s'\<rparr>"
    and other: "\<forall>d. d \<noteq> ?n \<longrightarrow> depObj s' d = depObj ?s0 d"
    and nfrom: "d_from (depObj s' ?n) = d_from (depObj ?s0 ?n)"
    by auto
  have s'_fields: "taskObj s' = taskObj st" "itemsContainer s' = itemsContainer st"
    "arrows s' = arrows st @ [?n]" "dispatched s' = dispatched st" "nextId s' = Suc ?n"
    by (subst only, simp)+
  have s'_frame: "s' = st\<lparr>depObj := depObj s', nextId := Suc ?n, arrows := arrows st @ [?n]\<rparr>"
    by (subst only) simp
  define s1 where "s1 = (if \<not> ?mvd then onTaskClicked t (shiftKey up) s' else s')"
  have s1_eq: "s1 = c\<lparr>depObj := depObj s', nextId := Suc ?n, arrows := arrows st @ [?n]\<rparr>"
  proof (cases ?mvd)
    case True
    then show ?thesis using s'_frame by (simp add: s1_def c_def)
  next
    case False
    have "onTaskClicked t (shiftKey up) s'
        = (onTaskClicked t (shiftKey up) st)\<lparr>depObj := depObj s', nextId := Suc ?n, arrows := arrows st @ [?n]\<rparr>"
      by (subst s'_frame) (rule onTaskClicked_frame)
    with False show ?thesis by (simp add: s1_def c_def)
  qed
  have c_fields: "itemsContainer c = itemsContainer st"
    "\<And>u. t_from (taskObj c u) = t_from (taskObj st u)"
    "\<And>u. t_to (taskObj c u) = t_to (taskObj st u)"
    by (simp_all add: c_def onTaskClicked_fields onTaskClicked_adjacency)
  have s1_fields: "itemsContainer s1 = itemsContainer st" "arrows s1 = arrows st @ [?n]"
    "depObj s1 = depObj s'" "dispatched s1 = dispatched c" "nextId s1 = Suc ?n"
    "\<And>u. t_from (taskObj s1 u) = t_from (taskObj st u)"
    "\<And>u. t_to (taskObj s1 u) = t_to (taskObj st u)"
    by (simp_all add: s1_eq c_fields)
  have hit: "asTask s1 (elementFromPoint up) = asTask st (elementFromPoint up)"
    by (simp add: s1_eq asTask_frame c_def onTaskClicked_asTask)
  have old: "depObj s' d = depObj st d" if "d \<in> set (arrows st)" for d
  proof -
    from that fresh have "d \<noteq> ?n" by auto
    with other show ?thesis by simp
  qed
  have ending: "handleEvent ilb ty up (Link t ?pid ?n ?mvd) s'
       = link_onPointerEnd ilb t ?pid ?n ?mvd up s'"
    using ty by (cases ty) (simp_all add: handleEvent_def)
  have run': "gesture ilb down (map (Pair Pointermove) moves @ [(ty, up)]) st
       = (case link_onPointerEnd ilb t ?pid ?n ?mvd up s' of Inl e \<Rightarrow> Inl e
          | Inr (g1, st1) \<Rightarrow> Inr (g1, st1))"
    by (simp add: gesture_def down run ending split: sum.splits)
  show ?thesis
  proof (cases "asTask st (elementFromPoint up)")
    case None
    define st' where "st' = s1\<lparr>arrows := remove1 ?n (arrows s1)\<rparr>"
    have h: "asTask s1 (elementFromPoint up) = None" using hit None by simp
    have m: "?n \<in> set (arrows s1)" by (simp add: s1_fields)
    have "link_onPointerEnd ilb t ?pid ?n ?mvd up s' = Inr (None, st')"
      unfolding st'_def by (rule link_release_discard_from [OF pid s1_def h m])
    then have g: "gesture ilb down (map (Pair Pointermove) moves @ [(ty, up)]) st = Inr (None, st')"
      by (simp add: run')
    have "itemsContainer st' = itemsContainer st" "nextId st' = Suc ?n"
      "arrows st' = arrows st" "dispatched st' = dispatched c"
      "\<forall>d \<in> set (arrows st). depObj st' d = depObj st d"
      "\<forall>u. t_from (taskObj st' u) = t_from (taskObj st u) \<and> t_to (taskObj st' u) = t_to (taskObj st u)"
      using fresh old by (simp_all add: st'_def s1_fields remove1_snoc)
    with g None show ?thesis by (auto simp: c_def)
  next
    case (Some b)
    have h: "asTask s1 (elementFromPoint up) = Some b" using hit Some by simp
    from link_release_commit_from [OF pid s1_def h, of ilb ?n]
    have "\<exists>st'. link_onPointerEnd ilb t ?pid ?n ?mvd up s' = Inr (None, st')
       \<and> itemsContainer st' = itemsContainer s1 \<and> nextId st' = nextId s1
       \<and> arrows st' = arrows s1
       \<and> (\<forall>d. d \<noteq> ?n \<longrightarrow> depObj st' d = depObj s1 d)
       \<and> d_from (depObj st' ?n) = d_from (depObj s1 ?n)
       \<and> d_to (depObj st' ?n) = Some b
       \<and> dispatched st' = dispatched s1 @ [Newdependency]
       \<and> (\<forall>u. t_from (taskObj st' u)
                    = (if u = t then t_from (taskObj s1 u) @ [?n] else t_from (taskObj s1 u)))
       \<and> (\<forall>u. t_to (taskObj st' u)
                    = (if u = b then t_to (taskObj s1 u) @ [?n] else t_to (taskObj s1 u)))" .
    then obtain st' where
      r: "link_onPointerEnd ilb t ?pid ?n ?mvd up s' = Inr (None, st')"
      and f: "itemsContainer st' = itemsContainer s1" "nextId st' = nextId s1"
       "arrows st' = arrows s1"
       "\<forall>d. d \<noteq> ?n \<longrightarrow> depObj st' d = depObj s1 d"
       "d_from (depObj st' ?n) = d_from (depObj s1 ?n)"
       "d_to (depObj st' ?n) = Some b"
       "dispatched st' = dispatched s1 @ [Newdependency]"
       "\<forall>u. t_from (taskObj st' u)
                    = (if u = t then t_from (taskObj s1 u) @ [?n] else t_from (taskObj s1 u))"
       "\<forall>u. t_to (taskObj st' u)
                    = (if u = b then t_to (taskObj s1 u) @ [?n] else t_to (taskObj s1 u))"
      by (elim exE conjE)
    have g: "gesture ilb down (map (Pair Pointermove) moves @ [(ty, up)]) st = Inr (None, st')"
      by (simp add: run' r)
    have olds: "\<forall>d \<in> set (arrows st). depObj st' d = depObj st d"
    proof
      fix d assume d: "d \<in> set (arrows st)"
      with fresh have "d \<noteq> ?n" by auto
      with f(4) have "depObj st' d = depObj s1 d" by simp
      with old [OF d] show "depObj st' d = depObj st d" by (simp add: s1_fields)
    qed
    have "d_from (depObj st' ?n) = t" using f(5) nfrom by (simp add: s1_fields)
    with g f olds Some show ?thesis by (simp add: s1_fields c_def)
  qed
qed


lemma wf_unchanged:
  assumes w: "wf st"
    and items: "itemsContainer st' = itemsContainer st"
    and arr: "arrows st' = arrows st"
    and old: "\<forall>d \<in> set (arrows st). depObj st' d = depObj st d"
    and adj: "\<forall>u. t_from (taskObj st' u) = t_from (taskObj st u)
                \<and> t_to (taskObj st' u) = t_to (taskObj st u)"
  shows "wf st'"
proof -
  have f_eq: "\<And>P. filter (\<lambda>d. P (depObj st' d)) (arrows st) = filter (\<lambda>d. P (depObj st d)) (arrows st)"
    using old by (auto intro: filter_cong)
  have f1: "\<And>t. filter (\<lambda>d. d_from (depObj st' d) = t) (arrows st)
                = filter (\<lambda>d. d_from (depObj st d) = t) (arrows st)"
    using f_eq [of "\<lambda>x. d_from x = t" for t] .
  have f2: "\<And>t. filter (\<lambda>d. d_to (depObj st' d) = Some t) (arrows st)
                = filter (\<lambda>d. d_to (depObj st d) = Some t) (arrows st)"
    using f_eq [of "\<lambda>x. d_to x = Some t" for t] .
  show ?thesis
    using w old unfolding wf_def items arr by (simp add: adj f1 f2)
qed

lemma wf_link_added:
  assumes w: "wf st"
    and fresh: "n \<notin> set (arrows st)"
    and p_live: "p \<in> set (itemsContainer st)" and b_live: "b \<in> set (itemsContainer st)"
    and items: "itemsContainer st' = itemsContainer st"
    and arr: "arrows st' = arrows st @ [n]"
    and old: "\<forall>d \<in> set (arrows st). depObj st' d = depObj st d"
    and nf: "d_from (depObj st' n) = p" and nt: "d_to (depObj st' n) = Some b"
    and frm: "\<forall>u. t_from (taskObj st' u)
                 = (if u = p then t_from (taskObj st u) @ [n] else t_from (taskObj st u))"
    and tto: "\<forall>u. t_to (taskObj st' u)
                 = (if u = b then t_to (taskObj st u) @ [n] else t_to (taskObj st u))"
  shows "wf st'"
proof -
  have f_eq: "\<And>P. filter (\<lambda>d. P (depObj st' d)) (arrows st) = filter (\<lambda>d. P (depObj st d)) (arrows st)"
    using old by (auto intro: filter_cong)
  have ends: "\<forall>d \<in> set (arrows st').
        d_from (depObj st' d) \<in> set (itemsContainer st') \<and>
        (\<exists>b \<in> set (itemsContainer st'). d_to (depObj st' d) = Some b)"
    using w p_live b_live old by (auto simp: arr items nf nt wf_def)
  have adj: "\<forall>t \<in> set (itemsContainer st').
        distinct (t_from (taskObj st' t)) \<and>
        set (t_from (taskObj st' t)) = set (filter (\<lambda>d. d_from (depObj st' d) = t) (arrows st')) \<and>
        distinct (t_to (taskObj st' t)) \<and>
        set (t_to (taskObj st' t)) = set (filter (\<lambda>d. d_to (depObj st' d) = Some t) (arrows st'))"
  proof
    fix t assume "t \<in> set (itemsContainer st')"
    then have t: "t \<in> set (itemsContainer st)" by (simp add: items)
    have o: "distinct (t_from (taskObj st t))"
      "set (t_from (taskObj st t)) = set (filter (\<lambda>d. d_from (depObj st d) = t) (arrows st))"
      "distinct (t_to (taskObj st t))"
      "set (t_to (taskObj st t)) = set (filter (\<lambda>d. d_to (depObj st d) = Some t) (arrows st))"
      using w t by (simp_all add: wf_def)
    have nin: "n \<notin> set (t_from (taskObj st t))" "n \<notin> set (t_to (taskObj st t))"
      using o fresh by auto
    have f1: "filter (\<lambda>d. d_from (depObj st' d) = t) (arrows st)
                = filter (\<lambda>d. d_from (depObj st d) = t) (arrows st)"
      using f_eq [of "\<lambda>x. d_from x = t"] .
    have f2: "filter (\<lambda>d. d_to (depObj st' d) = Some t) (arrows st)
                = filter (\<lambda>d. d_to (depObj st d) = Some t) (arrows st)"
      using f_eq [of "\<lambda>x. d_to x = Some t"] .
    show "distinct (t_from (taskObj st' t)) \<and>
        set (t_from (taskObj st' t)) = set (filter (\<lambda>d. d_from (depObj st' d) = t) (arrows st')) \<and>
        distinct (t_to (taskObj st' t)) \<and>
        set (t_to (taskObj st' t)) = set (filter (\<lambda>d. d_to (depObj st' d) = Some t) (arrows st'))"
      using o nin by (auto simp: frm tto arr nf nt f1 f2)
  qed
  have dist: "distinct (itemsContainer st')" "distinct (arrows st')"
    using w fresh by (simp_all add: items arr wf_def)
  show "wf st'" unfolding wf_def using dist ends adj by blast
qed

text \<open>A link gesture on a page with referential integrity ends in such a page.\<close>

lemma link_gesture_wf:
  assumes w: "wf st" and al: "allocated st"
    and tgt: "asTask st (target down) = Some t"
    and t_live: "t \<in> set (itemsContainer st)"
    and b_live: "\<forall>b. asTask st (elementFromPoint up) = Some b \<longrightarrow> b \<in> set (itemsContainer st)"
    and lm: "shiftKey down \<or> linkModeChecked st"
    and pid: "pointerId up = pointerId down"
    and ty: "ty \<noteq> Pointermove"
  shows "\<exists>st'. gesture ilb down (map (Pair Pointermove) moves @ [(ty, up)]) st = Inr (None, st')
           \<and> wf st' \<and> allocated st'"
proof -
  have fresh: "nextId st \<notin> set (arrows st)" using al by (auto simp: allocated_def)
  from link_gesture_outcome [OF al tgt lm pid ty, of ilb moves]
  obtain st' where
    g: "gesture ilb down (map (Pair Pointermove) moves @ [(ty, up)]) st = Inr (None, st')"
    and items: "itemsContainer st' = itemsContainer st"
    and nxt: "nextId st' = Suc (nextId st)"
    and old: "\<forall>d \<in> set (arrows st). depObj st' d = depObj st d"
    and rest: "case asTask st (elementFromPoint up) of
           None \<Rightarrow>
             arrows st' = arrows st
           \<and> dispatched st'
               = dispatched (if (\<exists>mv \<in> set moves. pointerId mv = pointerId down) then st
                             else onTaskClicked t (shiftKey up) st)
           \<and> (\<forall>u. t_from (taskObj st' u) = t_from (taskObj st u)
                  \<and> t_to (taskObj st' u) = t_to (taskObj st u))
         | Some b \<Rightarrow>
             arrows st' = arrows st @ [nextId st]
           \<and> d_from (depObj st' (nextId st)) = t
           \<and> d_to (depObj st' (nextId st)) = Some b
           \<and> dispatched st'
               = dispatched (if (\<exists>mv \<in> set moves. pointerId mv = pointerId down) then st
                             else onTaskClicked t (shiftKey up) st) @ [Newdependency]
           \<and> (\<forall>u. t_from (taskObj st' u)
                    = (if u = t then t_from (taskObj st u) @ [nextId st] else t_from (taskObj st u)))
           \<and> (\<forall>u. t_to (taskObj st' u)
                    = (if u = b then t_to (taskObj st u) @ [nextId st] else t_to (taskObj st u)))"
    by (elim exE conjE)
  have "wf st' \<and> allocated st'"
  proof (cases "asTask st (elementFromPoint up)")
    case None
    with rest have arr: "arrows st' = arrows st"
      and adj: "\<forall>u. t_from (taskObj st' u) = t_from (taskObj st u)
                  \<and> t_to (taskObj st' u) = t_to (taskObj st u)"
      by simp_all
    have "wf st'" by (rule wf_unchanged [OF w items arr old adj])
    moreover have "allocated st'"
      using al by (auto simp: allocated_def items arr nxt less_Suc_eq)
    ultimately show ?thesis ..
  next
    case (Some b)
    with rest have arr: "arrows st' = arrows st @ [nextId st]"
      and nf: "d_from (depObj st' (nextId st)) = t"
      and nt: "d_to (depObj st' (nextId st)) = Some b"
      and frm: "\<forall>u. t_from (taskObj st' u)
                    = (if u = t then t_from (taskObj st u) @ [nextId st] else t_from (taskObj st u))"
      and tto: "\<forall>u. t_to (taskObj st' u)
                    = (if u = b then t_to (taskObj st u) @ [nextId st] else t_to (taskObj st u))"
      by simp_all
    from b_live Some have bl: "b \<in> set (itemsContainer st)" by simp
    have "wf st'"
      by (rule wf_link_added [OF w fresh t_live bl items arr old nf nt frm tto])
    moreover have "allocated st'"
      using al by (auto simp: allocated_def items arr nxt less_Suc_eq)
    ultimately show ?thesis ..
  qed
  with g show ?thesis by blast
qed

section \<open>The example page, evaluated\<close>

lemma page0_fields:
  "taskObj page0 = (\<lambda>_. \<lparr>textContent = [], classList = {}, style_left = 0, style_top = 0,
                      offsetWidth = 0, offsetHeight = 0, t_from = [], t_to = []\<rparr>)"
  "depObj page0 = (\<lambda>_. \<lparr>d_from = 0, d_to = None, d_attr = None\<rparr>)"
  "nextId page0 = 0" "itemsContainer page0 = []" "arrows page0 = []"
  "panzoom page0 = \<lparr>pan = \<lparr>p_x = 0, p_y = 0\<rparr>, zoom = 1\<rparr>"
  "graphBox page0 = \<lparr>b_left = 0, b_top = 0, b_right = 800, b_bottom = 600\<rparr>"
  "layout page0 = (\<lambda>_. (100, 40))"
  "dispatched page0 = []" "console page0 = []" "linkModeChecked page0 = False"
  by (simp_all add: page0_def initialState_def)

lemma clearGraph_page0: "clearGraph page0 = page0"
  by (simp add: clearGraph_def getTasks_def getDependencies_def page0_fields)

lemma exampleTasksPage_fields:
  "itemsContainer exampleTasksPage = [0, Suc 0, 2]"
  "arrows exampleTasksPage = []"
  "nextId exampleTasksPage = 3"
  "dispatched exampleTasksPage = []"
  "console exampleTasksPage = []"
  "linkModeChecked exampleTasksPage = False"
  "panzoom exampleTasksPage = \<lparr>pan = \<lparr>p_x = 0, p_y = 0\<rparr>, zoom = 1\<rparr>"
  "graphBox exampleTasksPage = \<lparr>b_left = 0, b_top = 0, b_right = 800, b_bottom = 600\<rparr>"
  "layout exampleTasksPage = (\<lambda>_. (100, 40))"
  "depObj exampleTasksPage = (\<lambda>_. \<lparr>d_from = 0, d_to = None, d_attr = None\<rparr>)"
  "taskObj exampleTasksPage 0 = \<lparr>textContent = ''A'', classList = {''task''}, style_left = 10, style_top = 20,
       offsetWidth = 100, offsetHeight = 40, t_from = [], t_to = []\<rparr>"
  "taskObj exampleTasksPage (Suc 0) = \<lparr>textContent = ''B'', classList = {''task'', ''completed''}, style_left = 200, style_top = 20,
       offsetWidth = 100, offsetHeight = 40, t_from = [], t_to = []\<rparr>"
  "taskObj exampleTasksPage 2 = \<lparr>textContent = ''C'', classList = {''task''}, style_left = 400, style_top = 20,
       offsetWidth = 100, offsetHeight = 40, t_from = [], t_to = []\<rparr>"
  by (simp_all add: exampleTasksPage_def exampleDoc_def Let_def addTask_def taskArg_def page0_fields
      eval_nat_numeral)

lemma exampleTasksPage_getTasks: "getTasks exampleTasksPage = [0, Suc 0, 2]"
  by (simp add: getTasks_def exampleTasksPage_fields)

lemma examplePage_fields:
  "itemsContainer examplePage = [0, Suc 0, 2]"
  "arrows examplePage = [3, 4, 5, 6]"
  "nextId examplePage = 7"
  "dispatched examplePage = []"
  "console examplePage = []"
  "linkModeChecked examplePage = False"
  "panzoom examplePage = \<lparr>pan = \<lparr>p_x = 0, p_y = 0\<rparr>, zoom = 1\<rparr>"
  "graphBox examplePage = \<lparr>b_left = 0, b_top = 0, b_right = 800, b_bottom = 600\<rparr>"
  "layout examplePage = (\<lambda>_. (100, 40))"
  "taskObj examplePage 0 = \<lparr>textContent = ''A'', classList = {''task''}, style_left = 10, style_top = 20,
       offsetWidth = 100, offsetHeight = 40, t_from = [3, 5], t_to = [4, 5]\<rparr>"
  "taskObj examplePage (Suc 0) = \<lparr>textContent = ''B'', classList = {''task'', ''completed''}, style_left = 200, style_top = 20,
       offsetWidth = 100, offsetHeight = 40, t_from = [4, 6], t_to = [3]\<rparr>"
  "taskObj examplePage 2 = \<lparr>textContent = ''C'', classList = {''task''}, style_left = 400, style_top = 20,
       offsetWidth = 100, offsetHeight = 40, t_from = [], t_to = [6]\<rparr>"
  "depObj examplePage 3 = \<lparr>d_from = 0, d_to = Some (Suc 0), d_attr = None\<rparr>"
  "depObj examplePage 4 = \<lparr>d_from = Suc 0, d_to = Some 0, d_attr = None\<rparr>"
  "depObj examplePage 5 = \<lparr>d_from = 0, d_to = Some 0, d_attr = None\<rparr>"
  "depObj examplePage 6 = \<lparr>d_from = Suc 0, d_to = Some 2, d_attr = None\<rparr>"
  by (simp_all add: examplePage_def exampleDoc_def Let_def addDependency_def
      getTasks_def exampleTasksPage_fields updatePath_def updatePath_d_def ilb0_def)

lemma examplePage_dependencies:
  "forEachE (addDependency ilb0) (dependencies exampleDoc) exampleTasksPage = Inr examplePage"
proof -
  have "\<exists>s. forEachE (addDependency ilb0) (dependencies exampleDoc) exampleTasksPage = Inr s"
    by (simp add: exampleDoc_def Let_def addDependency_def
      getTasks_def exampleTasksPage_fields updatePath_def updatePath_d_def ilb0_def)
  then show ?thesis by (auto simp: examplePage_def)
qed

lemma examplePage_load: "loadGraph ilb0 exampleDoc page0 = Inr examplePage"
  by (simp add: loadGraph_def clearGraph_page0 exampleTasksPage_def [symmetric] examplePage_dependencies)

lemma examplePage_wf: "wf examplePage"
  by (simp add: wf_def examplePage_fields)

lemma examplePage_allocated: "allocated examplePage"
  by (simp add: allocated_def examplePage_fields)

lemma examplePage_linked: "incidentLinked examplePage 0"
  by (simp add: incidentLinked_def examplePage_fields)

theorem deleteTask_severs_witness:
  "wf examplePage \<and> 0 \<in> set (itemsContainer examplePage)
   \<and> (\<exists>st'. deleteTask 0 examplePage = Inr st' \<and> itemsContainer st' = [Suc 0, 2]
          \<and> arrows st' = [6] \<and> t_from (taskObj st' (Suc 0)) = [6] \<and> t_to (taskObj st' (Suc 0)) = []
          \<and> wf st')"
proof -
  have w: "wf examplePage" by (rule examplePage_wf)
  have m: "0 \<in> set (itemsContainer examplePage)" by (simp add: examplePage_fields)
  from deleteTask_severs [OF w m] obtain st' where
    "deleteTask 0 examplePage = Inr st'"
    "itemsContainer st' = remove1 0 (itemsContainer examplePage)"
    "arrows st' = filter (\<lambda>d. d_from (depObj examplePage d) \<noteq> 0 \<and> d_to (depObj examplePage d) \<noteq> Some 0)
                             (arrows examplePage)"
    "\<forall>u \<in> set (itemsContainer st').
                 t_from (taskObj st' u) = filter (\<lambda>d. d \<in> set (arrows st')) (t_from (taskObj examplePage u))
               \<and> t_to (taskObj st' u) = filter (\<lambda>d. d \<in> set (arrows st')) (t_to (taskObj examplePage u))"
    "wf st'"
    by blast
  then have "deleteTask 0 examplePage = Inr st' \<and> itemsContainer st' = [Suc 0, 2]
          \<and> arrows st' = [6] \<and> t_from (taskObj st' (Suc 0)) = [6] \<and> t_to (taskObj st' (Suc 0)) = []
          \<and> wf st'"
    by (simp add: examplePage_fields)
  with w m show ?thesis by blast
qed

theorem roundtrip_counterexample:
  "distinct (map name (tasks danglingDoc))
   \<and> roundTrip ilb0 danglingDoc page0 = Inr \<lparr>tasks = tasks danglingDoc, dependencies = []\<rparr>
   \<and> set (dependencies danglingDoc) \<noteq> set []"
  by (simp add: danglingDoc_def roundTrip_def loadGraph_def clearGraph_page0 Let_def addTask_def
      taskArg_def addDependency_def getTasks_def page0_fields getGraph_def getGraph_task_def
      getOffsetBox_def getDependencies_def)

theorem loadGraph_getGraph_roundtrip_witness:
  "allocated examplePage \<and> distinct (map name (tasks exampleDoc))
   \<and> predecessor ` set (dependencies exampleDoc) \<subseteq> name ` set (tasks exampleDoc)
   \<and> successor ` set (dependencies exampleDoc) \<subseteq> name ` set (tasks exampleDoc)
   \<and> (\<exists>g. roundTrip ilb0 exampleDoc examplePage = Inr g
          \<and> set (tasks g) = set (tasks exampleDoc)
          \<and> set (dependencies g) = set (dependencies exampleDoc))"
proof -
  have a: "allocated examplePage" by (rule examplePage_allocated)
  have d: "distinct (map name (tasks exampleDoc))" by (simp add: exampleDoc_def)
  have p: "predecessor ` set (dependencies exampleDoc) \<subseteq> name ` set (tasks exampleDoc)"
    by (simp add: exampleDoc_def)
  have s: "successor ` set (dependencies exampleDoc) \<subseteq> name ` set (tasks exampleDoc)"
    by (simp add: exampleDoc_def)
  from loadGraph_getGraph_roundtrip [OF a d p s, of ilb0] a d p s show ?thesis by blast
qed

theorem completeSelected_toggles_witness:
  "distinct (itemsContainer (onTaskClicked (Suc 0) True (onTaskClicked 0 False examplePage)))
   \<and> getSelected (onTaskClicked (Suc 0) True (onTaskClicked 0 False examplePage)) = [0, Suc 0]
   \<and> status (getGraph_task (onTaskClicked (Suc 0) True (onTaskClicked 0 False examplePage)) 0) = Todo
   \<and> status (getGraph_task
        (completeSelected (onTaskClicked (Suc 0) True (onTaskClicked 0 False examplePage))) 0) = Completed
   \<and> status (getGraph_task (onTaskClicked (Suc 0) True (onTaskClicked 0 False examplePage)) (Suc 0)) = Completed
   \<and> status (getGraph_task
        (completeSelected (onTaskClicked (Suc 0) True (onTaskClicked 0 False examplePage))) (Suc 0)) = Todo
   \<and> taskObj (completeSelected (onTaskClicked (Suc 0) True (onTaskClicked 0 False examplePage))) 2
        = taskObj (onTaskClicked (Suc 0) True (onTaskClicked 0 False examplePage)) 2
   \<and> dispatched (completeSelected (onTaskClicked (Suc 0) True (onTaskClicked 0 False examplePage)))
        = dispatched (onTaskClicked (Suc 0) True (onTaskClicked 0 False examplePage))"
proof -
  let ?s = "onTaskClicked (Suc 0) True (onTaskClicked 0 False examplePage)"
  have items: "itemsContainer ?s = [0, Suc 0, 2]"
    by (simp add: onTaskClicked_fields examplePage_fields)
  have d: "distinct (itemsContainer ?s)" by (simp add: items)
  have sel: "getSelected ?s = [0, Suc 0]"
    by (simp add: getSelected_def getTasks_def items onTaskClicked_def sendSelectionChanged_def
        resetSelected_def classList_add_def classList_toggle_def classList_remove_def setClassList_def
        examplePage_fields)
  have st: "status (getGraph_task ?s 0) = Todo" "status (getGraph_task ?s (Suc 0)) = Completed"
    by (simp_all add: getGraph_task_def Let_def onTaskClicked_other_class examplePage_fields)
  from completeSelected_toggles [OF d] sel st d show ?thesis by simp
qed

theorem addDependency_endpoint_not_found_witness:
  "(findTask examplePage (predecessor unknownSuccessor) = None
      \<or> findTask examplePage (successor unknownSuccessor) = None)
   \<and> addDependency ilb0 unknownSuccessor examplePage
       = Inr (examplePage\<lparr>console :=
                [(''Could not add dependency: successor not found.'', unknownSuccessor)]\<rparr>)
   \<and> forEachE (addDependency ilb0) [unknownSuccessor, \<lparr>predecessor = ''C'', successor = ''A''\<rparr>]
         examplePage
       = forEachE (addDependency ilb0) [\<lparr>predecessor = ''C'', successor = ''A''\<rparr>]
           (examplePage\<lparr>console :=
                [(''Could not add dependency: successor not found.'', unknownSuccessor)]\<rparr>)"
proof -
  have p: "findTask examplePage (predecessor unknownSuccessor) = Some 0"
    by (simp add: findTask_def getTasks_def unknownSuccessor_def examplePage_fields)
  have h: "findTask examplePage (successor unknownSuccessor) = None"
    by (simp add: findTask_def getTasks_def unknownSuccessor_def examplePage_fields)
  then have hyp: "findTask examplePage (predecessor unknownSuccessor) = None
      \<or> findTask examplePage (successor unknownSuccessor) = None" ..
  have msg: "loggedError (notFoundMessage examplePage unknownSuccessor) unknownSuccessor examplePage
       = examplePage\<lparr>console :=
                [(''Could not add dependency: successor not found.'', unknownSuccessor)]\<rparr>"
    by (simp add: loggedError_def notFoundMessage_def p examplePage_fields)
  from addDependency_endpoint_not_found [OF hyp, of ilb0 "[\<lparr>predecessor = ''C'', successor = ''A''\<rparr>]"]
  show ?thesis using hyp by (simp only: msg)
qed

theorem addTask_position_witness:
  "a_pos placed = Some \<lparr>p_x = 7, p_y = 8\<rparr>
   \<and> taskPos (taskObj (snd (addTask placed examplePage)) (fst (addTask placed examplePage)))
       = \<lparr>p_x = 7, p_y = 8\<rparr>
   \<and> a_pos unplaced = None \<and> zoom (panzoom examplePage) = 1
   \<and> getBoxCenter (getOffsetBox (taskObj (snd (addTask unplaced examplePage))
                                         (fst (addTask unplaced examplePage))))
       = \<lparr>p_x = 400, p_y = 300\<rparr>
   \<and> updatePanzoom_transform \<lparr>p_x = 0, p_y = 0\<rparr> (panzoom examplePage)
        (getBoxCenter (getOffsetBox (taskObj (snd (addTask unplaced examplePage))
                                             (fst (addTask unplaced examplePage)))))
       = getBoxCenter (graphBox examplePage)"
proof -
  have p: "a_pos placed = Some \<lparr>p_x = 7, p_y = 8\<rparr>" by (simp add: placed_def)
  have u: "a_pos unplaced = None" by (simp add: unplaced_def)
  have z: "zoom (panzoom examplePage) = 1" by (simp add: examplePage_fields)
  have c: "\<lparr>p_x = p_x (getBoxCenter (graphBox examplePage)) - p_x (pan (panzoom examplePage)),
            p_y = p_y (getBoxCenter (graphBox examplePage)) - p_y (pan (panzoom examplePage))\<rparr>
           = \<lparr>p_x = 400, p_y = 300\<rparr>"
    by (simp add: getBoxCenter_def examplePage_fields)
  from addTask_position [of placed "\<lparr>p_x = 7, p_y = 8\<rparr>" examplePage] p
  have r1: "taskPos (taskObj (snd (addTask placed examplePage)) (fst (addTask placed examplePage)))
       = \<lparr>p_x = 7, p_y = 8\<rparr>"
    by blast
  from addTask_position [of unplaced _ examplePage "\<lparr>p_x = 0, p_y = 0\<rparr>"] u z
  have r2: "getBoxCenter (getOffsetBox (taskObj (snd (addTask unplaced examplePage))
                                         (fst (addTask unplaced examplePage))))
       = \<lparr>p_x = 400, p_y = 300\<rparr>
   \<and> updatePanzoom_transform \<lparr>p_x = 0, p_y = 0\<rparr> (panzoom examplePage)
        (getBoxCenter (getOffsetBox (taskObj (snd (addTask unplaced examplePage))
                                             (fst (addTask unplaced examplePage)))))
       = getBoxCenter (graphBox examplePage)"
    unfolding c by blast
  from p r1 u z r2 show ?thesis by blast
qed

lemma zoomedPanned_fields:
  "panzoom zoomedPanned = \<lparr>pan = \<lparr>p_x = 10, p_y = 0\<rparr>, zoom = 1.1\<rparr>"
  "graphBox zoomedPanned = \<lparr>b_left = 0, b_top = 0, b_right = 800, b_bottom = 600\<rparr>"
  "nextId zoomedPanned = 0"
  "layout zoomedPanned = (\<lambda>_. (100, 40))"
  by (simp_all add: zoomedPanned_def gesture_def onpointerdown_def asTask_def panPress_def pointerAt_def
     onGraphDragStart_def handleEvent_def pan_onPointerMove_def onwheel_def page0_fields
     sendSelectionChanged_def resetSelected_def getSelected_def getTasks_def applyZoomFactor_def
     snap_def wheelFactor_def)

theorem addTask_view_centre_counterexample:
  "a_pos unplaced = None
   \<and> updatePanzoom_transform \<lparr>p_x = 0, p_y = 0\<rparr> (panzoom zoomedPanned)
        (getBoxCenter (getOffsetBox (taskObj (snd (addTask unplaced zoomedPanned))
                                             (fst (addTask unplaced zoomedPanned)))))
       \<noteq> getBoxCenter (graphBox zoomedPanned)
   \<and> updatePanzoom_transform (getBoxCenter (graphBox zoomedPanned)) (panzoom zoomedPanned)
        (getBoxCenter (getOffsetBox (taskObj (snd (addTask unplaced zoomedPanned))
                                             (fst (addTask unplaced zoomedPanned)))))
       \<noteq> getBoxCenter (graphBox zoomedPanned)"
  by (simp add: unplaced_def addTask_def Let_def computeCenteredPos_def getViewCenter_def
      getBoxCenter_def getOffsetBox_def updatePanzoom_transform_def zoomedPanned_fields)

lemma pressA_fields:
  "pointerId (pressA ox oy sh) = 1" "clientX (pressA ox oy sh) = 10 + ox"
  "clientY (pressA ox oy sh) = 20 + oy"
  "offsetX (pressA ox oy sh) = ox" "offsetY (pressA ox oy sh) = oy" "shiftKey (pressA ox oy sh) = sh"
  "target (pressA ox oy sh) = Some (TaskElement 0)"
  "elementFromPoint (pressA ox oy sh) = Some (TaskElement 0)"
  by (simp_all add: pressA_def)

lemma pointerAt_fields:
  "pointerId (pointerAt a b sh el) = 1" "clientX (pointerAt a b sh el) = a" "clientY (pointerAt a b sh el) = b"
  "offsetX (pointerAt a b sh el) = a" "offsetY (pointerAt a b sh el) = b" "shiftKey (pointerAt a b sh el) = sh"
  "target (pointerAt a b sh el) = Some OtherElement" "elementFromPoint (pointerAt a b sh el) = el"
  by (simp_all add: pointerAt_def)

lemma asTask_examplePage:
  "asTask examplePage (Some (TaskElement 0)) = Some 0"
  "asTask examplePage (Some OtherElement) = None"
  by (simp_all add: asTask_def examplePage_fields)

lemma selectedBPage_fields:
  "itemsContainer selectedBPage = [0, Suc 0, 2]"
  "dispatched selectedBPage = [Selectionchanged [Suc 0]]"
  "linkModeChecked selectedBPage = False"
  "classList (taskObj selectedBPage 0) = {''task''}"
  "classList (taskObj selectedBPage (Suc 0)) = {''selected'', ''task'', ''completed''}"
  "classList (taskObj selectedBPage 2) = {''task''}"
  "getTasks selectedBPage = [0, Suc 0, 2]"
  "getSelected selectedBPage = [Suc 0]"
  "incidentLinked selectedBPage 0"
  by (simp_all add: selectedBPage_def onTaskClicked_def sendSelectionChanged_def resetSelected_def
      getSelected_def getTasks_def classList_add_def classList_remove_def setClassList_def
      incidentLinked_def examplePage_fields)

theorem drag_gesture_taskmoved_witness:
  "asTask selectedBPage (target (pressA 5 5 False)) = Some 0
   \<and> \<not> shiftKey (pressA 5 5 False) \<and> \<not> linkModeChecked selectedBPage
   \<and> incidentLinked selectedBPage 0
   \<and> pointerId (pointerAt 25 25 False (Some (TaskElement 0))) = pointerId (pressA 5 5 False)
   \<and> getSelected selectedBPage = [Suc 0]
   \<and> dispatched selectedBPage = [Selectionchanged [Suc 0]]
   \<and> exceededThreshold \<lparr>p_x = 15, p_y = 25\<rparr> 1 [pointerAt 25 25 False (Some (TaskElement 0))]
   \<and> (\<exists>st'. gesture ilb0 (pressA 5 5 False)
               [(Pointermove, pointerAt 25 25 False (Some (TaskElement 0))),
                (Pointerup, pointerAt 25 25 False (Some (TaskElement 0)))] selectedBPage = Inr (None, st')
          \<and> dispatched st' = [Selectionchanged [Suc 0], Taskmoved 0]
          \<and> getSelected st' = [Suc 0])
   \<and> \<not> exceededThreshold \<lparr>p_x = 15, p_y = 25\<rparr> 1 [pointerAt 18 25 False (Some (TaskElement 0))]
   \<and> (\<exists>st'. gesture ilb0 (pressA 5 5 False)
               [(Pointermove, pointerAt 18 25 False (Some (TaskElement 0))),
                (Pointerup, pointerAt 18 25 False (Some (TaskElement 0)))] selectedBPage = Inr (None, st')
          \<and> dispatched st' = [Selectionchanged [Suc 0], Selectionchanged [0]]
          \<and> getSelected st' = [0])
   \<and> (\<exists>st'. gesture ilb0 (pressA 5 5 False)
               [(Pointermove, pointerAt 18 25 False (Some (TaskElement 0))),
                (Pointerup, pointerAt 18 25 True (Some (TaskElement 0)))] selectedBPage = Inr (None, st')
          \<and> dispatched st' = [Selectionchanged [Suc 0], Selectionchanged [0, Suc 0]]
          \<and> getSelected st' = [0, Suc 0])"
proof -
  have h1: "asTask selectedBPage (target (pressA 5 5 False)) = Some 0"
    by (simp add: pressA_fields asTask_def selectedBPage_fields)
  have h2: "\<not> shiftKey (pressA 5 5 False)" by (simp add: pressA_fields)
  have h3: "\<not> linkModeChecked selectedBPage" by (simp add: selectedBPage_fields)
  have h4: "incidentLinked selectedBPage 0" by (rule selectedBPage_fields)
  have h5: "pointerId (pointerAt a b sh (Some (TaskElement 0))) = pointerId (pressA 5 5 False)" for a b sh
    by (simp add: pressA_fields pointerAt_fields)
  have h6: "Pointerup \<noteq> Pointermove" by simp
  have far: "exceededThreshold \<lparr>p_x = 15, p_y = 25\<rparr> 1 [pointerAt 25 25 False (Some (TaskElement 0))]"
    by (simp add: exceededThreshold_def squaredDistance_def pointerAt_fields)
  have near: "\<not> exceededThreshold \<lparr>p_x = 15, p_y = 25\<rparr> 1 [pointerAt 18 25 False (Some (TaskElement 0))]"
    by (simp add: exceededThreshold_def squaredDistance_def pointerAt_fields)
  from drag_gesture_taskmoved [OF h1 h2 h3 h4 h5 [of 25 25 False] h6, where ilb = ilb0
      and moves = "[pointerAt 25 25 False (Some (TaskElement 0))]"]
  obtain st1 where
    g1: "gesture ilb0 (pressA 5 5 False)
          (map (Pair Pointermove) [pointerAt 25 25 False (Some (TaskElement 0))]
             @ [(Pointerup, pointerAt 25 25 False (Some (TaskElement 0)))]) selectedBPage = Inr (None, st1)"
    and i1: "itemsContainer st1 = itemsContainer selectedBPage"
    and o1: "\<forall>u c. c \<noteq> ''selected'' \<and> c \<noteq> ''dragged''
            \<longrightarrow> (c \<in> classList (taskObj st1 u)) = (c \<in> classList (taskObj selectedBPage u))"
    and b1: "if exceededThreshold \<lparr>p_x = clientX (pressA 5 5 False), p_y = clientY (pressA 5 5 False)\<rparr>
                 (pointerId (pressA 5 5 False)) [pointerAt 25 25 False (Some (TaskElement 0))]
        then dispatched st1 = dispatched selectedBPage @ [Taskmoved 0]
           \<and> (\<forall>u. (''selected'' \<in> classList (taskObj st1 u)) = (''selected'' \<in> classList (taskObj selectedBPage u)))
        else dispatched st1
               = dispatched selectedBPage @ [Selectionchanged (if shiftKey (pointerAt 25 25 False (Some (TaskElement 0))) then getSelected st1 else [0])]
           \<and> (\<forall>u. (''selected'' \<in> classList (taskObj st1 u))
                  = (if shiftKey (pointerAt 25 25 False (Some (TaskElement 0)))
                     then (if u = 0 then ''selected'' \<notin> classList (taskObj selectedBPage 0)
                           else ''selected'' \<in> classList (taskObj selectedBPage u))
                     else (u = 0 \<or> (''selected'' \<in> classList (taskObj selectedBPage u) \<and> u \<notin> set (getTasks selectedBPage)))))
           \<and> getSelected st1 = getSelected (onTaskClicked 0 (shiftKey (pointerAt 25 25 False (Some (TaskElement 0)))) selectedBPage)
           \<and> dispatched st1 = dispatched (onTaskClicked 0 (shiftKey (pointerAt 25 25 False (Some (TaskElement 0)))) selectedBPage)"
    by (elim exE conjE)
  from b1 far have d1: "dispatched st1 = [Selectionchanged [Suc 0], Taskmoved 0]"
    and s1: "\<And>u. (''selected'' \<in> classList (taskObj st1 u)) = (''selected'' \<in> classList (taskObj selectedBPage u))"
    by (simp_all add: pressA_fields selectedBPage_fields)
  have k1: "\<And>u. (''task'' \<in> classList (taskObj st1 u)) = (''task'' \<in> classList (taskObj selectedBPage u))"
    using o1 by simp
  have r1: "\<exists>st'. gesture ilb0 (pressA 5 5 False)
               [(Pointermove, pointerAt 25 25 False (Some (TaskElement 0))),
                (Pointerup, pointerAt 25 25 False (Some (TaskElement 0)))] selectedBPage = Inr (None, st')
          \<and> dispatched st' = [Selectionchanged [Suc 0], Taskmoved 0]
          \<and> getSelected st' = [Suc 0]"
    using g1 d1 by (intro exI [of _ st1]) (simp add: getSelected_def getTasks_def i1 s1 k1 selectedBPage_fields)
  from drag_gesture_taskmoved [OF h1 h2 h3 h4 h5 [of 18 25 False] h6, where ilb = ilb0
      and moves = "[pointerAt 18 25 False (Some (TaskElement 0))]"]
  obtain st2 where
    g2: "gesture ilb0 (pressA 5 5 False)
          (map (Pair Pointermove) [pointerAt 18 25 False (Some (TaskElement 0))]
             @ [(Pointerup, pointerAt 18 25 False (Some (TaskElement 0)))]) selectedBPage = Inr (None, st2)"
    and i2: "itemsContainer st2 = itemsContainer selectedBPage"
    and o2: "\<forall>u c. c \<noteq> ''selected'' \<and> c \<noteq> ''dragged''
            \<longrightarrow> (c \<in> classList (taskObj st2 u)) = (c \<in> classList (taskObj selectedBPage u))"
    and b2: "if exceededThreshold \<lparr>p_x = clientX (pressA 5 5 False), p_y = clientY (pressA 5 5 False)\<rparr>
                 (pointerId (pressA 5 5 False)) [pointerAt 18 25 False (Some (TaskElement 0))]
        then dispatched st2 = dispatched selectedBPage @ [Taskmoved 0]
           \<and> (\<forall>u. (''selected'' \<in> classList (taskObj st2 u)) = (''selected'' \<in> classList (taskObj selectedBPage u)))
        else dispatched st2
               = dispatched selectedBPage @ [Selectionchanged (if shiftKey (pointerAt 18 25 False (Some (TaskElement 0))) then getSelected st2 else [0])]
           \<and> (\<forall>u. (''selected'' \<in> classList (taskObj st2 u))
                  = (if shiftKey (pointerAt 18 25 False (Some (TaskElement 0)))
                     then (if u = 0 then ''selected'' \<notin> classList (taskObj selectedBPage 0)
                           else ''selected'' \<in> classList (taskObj selectedBPage u))
                     else (u = 0 \<or> (''selected'' \<in> classList (taskObj selectedBPage u) \<and> u \<notin> set (getTasks selectedBPage)))))
           \<and> getSelected st2 = getSelected (onTaskClicked 0 (shiftKey (pointerAt 18 25 False (Some (TaskElement 0)))) selectedBPage)
           \<and> dispatched st2 = dispatched (onTaskClicked 0 (shiftKey (pointerAt 18 25 False (Some (TaskElement 0)))) selectedBPage)"
    by (elim exE conjE)
  from b2 near have d2: "dispatched st2 = [Selectionchanged [Suc 0], Selectionchanged [0]]"
    and s2: "\<And>u. (''selected'' \<in> classList (taskObj st2 u))
                = (u = 0 \<or> (''selected'' \<in> classList (taskObj selectedBPage u) \<and> u \<notin> set (getTasks selectedBPage)))"
    by (simp_all add: pressA_fields pointerAt_fields selectedBPage_fields)
  have k2: "\<And>u. (''task'' \<in> classList (taskObj st2 u)) = (''task'' \<in> classList (taskObj selectedBPage u))"
    using o2 by simp
  have r2: "\<exists>st'. gesture ilb0 (pressA 5 5 False)
               [(Pointermove, pointerAt 18 25 False (Some (TaskElement 0))),
                (Pointerup, pointerAt 18 25 False (Some (TaskElement 0)))] selectedBPage = Inr (None, st')
          \<and> dispatched st' = [Selectionchanged [Suc 0], Selectionchanged [0]]
          \<and> getSelected st' = [0]"
    using g2 d2 by (intro exI [of _ st2]) (simp add: getSelected_def getTasks_def i2 s2 k2 selectedBPage_fields)
  from drag_gesture_taskmoved [OF h1 h2 h3 h4 h5 [of 18 25 True] h6, where ilb = ilb0
      and moves = "[pointerAt 18 25 False (Some (TaskElement 0))]"]
  obtain st3 where
    g3: "gesture ilb0 (pressA 5 5 False)
          (map (Pair Pointermove) [pointerAt 18 25 False (Some (TaskElement 0))]
             @ [(Pointerup, pointerAt 18 25 True (Some (TaskElement 0)))]) selectedBPage = Inr (None, st3)"
    and i3: "itemsContainer st3 = itemsContainer selectedBPage"
    and o3: "\<forall>u c. c \<noteq> ''selected'' \<and> c \<noteq> ''dragged''
            \<longrightarrow> (c \<in> classList (taskObj st3 u)) = (c \<in> classList (taskObj selectedBPage u))"
    and b3: "if exceededThreshold \<lparr>p_x = clientX (pressA 5 5 False), p_y = clientY (pressA 5 5 False)\<rparr>
                 (pointerId (pressA 5 5 False)) [pointerAt 18 25 False (Some (TaskElement 0))]
        then dispatched st3 = dispatched selectedBPage @ [Taskmoved 0]
           \<and> (\<forall>u. (''selected'' \<in> classList (taskObj st3 u)) = (''selected'' \<in> classList (taskObj selectedBPage u)))
        else dispatched st3
               = dispatched selectedBPage @ [Selectionchanged (if shiftKey (pointerAt 18 25 True (Some (TaskElement 0))) then getSelected st3 else [0])]
           \<and> (\<forall>u. (''selected'' \<in> classList (taskObj st3 u))
                  = (if shiftKey (pointerAt 18 25 True (Some (TaskElement 0)))
                     then (if u = 0 then ''selected'' \<notin> classList (taskObj selectedBPage 0)
                           else ''selected'' \<in> classList (taskObj selectedBPage u))
                     else (u = 0 \<or> (''selected'' \<in> classList (taskObj selectedBPage u) \<and> u \<notin> set (getTasks selectedBPage)))))
           \<and> getSelected st3 = getSelected (onTaskClicked 0 (shiftKey (pointerAt 18 25 True (Some (TaskElement 0)))) selectedBPage)
           \<and> dispatched st3 = dispatched (onTaskClicked 0 (shiftKey (pointerAt 18 25 True (Some (TaskElement 0)))) selectedBPage)"
    by (elim exE conjE)
  from b3 near have d3: "dispatched st3 = [Selectionchanged [Suc 0], Selectionchanged (getSelected st3)]"
    and s3: "\<And>u. (''selected'' \<in> classList (taskObj st3 u))
                = (if u = 0 then ''selected'' \<notin> classList (taskObj selectedBPage 0)
                           else ''selected'' \<in> classList (taskObj selectedBPage u))"
    by (simp_all add: pressA_fields pointerAt_fields selectedBPage_fields)
  have k3: "\<And>u. (''task'' \<in> classList (taskObj st3 u)) = (''task'' \<in> classList (taskObj selectedBPage u))"
    using o3 by simp
  have sel3: "getSelected st3 = [0, Suc 0]"
    by (simp add: getSelected_def getTasks_def i3 s3 k3 selectedBPage_fields)
  have r3: "\<exists>st'. gesture ilb0 (pressA 5 5 False)
               [(Pointermove, pointerAt 18 25 False (Some (TaskElement 0))),
                (Pointerup, pointerAt 18 25 True (Some (TaskElement 0)))] selectedBPage = Inr (None, st')
          \<and> dispatched st' = [Selectionchanged [Suc 0], Selectionchanged [0, Suc 0]]
          \<and> getSelected st' = [0, Suc 0]"
    using g3 d3 sel3 by (intro exI [of _ st3]) simp
  from h1 h2 h3 h4 h5 [of 25 25 False] selectedBPage_fields(8,2) far r1 near r2 r3 show ?thesis by blast
qed

theorem drag_onPointerMove_repositions_witness:
  "incidentLinked examplePage 0
   \<and> pointerId (pointerAt 18 25 False (Some (TaskElement 0))) = 1
   \<and> (\<exists>st'. drag_onPointerMove ilb0 0 1 \<lparr>p_x = 15, p_y = 25\<rparr> 5 5 False
                (pointerAt 18 25 False (Some (TaskElement 0))) examplePage
              = Inr (Some (Drag 0 1 \<lparr>p_x = 15, p_y = 25\<rparr> 5 5 False), st')
          \<and> taskPos (taskObj st' 0) = \<lparr>p_x = 13, p_y = 20\<rparr>
          \<and> d_attr (depObj st' 3) = None)"
proof -
  have h1: "incidentLinked examplePage 0" by (rule examplePage_linked)
  have h2: "pointerId (pointerAt 18 25 False (Some (TaskElement 0))) = 1" by (simp add: pointerAt_fields)
  from drag_onPointerMove_repositions [OF h1 h2, where ilb = ilb0
      and init = "\<lparr>p_x = 15, p_y = 25\<rparr>" and offX = 5 and offY = 5 and moved = False]
  obtain st' where
    r: "drag_onPointerMove ilb0 0 1 \<lparr>p_x = 15, p_y = 25\<rparr> 5 5 False
                (pointerAt 18 25 False (Some (TaskElement 0))) examplePage
              = Inr (Some (Drag 0 1 \<lparr>p_x = 15, p_y = 25\<rparr> 5 5
                  (False \<or> squaredDistance \<lparr>p_x = 15, p_y = 25\<rparr>
                     \<lparr>p_x = clientX (pointerAt 18 25 False (Some (TaskElement 0))),
                        p_y = clientY (pointerAt 18 25 False (Some (TaskElement 0)))\<rparr> > 25)), st')"
    and p: "taskPos (taskObj st' 0) = \<lparr>p_x = offsetX (pointerAt 18 25 False (Some (TaskElement 0))) - 5,
                                       p_y = offsetY (pointerAt 18 25 False (Some (TaskElement 0))) - 5\<rparr>"
    and a: "\<forall>q \<in> set (t_from (taskObj examplePage 0) @ t_to (taskObj examplePage 0)).
               updatePath_d ilb0 q None st' = Inr (d_attr (depObj st' q))"
    by blast
  have "updatePath_d ilb0 3 None st' = Inr (d_attr (depObj st' 3))"
    using a by (simp add: examplePage_fields)
  moreover have "updatePath_d ilb0 3 None st' \<in> {Inl TypeError, Inr None}"
    by (simp add: updatePath_d_def ilb0_def Let_def split: option.splits)
  ultimately have a3: "d_attr (depObj st' 3) = None" by auto
  have "drag_onPointerMove ilb0 0 1 \<lparr>p_x = 15, p_y = 25\<rparr> 5 5 False
                (pointerAt 18 25 False (Some (TaskElement 0))) examplePage
              = Inr (Some (Drag 0 1 \<lparr>p_x = 15, p_y = 25\<rparr> 5 5 False), st')"
    using r by (simp add: squaredDistance_def pointerAt_fields)
  moreover have "taskPos (taskObj st' 0) = \<lparr>p_x = 13, p_y = 20\<rparr>"
    using p by (simp add: pointerAt_fields)
  ultimately show ?thesis using h1 h2 a3 by blast
qed

lemmas eval_gesture = gesture_def onpointerdown_def handleEvent_def
  drag_onPointerMove_def drag_onPointerEnd_def link_onPointerMove_def link_onPointerEnd_def
  moveTask_def updatePath_def updatePath_d_def ilb0_def removeChild_def Let_def
  onTaskClicked_def sendSelectionChanged_def resetSelected_def getSelected_def getTasks_def
  classList_add_def classList_remove_def classList_toggle_def setClassList_def asTask_def
  squaredDistance_def pressA_fields pointerAt_fields examplePage_fields

theorem drag_below_threshold_counterexample:
  "squaredDistance \<lparr>p_x = 15, p_y = 25\<rparr> \<lparr>p_x = 18, p_y = 25\<rparr> \<le> 25
   \<and> gesture ilb0 (pressA 5 5 False) [(Pointermove, pointerAt 18 25 False (Some (TaskElement 0)))] examplePage
       = Inr (Some (Drag 0 1 \<lparr>p_x = 15, p_y = 25\<rparr> 5 5 False), dragNearState)
   \<and> taskPos (taskObj examplePage 0) = \<lparr>p_x = 10, p_y = 20\<rparr>
   \<and> taskPos (taskObj dragNearState 0) = \<lparr>p_x = 13, p_y = 20\<rparr>"
  by (simp add: dragNearState_def taskPos_def getOffsetBox_def eval_gesture)

text \<open>
  Claim C3 at the input where the code departs from it: a link gesture that is released
  over the pressed task itself. The provisional path is not discarded: it is committed as
  a dependency from the task to itself, entered in both arrays of the task, and
  \<open>newdependency\<close> is dispatched.
\<close>

theorem link_release_on_pressed_task:
  "gesture ilb0 (pressA 5 5 True)
         [(Pointermove, pointerAt 40 30 True (Some (TaskElement 0))),
          (Pointerup, pointerAt 40 30 True (Some (TaskElement 0)))] examplePage
       = Inr (None, linkSelfState)
   \<and> arrows linkSelfState = arrows examplePage @ [7]
   \<and> d_from (depObj linkSelfState 7) = 0 \<and> d_to (depObj linkSelfState 7) = Some 0
   \<and> t_from (taskObj linkSelfState 0) = [3, 5, 7] \<and> t_to (taskObj linkSelfState 0) = [4, 5, 7]
   \<and> dispatched linkSelfState = dispatched examplePage @ [Newdependency]"
  by (simp add: linkSelfState_def eval_gesture)

text \<open>
  Claim C4 at the inputs where the code departs from it. A link gesture that is released
  where it was pressed, on task A, with no move event in between: the click rules are
  applied, task A becomes selected and \<open>selectionchanged\<close> is dispatched, but the gesture
  does not end there: the provisional path is committed as a dependency from the task to
  itself, entered in both arrays of the task, and \<open>newdependency\<close> is dispatched. And a
  link gesture with one move of 3 units, below the threshold of the drag branch, that is
  released over the empty canvas: the move counts as movement, so the click rules are not
  applied, nothing is selected and nothing is dispatched.
\<close>

theorem link_click_commits_self_link:
  "gesture ilb0 (pressA 5 5 True) [(Pointerup, pointerAt 15 25 True (Some (TaskElement 0)))] examplePage
       = Inr (None, linkClickState)
   \<and> getSelected examplePage = []
   \<and> getSelected linkClickState = [0]
   \<and> getSelected (onTaskClicked 0 True examplePage) = [0]
   \<and> arrows examplePage = [3, 4, 5, 6]
   \<and> arrows linkClickState = [3, 4, 5, 6, 7]
   \<and> d_from (depObj linkClickState 7) = 0 \<and> d_to (depObj linkClickState 7) = Some 0
   \<and> t_from (taskObj linkClickState 0) = [3, 5, 7] \<and> t_to (taskObj linkClickState 0) = [4, 5, 7]
   \<and> dispatched examplePage = []
   \<and> dispatched linkClickState = [Selectionchanged [0], Newdependency]
   \<and> squaredDistance \<lparr>p_x = 11, p_y = 25\<rparr> \<lparr>p_x = 8, p_y = 25\<rparr> \<le> 25
   \<and> gesture ilb0 (pressA 1 5 True)
         [(Pointermove, pointerAt 8 25 True (Some OtherElement)),
          (Pointerup, pointerAt 8 25 True (Some OtherElement))] examplePage
       = Inr (None, linkNearState)
   \<and> getSelected linkNearState = []
   \<and> arrows linkNearState = [3, 4, 5, 6]
   \<and> dispatched linkNearState = []"
  by (simp add: linkClickState_def linkNearState_def eval_gesture)

lemma link_gesture_click_example:
  "allocated examplePage
   \<and> asTask examplePage (target (pressA 5 5 True)) = Some 0
   \<and> (shiftKey (pressA 5 5 True) \<or> linkModeChecked examplePage)
   \<and> pointerId (pointerAt 0 0 True (Some OtherElement)) = pointerId (pressA 5 5 True)
   \<and> asTask examplePage (elementFromPoint (pointerAt 0 0 True (Some OtherElement))) = None
   \<and> (\<exists>st'. gesture ilb0 (pressA 5 5 True) [(Pointercancel, pointerAt 0 0 True (Some OtherElement))]
                examplePage = Inr (None, st')
          \<and> classList (taskObj st' 0) = {''selected'', ''task''}
          \<and> arrows st' = [3, 4, 5, 6]
          \<and> dispatched st' = [Selectionchanged [0]])"
proof -
  have h1: "allocated examplePage" by (rule examplePage_allocated)
  have h2: "asTask examplePage (target (pressA 5 5 True)) = Some 0"
    by (simp add: pressA_fields asTask_examplePage)
  have h3: "shiftKey (pressA 5 5 True) \<or> linkModeChecked examplePage" by (simp add: pressA_fields)
  have h4: "pointerId (pointerAt 0 0 True (Some OtherElement)) = pointerId (pressA 5 5 True)"
    by (simp add: pressA_fields pointerAt_fields)
  have h5: "Pointercancel \<noteq> Pointermove" by simp
  have h6: "\<forall>m \<in> set []. pointerId m \<noteq> pointerId (pressA 5 5 True)" by simp
  have miss: "asTask examplePage (elementFromPoint (pointerAt 0 0 True (Some OtherElement))) = None"
    by (simp add: pointerAt_fields asTask_examplePage)
  have click: "classList (taskObj (onTaskClicked 0 True examplePage) 0) = {''selected'', ''task''}"
    "dispatched (onTaskClicked 0 True examplePage) = [Selectionchanged [0]]"
    by (simp_all add: onTaskClicked_def sendSelectionChanged_def getSelected_def getTasks_def
        classList_add_def classList_remove_def classList_toggle_def setClassList_def
        examplePage_fields)
  from link_gesture_click [OF h1 h2 h3 h4 h5 h6, where ilb = ilb0]
  obtain st' where
    g: "gesture ilb0 (pressA 5 5 True) (map (Pair Pointermove) [] @ [(Pointercancel, pointerAt 0 0 True (Some OtherElement))])
        examplePage = Inr (None, st')"
    and c: "\<forall>u. classList (taskObj st' u)
         = classList (taskObj (onTaskClicked 0 (shiftKey (pointerAt 0 0 True (Some OtherElement))) examplePage) u)"
    and m: "asTask examplePage (elementFromPoint (pointerAt 0 0 True (Some OtherElement))) = None \<longrightarrow>
          taskObj st' = taskObj (onTaskClicked 0 (shiftKey (pointerAt 0 0 True (Some OtherElement))) examplePage)
        \<and> itemsContainer st' = itemsContainer examplePage
        \<and> arrows st' = arrows examplePage
        \<and> (\<forall>d \<in> set (arrows examplePage). depObj st' d = depObj examplePage d)
        \<and> dispatched st' = dispatched (onTaskClicked 0 (shiftKey (pointerAt 0 0 True (Some OtherElement))) examplePage)"
    by (elim exE conjE)
  from m miss have m': "arrows st' = arrows examplePage"
     "dispatched st' = dispatched (onTaskClicked 0 (shiftKey (pointerAt 0 0 True (Some OtherElement))) examplePage)"
    by simp_all
  have "gesture ilb0 (pressA 5 5 True) [(Pointercancel, pointerAt 0 0 True (Some OtherElement))]
                examplePage = Inr (None, st')
          \<and> classList (taskObj st' 0) = {''selected'', ''task''}
          \<and> arrows st' = [3, 4, 5, 6]
          \<and> dispatched st' = [Selectionchanged [0]]"
    using g c m' by (simp add: pointerAt_fields click examplePage_fields)
  with h1 h2 h3 h4 miss show ?thesis by blast
qed

end
